(* ===== verification/Lumen_Prelude.thy ===== *)
theory Lumen_Prelude
  imports Main "HOL-Library.Word" "HOL-Library.List_Lexorder" "HOL-Library.Char_ord"
begin

text \<open>
  The prelude of the development: the machine types of the C++ sources, the model of
  \<open>std::map\<close> (a key-sorted association list, because the code iterates over its maps in key
  order and reads the last key with \<open>rbegin\<close>), byte/character conversion, the generic
  byte-codec interface the wire formats implement, and the generic lemmas on lists, maps and
  words that the component theories share.
\<close>

unbundle bit_operations_syntax

subsection \<open>Machine types\<close>

text \<open>\<open>uint8_t\<close>, \<open>uint16_t\<close>, \<open>uint32_t\<close> and the byte vector.\<close>

type_synonym u8 = "8 word"
type_synonym u16 = "16 word"
type_synonym u32 = "32 word"
type_synonym bytes = "u8 list"

text \<open>
  A point of \<open>std::chrono::steady_clock\<close> or \<open>system_clock\<close>, and a duration, in nanoseconds.
  \<open>duration_cast<milliseconds>\<close> truncates towards zero.
\<close>

type_synonym time_point = int
type_synonym duration = int

definition to_ms :: "duration \<Rightarrow> int" where
  "to_ms d = (if d < 0 then - ((- d) div 1000000) else d div 1000000)"

definition ms :: "int \<Rightarrow> duration" where
  "ms n = n * 1000000"

text \<open>A computation that may throw: the exception with the state it leaves, or the final state.\<close>

datatype exn = runtime_error string | json_error string

type_synonym 's result = "(exn \<times> 's) + 's"

text \<open>The state a computation leaves, whether it returned or threw.\<close>

definition state_of :: "'s result \<Rightarrow> 's" where
  "state_of r = (case r of Inl (e, s) \<Rightarrow> s | Inr s \<Rightarrow> s)"

named_theorems lumen_simps \<open>unfolding equations of the model's small helper definitions\<close>
named_theorems wire_simps \<open>facts on the byte images of the wire formats\<close>

lemma state_of_simps [simp]:
  "state_of (Inl (e, s)) = s" "state_of (Inr s) = s"
  by (simp_all add: state_of_def)

lemma to_ms_ms [simp]: "0 \<le> n \<Longrightarrow> to_ms (ms n) = n"
  by (simp add: to_ms_def ms_def)

lemma to_ms_mono: "a \<le> b \<Longrightarrow> to_ms a \<le> to_ms b"
proof -
  assume ab: "a \<le> b"
  have neg: "to_ms x \<le> 0" if "x < 0" for x :: int
    using that by (simp add: to_ms_def pos_imp_zdiv_nonneg_iff)
  have pos: "0 \<le> to_ms x" if "0 \<le> x" for x :: int
    using that by (simp add: to_ms_def pos_imp_zdiv_nonneg_iff)
  consider "b < 0" | "a < 0" "0 \<le> b" | "0 \<le> a" using ab by linarith
  then show ?thesis
  proof cases
    case 1
    then show ?thesis using ab by (simp add: to_ms_def zdiv_mono1)
  next
    case 2
    then show ?thesis using neg [of a] pos [of b] by simp
  next
    case 3
    then show ?thesis using ab by (simp add: to_ms_def zdiv_mono1)
  qed
qed

subsection \<open>\<open>std::map\<close> as a key-sorted association list\<close>

type_synonym ('k, 'v) smap = "('k \<times> 'v) list"

text \<open>\<open>m[k] = v\<close> and \<open>insert_or_assign\<close>.\<close>

fun smap_assign :: "'k::linorder \<Rightarrow> 'v \<Rightarrow> ('k, 'v) smap \<Rightarrow> ('k, 'v) smap" where
  "smap_assign k v [] = [(k, v)]"
| "smap_assign k v ((k', v') # m) =
     (if k < k' then (k, v) # (k', v') # m
      else if k = k' then (k, v) # m
      else (k', v') # smap_assign k v m)"

text \<open>\<open>emplace\<close> leaves an existing entry alone.\<close>

definition smap_emplace :: "'k::linorder \<Rightarrow> 'v \<Rightarrow> ('k, 'v) smap \<Rightarrow> ('k, 'v) smap" where
  "smap_emplace k v m = (case map_of m k of None \<Rightarrow> smap_assign k v m | Some _ \<Rightarrow> m)"

definition smap_erase :: "'k \<Rightarrow> ('k, 'v) smap \<Rightarrow> ('k, 'v) smap" where
  "smap_erase k m = filter (\<lambda>(k', v). k' \<noteq> k) m"

definition smap_inv :: "('k::linorder, 'v) smap \<Rightarrow> bool" where
  "smap_inv m = sorted_wrt (<) (map fst m)"

text \<open>
  The interface the components rely on: what a lookup returns after each update, and that each
  update keeps the representation invariant.
\<close>

locale ordered_map =
  fixes assign :: "'k::linorder \<Rightarrow> 'v \<Rightarrow> 'm \<Rightarrow> 'm"
    and emplace :: "'k \<Rightarrow> 'v \<Rightarrow> 'm \<Rightarrow> 'm"
    and erase :: "'k \<Rightarrow> 'm \<Rightarrow> 'm"
    and find :: "'m \<Rightarrow> 'k \<Rightarrow> 'v option"
    and inv :: "'m \<Rightarrow> bool"
  assumes find_assign: "find (assign k v m) = (find m)(k \<mapsto> v)"
    and find_emplace: "find (emplace k v m) = (if find m k = None then (find m)(k \<mapsto> v) else find m)"
    and find_erase: "find (erase k m) = (find m)(k := None)"
    and inv_assign: "inv m \<Longrightarrow> inv (assign k v m)"
    and inv_emplace: "inv m \<Longrightarrow> inv (emplace k v m)"
    and inv_erase: "inv m \<Longrightarrow> inv (erase k m)"
begin

lemma emplace_present: "find m k = Some w \<Longrightarrow> find (emplace k v m) = find m"
  by (simp add: find_emplace)

lemma emplace_absent: "find m k = None \<Longrightarrow> find (emplace k v m) k = Some v"
  by (simp add: find_emplace)

lemma erase_emplace: "find m k = None \<Longrightarrow> find (erase k (emplace k v m)) = find m"
  by (auto simp: find_emplace find_erase)

lemma dom_emplace: "dom (find (emplace k v m)) = insert k (dom (find m))"
  by (auto simp: find_emplace split: if_splits)

lemma dom_erase: "dom (find (erase k m)) = dom (find m) - {k}"
  by (auto simp: find_erase)

end

lemma map_of_smap_assign [simp]: "map_of (smap_assign k v m) = (map_of m)(k \<mapsto> v)"
  by (induction k v m rule: smap_assign.induct) auto

lemma keys_smap_assign: "set (map fst (smap_assign k v m)) = insert k (set (map fst m))"
  by (induction k v m rule: smap_assign.induct) auto

lemma smap_inv_Nil [simp]: "smap_inv []"
  by (simp add: smap_inv_def)

lemma smap_inv_assign: "smap_inv m \<Longrightarrow> smap_inv (smap_assign k v m)"
proof (induction k v m rule: smap_assign.induct)
  case (2 k v k' v' m)
  have keys: "fst ` set (smap_assign k v m) = insert k (fst ` set m)"
    using keys_smap_assign [of k v m] by simp
  show ?case
    using 2 by (fastforce simp: smap_inv_def keys)
qed (simp add: smap_inv_def)

lemma map_of_smap_erase: "map_of (smap_erase k m) = (map_of m)(k := None)"
  unfolding smap_erase_def by (induction m) auto

lemma smap_inv_filter: "smap_inv m \<Longrightarrow> smap_inv (filter P m)"
  unfolding smap_inv_def by (induction m) auto

interpretation sm: ordered_map smap_assign smap_emplace smap_erase map_of smap_inv
proof unfold_locales
  fix k :: 'a and v :: 'b and m :: "('a, 'b) smap"
  show "map_of (smap_assign k v m) = (map_of m)(k \<mapsto> v)" by simp
  show "map_of (smap_emplace k v m) = (if map_of m k = None then (map_of m)(k \<mapsto> v) else map_of m)"
    by (simp add: smap_emplace_def split: option.splits)
  show "map_of (smap_erase k m) = (map_of m)(k := None)" by (rule map_of_smap_erase)
  assume "smap_inv m"
  then show "smap_inv (smap_assign k v m)" "smap_inv (smap_emplace k v m)" "smap_inv (smap_erase k m)"
    by (simp_all add: smap_inv_assign smap_inv_filter smap_emplace_def smap_erase_def
        split: option.splits)
qed

lemma smap_inv_distinct: "smap_inv m \<Longrightarrow> distinct (map fst m)"
  unfolding smap_inv_def by (simp add: strict_sorted_iff)

lemma set_smap_assign: "set (smap_assign k v m) \<subseteq> insert (k, v) (set m)"
  by (induction k v m rule: smap_assign.induct) auto

lemma smap_emplace_ball:
  "\<forall>(k, v) \<in> set m. P k v \<Longrightarrow> P k v \<Longrightarrow> \<forall>(k, v) \<in> set (smap_emplace k v m). P k v"
  using set_smap_assign [of k v m] by (auto simp: smap_emplace_def split: option.splits)

lemma smap_inv_map_filter:
  assumes "smap_inv m"
  shows "smap_inv (map (\<lambda>(k, v). (k, f v)) (filter P m))"
proof -
  have "map fst (map (\<lambda>(k, v). (k, f v)) l) = map fst l" for l :: "('a \<times> 'b) list"
    by (induction l) auto
  then show ?thesis
    using smap_inv_filter [OF assms, of P] unfolding smap_inv_def by metis
qed

lemma smap_last_max:
  assumes "smap_inv m" and "k \<in> fst ` set m"
  shows "k \<le> fst (last m)"
proof -
  have ne: "m \<noteq> []" using assms(2) by auto
  then have split: "map fst m = map fst (butlast m) @ [fst (last m)]"
    by (metis append_butlast_last_id list.simps(8,9) map_append)
  have "sorted_wrt (<) (map fst (butlast m) @ [fst (last m)])"
    using assms(1) split by (simp add: smap_inv_def)
  moreover have "k \<in> set (map fst (butlast m) @ [fst (last m)])"
    using assms(2) by (metis list.set_map split)
  ultimately show ?thesis by (auto simp: sorted_wrt_append less_imp_le)
qed

subsection \<open>Bytes and characters\<close>

text \<open>
  \<open>std::vector<uint8_t>(str.begin(), str.end())\<close> and \<open>std::string(data.begin(), data.end())\<close>:
  each \<open>char\<close> is one byte.
\<close>

definition byte_of_char :: "char \<Rightarrow> u8" where
  "byte_of_char c = word_of_nat (of_char c)"

definition char_of_byte :: "u8 \<Rightarrow> char" where
  "char_of_byte b = char_of (unat b)"

lemma char_of_byte_of_char [simp]: "char_of_byte (byte_of_char c) = c"
proof -
  have "of_char c < (256 :: nat)" by simp
  then show ?thesis
    by (simp add: char_of_byte_def byte_of_char_def unat_of_nat)
qed

lemma byte_of_char_of_byte [simp]: "byte_of_char (char_of_byte b) = b"
proof -
  have "unat b < 256" using unsigned_less [of b] by simp
  then have "(of_char (char_of (unat b)) :: nat) = unat b"
    by (simp add: of_char_of)
  then show ?thesis
    by (simp add: char_of_byte_def byte_of_char_def)
qed

subsection \<open>Byte codecs\<close>

text \<open>
  The contract of a self-delimiting wire format: a valid value is decoded from any buffer that
  starts with its encoding, and whatever is decoded is valid and was encoded at the start of the
  buffer. The consequences (injectivity, unique decoding of a stream) are proved once here.
\<close>

locale byte_codec =
  fixes encode :: "'a \<Rightarrow> bytes"
    and decode :: "bytes \<Rightarrow> 'a option"
    and valid :: "'a \<Rightarrow> bool"
  assumes decode_encode: "valid a \<Longrightarrow> decode (encode a @ rest) = Some a"
    and decode_sound: "decode bs = Some a \<Longrightarrow> valid a \<and> (\<exists>rest. bs = encode a @ rest)"
begin

lemma encode_inj: "valid a \<Longrightarrow> valid b \<Longrightarrow> encode a = encode b \<Longrightarrow> a = b"
  using decode_encode [of a "[]"] decode_encode [of b "[]"] by simp

lemma decode_iff: "decode bs = Some a \<longleftrightarrow> valid a \<and> (\<exists>rest. bs = encode a @ rest)"
  using decode_encode decode_sound by blast

lemma prefix_free:
  assumes "valid a" "valid b" "encode a @ xs = encode b @ ys"
  shows "a = b \<and> xs = ys"
proof -
  have "decode (encode a @ xs) = Some a" "decode (encode b @ ys) = Some b"
    using assms(1,2) by (simp_all add: decode_encode)
  then have "a = b" using assms(3) by simp
  then show ?thesis using assms(3) by simp
qed

lemma stream_unique:
  assumes "\<forall>a \<in> set as. valid a" "\<forall>b \<in> set bs. valid b" "length as = length bs"
    and "concat (map encode as) = concat (map encode bs)"
  shows "as = bs"
  using assms(3,1,2,4)
proof (induction as bs rule: list_induct2)
  case (Cons a as b bs)
  then have "a = b \<and> concat (map encode as) = concat (map encode bs)"
    using prefix_free [of a b "concat (map encode as)" "concat (map encode bs)"] by simp
  then show ?case using Cons by simp
qed simp

end

subsection \<open>Generic list facts\<close>

lemma take_drop_split3:
  "m \<le> n \<Longrightarrow> n \<le> length xs \<Longrightarrow> xs = take m xs @ take (n - m) (drop m xs) @ drop n xs"
  by (metis append.assoc append_take_drop_id le_add_diff_inverse take_add)

lemma foldl_preserves:
  assumes "\<And>s x. P s \<Longrightarrow> P (f s x)" and "P s"
  shows "P (foldl f s xs)"
  using assms(2) by (induction xs arbitrary: s) (auto intro: assms(1))

end
