(* ===== verification/Lumen_Header.thy ===== *)
theory Lumen_Header
  imports Lumen_Prelude
begin

text \<open>
  The LUMEN header: the constants of \<open>include/common/configs.hpp\<close> that describe the wire format,
  the class \<open>LumenHeader\<close> (\<open>include/common/lumen_header.hpp\<close>, \<open>src/common/lumen_header.cpp\<close>)
  with its parser and printer, and the CRC-8 routine. The lemmas show that the header is a
  byte codec, and that the CRC is a linear function whose byte step is a bijection, which is what
  makes it detect errors.
\<close>

subsection \<open>Wire-format constants\<close>

definition LUMEN_STX :: u8 where "LUMEN_STX = 0x02"
definition LUMEN_ETX :: u8 where "LUMEN_ETX = 0x03"

definition LUMEN_STX_POS :: nat where "LUMEN_STX_POS = 0"
definition LUMEN_TYPE_POS :: nat where "LUMEN_TYPE_POS = 1"
definition LUMEN_PRIO_POS :: nat where "LUMEN_PRIO_POS = 2"
definition LUMEN_SEQ_POS :: nat where "LUMEN_SEQ_POS = 3"
definition LUMEN_TIMESTAMP_POS :: nat where "LUMEN_TIMESTAMP_POS = 4"
definition LUMEN_LEN_POS :: nat where "LUMEN_LEN_POS = 8"
definition LUMEN_PAYLOAD_POS :: nat where "LUMEN_PAYLOAD_POS = 10"
definition LUMEN_HEADER_SIZE :: nat where "LUMEN_HEADER_SIZE = 10"

lemmas lumen_positions =
  LUMEN_STX_POS_def LUMEN_TYPE_POS_def LUMEN_PRIO_POS_def LUMEN_SEQ_POS_def
  LUMEN_TIMESTAMP_POS_def LUMEN_LEN_POS_def LUMEN_PAYLOAD_POS_def LUMEN_HEADER_SIZE_def

declare lumen_positions [wire_simps]

subsection \<open>The header class\<close>

datatype MessageType = ACK | CMD | DATA | VIDEO | STATUS | NAK

datatype Priority = LOW | MEDIUM | HIGH

record lumen_header =
  hdr_type :: MessageType
  hdr_priority :: Priority
  hdr_sequence :: u8
  hdr_timestamp :: u32
  hdr_payload_length :: u16

text \<open>\<open>static_cast<uint8_t>\<close> of the two enumerations.\<close>

fun message_type_byte :: "MessageType \<Rightarrow> u8" where
  "message_type_byte ACK = 0"
| "message_type_byte CMD = 1"
| "message_type_byte DATA = 2"
| "message_type_byte VIDEO = 3"
| "message_type_byte STATUS = 4"
| "message_type_byte NAK = 5"

fun priority_byte :: "Priority \<Rightarrow> u8" where
  "priority_byte LOW = 0"
| "priority_byte MEDIUM = 1"
| "priority_byte HIGH = 2"

text \<open>
  \<open>static_cast\<close> from a byte that passed the range check (at most 5, at most 2). A byte outside the
  range has no enumerator; the parser rejects it before the value is used.
\<close>

definition message_type_of_byte :: "u8 \<Rightarrow> MessageType option" where
  "message_type_of_byte b =
     (if b = 0 then Some ACK else if b = 1 then Some CMD else if b = 2 then Some DATA
      else if b = 3 then Some VIDEO else if b = 4 then Some STATUS else if b = 5 then Some NAK
      else None)"

definition priority_of_byte :: "u8 \<Rightarrow> Priority option" where
  "priority_of_byte b =
     (if b = 0 then Some LOW else if b = 1 then Some MEDIUM else if b = 2 then Some HIGH
      else None)"

text \<open>The big-endian fields, shifted and OR-ed together as the parser does.\<close>

definition be32 :: "u8 \<Rightarrow> u8 \<Rightarrow> u8 \<Rightarrow> u8 \<Rightarrow> u32" where
  "be32 b0 b1 b2 b3 =
     push_bit 24 (ucast b0) OR push_bit 16 (ucast b1) OR push_bit 8 (ucast b2) OR ucast b3"

definition be16 :: "u8 \<Rightarrow> u8 \<Rightarrow> u16" where
  "be16 b0 b1 = push_bit 8 (ucast b0) OR ucast b1"

definition header_from_bytes :: "bytes \<Rightarrow> lumen_header option" where
  "header_from_bytes bs =
     (if length bs < LUMEN_HEADER_SIZE then None
      else if bs ! LUMEN_STX_POS \<noteq> LUMEN_STX then None
      else
        let sequence = bs ! LUMEN_SEQ_POS;
            timestamp = be32 (bs ! LUMEN_TIMESTAMP_POS) (bs ! (LUMEN_TIMESTAMP_POS + 1))
                             (bs ! (LUMEN_TIMESTAMP_POS + 2)) (bs ! (LUMEN_TIMESTAMP_POS + 3));
            payload_length = be16 (bs ! LUMEN_LEN_POS) (bs ! (LUMEN_LEN_POS + 1))
        in case message_type_of_byte (bs ! LUMEN_TYPE_POS) of
             None \<Rightarrow> None
           | Some t \<Rightarrow>
               (case priority_of_byte (bs ! LUMEN_PRIO_POS) of
                  None \<Rightarrow> None
                | Some p \<Rightarrow>
                    Some \<lparr>hdr_type = t, hdr_priority = p, hdr_sequence = sequence,
                          hdr_timestamp = timestamp, hdr_payload_length = payload_length\<rparr>))"

definition header_to_bytes :: "lumen_header \<Rightarrow> bytes" where
  "header_to_bytes h =
     [LUMEN_STX, message_type_byte (hdr_type h), priority_byte (hdr_priority h), hdr_sequence h,
      ucast (drop_bit 24 (hdr_timestamp h) AND 0xFF), ucast (drop_bit 16 (hdr_timestamp h) AND 0xFF),
      ucast (drop_bit 8 (hdr_timestamp h) AND 0xFF), ucast (hdr_timestamp h AND 0xFF),
      ucast (drop_bit 8 (hdr_payload_length h) AND 0xFF), ucast (hdr_payload_length h AND 0xFF)]"

definition set_sequence :: "u8 \<Rightarrow> lumen_header \<Rightarrow> lumen_header" where
  "set_sequence seq h = h\<lparr>hdr_sequence := seq\<rparr>"

definition set_timestamp :: "u32 \<Rightarrow> lumen_header \<Rightarrow> lumen_header" where
  "set_timestamp ts h = h\<lparr>hdr_timestamp := ts\<rparr>"

definition set_payload_length :: "u16 \<Rightarrow> lumen_header \<Rightarrow> lumen_header" where
  "set_payload_length len h = h\<lparr>hdr_payload_length := len\<rparr>"

subsection \<open>CRC-8, polynomial \<open>x^8 + x^2 + x + 1\<close>\<close>

text \<open>The inner loop's body, its eight rounds for one byte, and the loop over the data.\<close>

definition crc8_step :: "u8 \<Rightarrow> u8" where
  "crc8_step crc = (if crc AND 0x80 \<noteq> 0 then push_bit 1 crc XOR 0x07 else push_bit 1 crc)"

definition crc8_byte :: "u8 \<Rightarrow> u8 \<Rightarrow> u8" where
  "crc8_byte crc b = (crc8_step ^^ 8) (crc XOR b)"

definition calculate_crc8 :: "bytes \<Rightarrow> u8" where
  "calculate_crc8 data = foldl crc8_byte 0x00 data"

subsection \<open>The header as a byte codec\<close>

lemma message_type_of_byte_inverse [simp]: "message_type_of_byte (message_type_byte t) = Some t"
  by (cases t) (simp_all add: message_type_of_byte_def)

lemma priority_of_byte_inverse [simp]: "priority_of_byte (priority_byte p) = Some p"
  by (cases p) (simp_all add: priority_of_byte_def)

lemma message_type_of_byte_Some:
  "message_type_of_byte b = Some t \<longleftrightarrow> b = message_type_byte t"
  by (cases t) (auto simp: message_type_of_byte_def split: if_splits)

lemma priority_of_byte_Some: "priority_of_byte b = Some p \<longleftrightarrow> b = priority_byte p"
  by (cases p) (auto simp: priority_of_byte_def split: if_splits)

lemma message_type_range: "message_type_of_byte b = None \<longleftrightarrow> 5 < b"
  by (auto simp: message_type_of_byte_def word_less_nat_alt word_unat_eq_iff)

lemma priority_range: "priority_of_byte b = None \<longleftrightarrow> 2 < b"
  by (auto simp: priority_of_byte_def word_less_nat_alt word_unat_eq_iff)

lemma bit_255_int: "bit (255 :: int) n \<longleftrightarrow> n < 8"
proof -
  have ff: "(255 :: int) = mask 8" by (simp add: mask_eq_exp_minus_1)
  show ?thesis unfolding ff by (simp only: bit_mask_iff) simp
qed

lemma bit_7_int: "bit (7 :: int) n \<longleftrightarrow> n < 3"
proof -
  have ff: "(7 :: int) = mask 3" by (simp add: mask_eq_exp_minus_1)
  show ?thesis unfolding ff by (simp only: bit_mask_iff) simp
qed

lemma low_byte_bit: "bit (ucast (w AND 0xFF) :: u8) n \<longleftrightarrow> n < 8 \<and> bit (w :: 'a::len word) n"
  by (auto simp: bit_simps bit_255_int dest: bit_imp_le_length)

lemma be32_split:
  "be32 (ucast (drop_bit 24 w AND 0xFF)) (ucast (drop_bit 16 w AND 0xFF))
        (ucast (drop_bit 8 w AND 0xFF)) (ucast (w AND 0xFF)) = w"
  (is "?l = w")
proof (rule bit_word_eqI)
  fix n assume "n < LENGTH(32)"
  then consider "n < 8" | "8 \<le> n" "n < 16" | "16 \<le> n" "n < 24" | "24 \<le> n" "n < 32"
    by fastforce
  then show "bit ?l n \<longleftrightarrow> bit w n"
    by cases (auto simp: be32_def bit_simps bit_255_int)
qed

lemma be16_split:
  "be16 (ucast (drop_bit 8 w AND 0xFF)) (ucast (w AND 0xFF)) = w" (is "?l = w")
proof (rule bit_word_eqI)
  fix n assume "n < LENGTH(16)"
  then consider "n < 8" | "8 \<le> n" "n < 16" by fastforce
  then show "bit ?l n \<longleftrightarrow> bit w n"
    by cases (auto simp: be16_def bit_simps bit_255_int)
qed

lemma be32_join:
  "ucast (drop_bit 24 (be32 b0 b1 b2 b3) AND 0xFF) = b0"
  "ucast (drop_bit 16 (be32 b0 b1 b2 b3) AND 0xFF) = b1"
  "ucast (drop_bit 8 (be32 b0 b1 b2 b3) AND 0xFF) = b2"
  "ucast (be32 b0 b1 b2 b3 AND 0xFF) = b3"
  by (rule bit_word_eqI, auto simp: bit_255_int be32_def bit_simps dest: bit_imp_le_length)+

lemma be16_join:
  "ucast (drop_bit 8 (be16 b0 b1) AND 0xFF) = b0"
  "ucast (be16 b0 b1 AND 0xFF) = b1"
  by (rule bit_word_eqI, auto simp: bit_255_int be16_def bit_simps dest: bit_imp_le_length)+

lemma length_header_to_bytes [simp]: "length (header_to_bytes h) = LUMEN_HEADER_SIZE"
  by (simp add: header_to_bytes_def wire_simps)

lemma header_from_to_bytes: "header_from_bytes (header_to_bytes h @ rest) = Some h"
  by (simp add: header_from_bytes_def header_to_bytes_def wire_simps be32_split be16_split)

lemma nth_10_split:
  assumes "10 \<le> length bs"
  shows "bs = [bs ! 0, bs ! 1, bs ! 2, bs ! 3, bs ! 4, bs ! 5, bs ! 6, bs ! 7, bs ! 8, bs ! 9]
              @ drop 10 bs"
proof -
  have "take 10 bs = map (nth bs) [0..<10]"
    using assms by (simp add: list_eq_iff_nth_eq)
  also have "[0..<10] = [0, 1, 2, 3, 4, 5, 6, 7, 8, 9 :: nat]" by (simp add: upt_rec)
  finally have "take 10 bs @ drop 10 bs = map (nth bs) [0, 1, 2, 3, 4, 5, 6, 7, 8, 9] @ drop 10 bs"
    by (rule arg_cong)
  then show ?thesis by simp
qed

lemma header_from_bytes_sound:
  assumes "header_from_bytes bs = Some h"
  shows "bs = header_to_bytes h @ drop LUMEN_HEADER_SIZE bs"
proof -
  from assms have len: "10 \<le> length bs" and stx: "bs ! 0 = LUMEN_STX"
    and t: "bs ! 1 = message_type_byte (hdr_type h)"
    and p: "bs ! 2 = priority_byte (hdr_priority h)"
    and s: "bs ! 3 = hdr_sequence h"
    and ts: "be32 (bs ! 4) (bs ! 5) (bs ! 6) (bs ! 7) = hdr_timestamp h"
    and l: "be16 (bs ! 8) (bs ! 9) = hdr_payload_length h"
    by (auto simp: header_from_bytes_def wire_simps Let_def message_type_of_byte_Some
        priority_of_byte_Some split: if_splits option.splits)
  have "header_to_bytes h =
      [bs ! 0, bs ! 1, bs ! 2, bs ! 3, bs ! 4, bs ! 5, bs ! 6, bs ! 7, bs ! 8, bs ! 9]"
    using stx t p s by (simp add: header_to_bytes_def be32_join be16_join flip: ts l)
  then show ?thesis
    using nth_10_split [OF len] by (simp add: wire_simps)
qed

interpretation hdr: byte_codec header_to_bytes header_from_bytes "\<lambda>_. True"
proof unfold_locales
  fix a rest show "header_from_bytes (header_to_bytes a @ rest) = Some a"
    by (rule header_from_to_bytes)
next
  fix bs a assume "header_from_bytes bs = Some a"
  then show "True \<and> (\<exists>rest. bs = header_to_bytes a @ rest)"
    using header_from_bytes_sound by blast
qed

subsection \<open>The CRC is linear and its byte step is injective\<close>

lemma msb_test: "(crc :: u8) AND 0x80 \<noteq> 0 \<longleftrightarrow> bit crc 7"
proof -
  have "(0x80 :: u8) = push_bit 7 1" by simp
  then show ?thesis
    by (metis and_exp_eq_0_iff_not_bit push_bit_of_1)
qed

lemma bit_crc8_step:
  "bit (crc8_step c) n \<longleftrightarrow> n < 8 \<and> ((0 < n \<and> bit c (n - 1)) \<noteq> (n < 3 \<and> bit c 7))"
proof -
  have shift: "bit (push_bit 1 c) n \<longleftrightarrow> n < 8 \<and> 0 < n \<and> bit c (n - 1)"
    by (auto simp only: bit_push_bit_iff possible_bit_word) simp_all
  show ?thesis
    by (cases "bit c 7")
      (auto simp: crc8_step_def msb_test bit_xor_iff shift bit_numeral_word_iff bit_7_int
        simp del: push_bit_Suc One_nat_def)
qed

lemma crc8_step_xor: "crc8_step (a XOR b) = crc8_step a XOR crc8_step b"
  by (rule bit_word_eqI) (auto simp: bit_crc8_step bit_simps)

lemma crc8_step_0 [simp]: "crc8_step 0 = 0"
  by (simp add: crc8_step_def)

lemma crc8_step_eq_0: "crc8_step c = 0 \<longleftrightarrow> c = 0"
proof
  assume z: "crc8_step c = 0"
  have step: "\<not> (n < 8 \<and> ((0 < n \<and> bit c (n - 1)) \<noteq> (n < 3 \<and> bit c 7)))" for n
    using bit_crc8_step [of c n] z by simp
  have b7: "\<not> bit c 7" using step [of 0] by simp
  show "c = 0"
  proof (rule bit_word_eqI)
    fix n assume n: "n < LENGTH(8)"
    show "bit c n \<longleftrightarrow> bit (0 :: u8) n"
      using n step [of "Suc n"] b7 by (cases "n = 7") auto
  qed
qed simp

lemma crc8_steps_xor: "(crc8_step ^^ n) (a XOR b) = (crc8_step ^^ n) a XOR (crc8_step ^^ n) b"
  by (induction n) (simp_all add: crc8_step_xor)

lemma crc8_steps_eq_0: "(crc8_step ^^ n) c = 0 \<longleftrightarrow> c = 0"
  by (induction n) (simp_all add: crc8_step_eq_0)

lemma xor_eq_0_iff: "(a :: u8) XOR b = 0 \<longleftrightarrow> a = b"
  by (metis xor.assoc xor.left_neutral xor_self_eq)

lemma xor_left_cancel: "(a :: u8) XOR b = a XOR c \<longleftrightarrow> b = c"
  by (auto simp: bit_eq_iff bit_xor_iff)

lemma crc8_byte_inj: "crc8_byte c b = crc8_byte c' b' \<longleftrightarrow> c XOR b = c' XOR b'"
  by (metis crc8_byte_def crc8_steps_eq_0 crc8_steps_xor xor_eq_0_iff)

text \<open>From different registers the same data leads to different registers.\<close>

lemma foldl_crc8_byte_inj: "foldl crc8_byte c data = foldl crc8_byte c' data \<longleftrightarrow> c = c'"
proof (induction data arbitrary: c c')
  case (Cons b data)
  have "c XOR b = c' XOR b \<longleftrightarrow> c = c'"
    by (metis xor.assoc xor.right_neutral xor_self_eq)
  then show ?case using Cons.IH by (simp add: crc8_byte_inj)
qed simp

lemma foldl_crc8_byte_xor:
  "length xs = length ys \<Longrightarrow>
   foldl crc8_byte (c XOR d) (map2 (XOR) xs ys) = foldl crc8_byte c xs XOR foldl crc8_byte d ys"
proof (induction xs ys arbitrary: c d rule: list_induct2)
  case (Cons x xs y ys)
  have "crc8_byte (c XOR d) (x XOR y) = crc8_byte c x XOR crc8_byte d y"
    unfolding crc8_byte_def
    by (metis (no_types, lifting) crc8_steps_xor xor.assoc xor.commute)
  then show ?case using Cons.IH by simp
qed simp

text \<open>As long as no set bit reaches the top, a round is a plain shift.\<close>

lemma crc8_steps_shift:
  assumes "k \<le> 8" and "\<And>i. 8 - k \<le> i \<Longrightarrow> \<not> bit (c :: u8) i"
  shows "(crc8_step ^^ k) c = push_bit k c"
  using assms
proof (induction k)
  case (Suc k)
  have "(crc8_step ^^ k) c = push_bit k c"
    using Suc.prems by (intro Suc.IH) auto
  moreover have "\<not> bit (push_bit k c) 7"
    using Suc.prems by (auto simp: bit_push_bit_iff)
  then have "crc8_step (push_bit k c) = push_bit 1 (push_bit k c)"
    using msb_test [of "push_bit k c"] by (simp only: crc8_step_def if_False)
  moreover have "push_bit 1 (push_bit k c) = push_bit (Suc k) c"
    by (simp only: push_bit_push_bit) simp
  ultimately show ?case by (simp del: push_bit_Suc)
qed simp

text \<open>
  A burst in two adjacent bytes \<open>d1\<close>, \<open>d2\<close>: only the low \<open>j\<close> bits of the first and the bits from
  \<open>j\<close> upwards of the second may be set, so at most eight consecutive bits are affected.
\<close>

definition burst :: "nat \<Rightarrow> u8 \<Rightarrow> u8 \<Rightarrow> bool" where
  "burst j d1 d2 \<longleftrightarrow> j \<le> 8 \<and> (\<forall>i \<ge> j. \<not> bit d1 i) \<and> (\<forall>i < j. \<not> bit d2 i)"

lemma burst_not_cancelled:
  assumes "burst j d1 d2" and "(crc8_step ^^ 8) d1 = d2"
  shows "d1 = 0 \<and> d2 = 0"
proof -
  let ?e = "drop_bit j d2"
  have j: "j \<le> 8" using assms(1) by (simp add: burst_def)
  have above: "bit d2 n \<Longrightarrow> j \<le> n" for n
    using assms(1) by (auto simp: burst_def simp flip: not_less)
  have d2: "push_bit j ?e = d2"
    by (intro bit_word_eqI) (use above in \<open>force simp: bit_push_bit_iff bit_drop_bit_eq\<close>)
  have "(crc8_step ^^ j) ?e = push_bit j ?e"
    using j by (intro crc8_steps_shift) (auto simp: bit_drop_bit_eq dest: bit_imp_le_length)
  moreover have "(crc8_step ^^ (8 - j)) d1 = push_bit (8 - j) d1"
    using assms(1) j by (intro crc8_steps_shift) (auto simp: burst_def)
  moreover have "(crc8_step ^^ 8) d1 = (crc8_step ^^ j) ((crc8_step ^^ (8 - j)) d1)"
    using j by (simp flip: funpow_add comp_apply [of "crc8_step ^^ j"])
  ultimately have "(crc8_step ^^ j) (push_bit (8 - j) d1 XOR ?e) = 0"
    using assms(2) d2 by (simp add: crc8_steps_xor)
  then have eq: "push_bit (8 - j) d1 = ?e"
    by (simp add: crc8_steps_eq_0 xor_eq_0_iff)
  have "\<not> bit ?e i" for i
  proof
    assume b: "bit ?e i"
    then have "i < 8 - j" by (auto simp: bit_drop_bit_eq dest: bit_imp_le_length)
    moreover have "8 - j \<le> i" using b unfolding eq [symmetric] by (simp add: bit_push_bit_iff)
    ultimately show False by simp
  qed
  then have e: "?e = 0" by (intro bit_word_eqI) simp
  then have "(crc8_step ^^ 8) d1 = 0" using assms(2) d2 by simp
  then show ?thesis using assms(2) by (simp add: crc8_steps_eq_0)
qed

subsection \<open>Properties of the header\<close>

text \<open>\<open>LumenHeader::from_bytes\<close> accepts a buffer exactly if it starts with the ten bytes
  \<open>to_bytes\<close> produces for the header it returns: printing and parsing are inverse in both
  directions, whatever follows the header in the buffer.\<close>

lemma header_parse_print:
  "header_from_bytes bs = Some h \<longleftrightarrow> (\<exists>rest. bs = header_to_bytes h @ rest)"
  using hdr.decode_iff [of bs h] by simp

text \<open>C33: \<open>calculate_crc8\<close> is linear over XOR for messages of equal length, and appending its own
  checksum to a message gives checksum zero.\<close>

theorem crc8_linear:
  "(length xs = length ys \<longrightarrow>
      calculate_crc8 (map2 (XOR) xs ys) = calculate_crc8 xs XOR calculate_crc8 ys) \<and>
   calculate_crc8 (xs @ [calculate_crc8 xs]) = 0"
proof -
  have "(crc8_step ^^ n) 0 = 0" for n
    by (induction n) (simp_all add: crc8_step_def)
  then have "calculate_crc8 (xs @ [calculate_crc8 xs]) = 0"
    by (simp add: calculate_crc8_def crc8_byte_def)
  moreover have "length xs = length ys \<Longrightarrow>
      calculate_crc8 (map2 (XOR) xs ys) = calculate_crc8 xs XOR calculate_crc8 ys"
    using foldl_crc8_byte_xor [of xs ys 0 0] by (simp add: calculate_crc8_def)
  ultimately show ?thesis by blast
qed

theorem crc8_linear_witness:
  "calculate_crc8 (map2 (XOR) [1, 2] [3, 7]) = calculate_crc8 [1, 2] XOR calculate_crc8 [3, 7]"
  using crc8_linear [of "[1, 2]" "[3, 7]"] by simp

text \<open>C32: \<open>calculate_crc8\<close> detects every burst error of at most eight bits: flipping bits of two
  adjacent bytes within a window of eight consecutive bits, anywhere in a message, changes the
  checksum.\<close>

theorem crc8_detects_bursts:
  assumes "burst j d1 d2" and "(d1, d2) \<noteq> (0, 0)"
  shows "calculate_crc8 (xs @ [a XOR d1, b XOR d2] @ ys) \<noteq> calculate_crc8 (xs @ [a, b] @ ys)"
proof
  let ?c = "foldl crc8_byte 0 xs"
  assume "calculate_crc8 (xs @ [a XOR d1, b XOR d2] @ ys) = calculate_crc8 (xs @ [a, b] @ ys)"
  then have "crc8_byte ?c (a XOR d1) XOR (b XOR d2) = crc8_byte ?c a XOR b"
    by (simp add: calculate_crc8_def foldl_crc8_byte_inj crc8_byte_inj)
  moreover have "crc8_byte ?c (a XOR d1) = crc8_byte ?c a XOR (crc8_step ^^ 8) d1"
    by (simp add: crc8_byte_def crc8_steps_xor flip: xor.assoc)
  ultimately have "(crc8_byte ?c a XOR b) XOR ((crc8_step ^^ 8) d1 XOR d2) = (crc8_byte ?c a XOR b) XOR 0"
    by (simp only: xor.assoc xor.left_commute [of b] xor.right_neutral)
  then have "(crc8_step ^^ 8) d1 XOR d2 = 0" by (simp only: xor_left_cancel)
  then show False
    using burst_not_cancelled [OF assms(1)] assms(2) by (simp add: xor_eq_0_iff)
qed

theorem crc8_detects_bursts_witness:
  "burst 1 1 0x82 \<and> calculate_crc8 ([2] @ [7 XOR 1, 9 XOR 0x82] @ [3]) \<noteq> calculate_crc8 ([2] @ [7, 9] @ [3])"
proof -
  have low: "\<forall>i \<ge> 1. \<not> bit (1 :: u8) i" by (simp add: bit_1_iff)
  have even: "\<forall>i < 1. \<not> bit (0x82 :: u8) i" by simp
  have "burst 1 1 0x82" using low even unfolding burst_def by simp
  then show ?thesis using crc8_detects_bursts [of 1 1 "0x82" "[2]" 7 9 "[3]"] by simp
qed

end
