(* ===== verification/Lumen_Packet.thy ===== *)
theory Lumen_Packet
  imports Lumen_Header
begin

text \<open>
  The class \<open>LumenPacket\<close> (\<open>include/common/lumen_packet.hpp\<close>, \<open>src/common/lumen_packet.cpp\<close>):
  constructor, parser, printer and the self-check \<open>is_valid\<close>. The lemmas show that packets are
  a byte codec (round trip in front of any trailing bytes, and every accepted buffer starts with
  the exact encoding of what was parsed), and that a corrupted byte is detected.
\<close>

record lumen_packet =
  pkt_header :: lumen_header
  pkt_payload :: bytes

text \<open>The constructor overwrites the header's length with \<open>static_cast<uint16_t>(payload.size())\<close>.\<close>

definition LumenPacket :: "lumen_header \<Rightarrow> bytes \<Rightarrow> lumen_packet" where
  "LumenPacket header payload =
     \<lparr>pkt_header = set_payload_length (word_of_nat (length payload)) header,
      pkt_payload = payload\<rparr>"

definition packet_from_bytes :: "bytes \<Rightarrow> lumen_packet option" where
  "packet_from_bytes bs =
     (case header_from_bytes bs of
        None \<Rightarrow> None
      | Some header \<Rightarrow>
          let expected_size = LUMEN_HEADER_SIZE + unat (hdr_payload_length header) + 2
          in if length bs < expected_size then None
             else if bs ! (expected_size - 1) \<noteq> LUMEN_ETX then None
             else
               let payload = take (unat (hdr_payload_length header)) (drop LUMEN_PAYLOAD_POS bs);
                   stored_crc = bs ! (expected_size - 2);
                   data_for_crc = take (expected_size - 2) bs;
                   calculated_crc = calculate_crc8 data_for_crc
               in if calculated_crc \<noteq> stored_crc then None
                  else Some (LumenPacket header payload))"

definition calculate_packet_crc :: "lumen_packet \<Rightarrow> u8" where
  "calculate_packet_crc p = calculate_crc8 (header_to_bytes (pkt_header p) @ pkt_payload p)"

definition packet_to_bytes :: "lumen_packet \<Rightarrow> bytes" where
  "packet_to_bytes p =
     header_to_bytes (pkt_header p) @ pkt_payload p @ [calculate_packet_crc p] @ [LUMEN_ETX]"

definition total_size :: "lumen_packet \<Rightarrow> nat" where
  "total_size p = LUMEN_HEADER_SIZE + length (pkt_payload p) + 2"

definition is_valid :: "lumen_packet \<Rightarrow> bool" where
  "is_valid p =
     (let packet_data = packet_to_bytes p
      in if length packet_data < LUMEN_HEADER_SIZE + 2 then False
         else if last packet_data \<noteq> LUMEN_ETX then False
         else
           let crc_pos = length packet_data - 2;
               calculated_crc = calculate_crc8 (take crc_pos packet_data);
               stored_crc = packet_data ! crc_pos
           in calculated_crc = stored_crc)"

definition get_crc_position :: "bytes \<Rightarrow> nat" where
  "get_crc_position packet_data = (if length packet_data < 2 then 0 else length packet_data - 2)"

text \<open>
  The class invariant the constructor establishes for payloads a 16-bit length can describe.
\<close>

definition packet_ok :: "lumen_packet \<Rightarrow> bool" where
  "packet_ok p \<longleftrightarrow> unat (hdr_payload_length (pkt_header p)) = length (pkt_payload p)"

subsection \<open>The packet as a byte codec\<close>

lemma packet_ok_LumenPacket [simp]: "length payload < 2 ^ 16 \<Longrightarrow> packet_ok (LumenPacket h payload)"
  by (simp add: packet_ok_def LumenPacket_def set_payload_length_def unat_of_nat)

lemma length_packet_to_bytes [simp]: "length (packet_to_bytes p) = total_size p"
  by (simp add: packet_to_bytes_def total_size_def)

lemma LumenPacket_ok [simp]: "packet_ok p \<Longrightarrow> LumenPacket (pkt_header p) (pkt_payload p) = p"
proof -
  assume "packet_ok p"
  then have "length (pkt_payload p) = unat (hdr_payload_length (pkt_header p))"
    by (simp add: packet_ok_def)
  then show ?thesis by (simp add: LumenPacket_def set_payload_length_def)
qed

lemma LumenPacket_payload [simp]: "pkt_payload (LumenPacket h payload) = payload"
  by (simp add: LumenPacket_def)

lemma LumenPacket_header [simp]:
  "hdr_type (pkt_header (LumenPacket h payload)) = hdr_type h"
  "hdr_priority (pkt_header (LumenPacket h payload)) = hdr_priority h"
  "hdr_sequence (pkt_header (LumenPacket h payload)) = hdr_sequence h"
  "hdr_timestamp (pkt_header (LumenPacket h payload)) = hdr_timestamp h"
  by (simp_all add: LumenPacket_def set_payload_length_def)

lemma packet_from_to_bytes:
  assumes "packet_ok p"
  shows "packet_from_bytes (packet_to_bytes p @ rest) = Some p"
proof -
  have len: "unat (hdr_payload_length (pkt_header p)) = length (pkt_payload p)"
    using assms by (simp add: packet_ok_def)
  have hdr: "header_from_bytes (packet_to_bytes p @ rest) = Some (pkt_header p)"
    by (simp add: packet_to_bytes_def header_from_to_bytes)
  show ?thesis
    using assms unfolding packet_from_bytes_def hdr
    by (simp add: Let_def len packet_to_bytes_def total_size_def nth_append wire_simps
        calculate_packet_crc_def)
qed

lemma packet_from_bytes_sound:
  assumes "packet_from_bytes bs = Some p"
  shows "packet_ok p" and "bs = packet_to_bytes p @ drop (total_size p) bs"
    and "header_from_bytes bs = Some (pkt_header p)" and "total_size p \<le> length bs"
proof -
  from assms obtain h where h: "header_from_bytes bs = Some h"
    by (auto simp: packet_from_bytes_def split: option.splits)
  define n where "n = unat (hdr_payload_length h)"
  from assms h have len: "n + 12 \<le> length bs"
    and etx: "bs ! (n + 11) = LUMEN_ETX"
    and crc: "calculate_crc8 (take (n + 10) bs) = bs ! (n + 10)"
    and p: "p = LumenPacket h (take n (drop 10 bs))"
    by (auto simp: packet_from_bytes_def wire_simps n_def Let_def ac_simps split: if_splits)
  have plen: "length (pkt_payload p) = n" using len p by simp
  have n16: "n < 2 ^ 16" unfolding n_def using unsigned_less [of "hdr_payload_length h"] by simp
  then show ok: "packet_ok p" using p by (simp add: len)
  have hp: "pkt_header p = h"
    using len p by (simp add: LumenPacket_def set_payload_length_def n_def)
  show "header_from_bytes bs = Some (pkt_header p)" using h hp by simp
  have hb: "bs = header_to_bytes h @ drop 10 bs"
    using header_from_bytes_sound [OF h] by (simp add: wire_simps)
  then have t10: "take 10 bs = header_to_bytes h"
    by (metis append_eq_conv_conj length_header_to_bytes LUMEN_HEADER_SIZE_def)
  have body: "take (n + 10) bs = header_to_bytes h @ pkt_payload p"
    using p t10 by (simp add: add.commute [of n] take_add)
  have two: "take (Suc (Suc k)) bs = take k bs @ [bs ! k, bs ! Suc k]" if "Suc k < length bs" for k
    using that by (simp add: take_Suc_conv_app_nth)
  have "take (n + 12) bs = take (n + 10) bs @ [bs ! (n + 10), bs ! (n + 11)]"
    using two [of "n + 10"] len by (simp add: eval_nat_numeral)
  then have "take (n + 12) bs = packet_to_bytes p"
    using body crc etx by (simp add: packet_to_bytes_def calculate_packet_crc_def hp)
  moreover have ts: "total_size p = n + 12"
    by (simp add: total_size_def plen wire_simps)
  ultimately show "bs = packet_to_bytes p @ drop (total_size p) bs"
    by (metis append_take_drop_id)
  show "total_size p \<le> length bs" using len ts by simp
qed

interpretation pkt: byte_codec packet_to_bytes packet_from_bytes packet_ok
proof unfold_locales
  fix a rest assume "packet_ok a"
  then show "packet_from_bytes (packet_to_bytes a @ rest) = Some a" by (rule packet_from_to_bytes)
next
  fix bs a assume "packet_from_bytes bs = Some a"
  then show "packet_ok a \<and> (\<exists>rest. bs = packet_to_bytes a @ rest)"
    using packet_from_bytes_sound by blast
qed

lemma packet_to_bytes_not_Nil [simp]: "packet_to_bytes p \<noteq> []"
  by (simp add: packet_to_bytes_def)

lemma packet_to_bytes_hd [simp]: "packet_to_bytes p ! 0 = LUMEN_STX" "hd (packet_to_bytes p) = LUMEN_STX"
  by (simp_all add: packet_to_bytes_def header_to_bytes_def)

subsection \<open>Error detection\<close>

lemma crc8_update:
  assumes "i < length xs"
  shows "calculate_crc8 (xs[i := b]) = calculate_crc8 xs \<longleftrightarrow> xs ! i = b"
proof -
  have upd: "xs[i := b] = take i xs @ b # drop (Suc i) xs"
    using assms by (rule upd_conv_take_nth_drop)
  have self: "xs = take i xs @ xs ! i # drop (Suc i) xs"
    using assms by (rule id_take_nth_drop)
  have "calculate_crc8 (xs[i := b]) = calculate_crc8 (take i xs @ xs ! i # drop (Suc i) xs)
        \<longleftrightarrow> foldl crc8_byte 0 (take i xs) XOR b = foldl crc8_byte 0 (take i xs) XOR xs ! i"
    unfolding upd calculate_crc8_def by (simp add: foldl_crc8_byte_inj crc8_byte_inj)
  also have "\<dots> \<longleftrightarrow> b = xs ! i"
    by (rule xor_left_cancel)
  finally show ?thesis using self by auto
qed

lemma header_length_bytes:
  assumes "header_from_bytes bs = Some h"
  shows "hdr_payload_length h = be16 (bs ! 8) (bs ! 9)"
  using assms by (auto simp: header_from_bytes_def wire_simps Let_def split: if_splits option.splits)

text \<open>
  The crux of error detection: if a buffer that starts with a corrupted encoding is accepted and
  the two length bytes are intact, the accepted packet has the corrupted bytes as its encoding,
  so its checksum holds for them.
\<close>

lemma corrupted_accepted:
  assumes ok: "packet_ok p" and i: "i < total_size p" "i \<noteq> 8" "i \<noteq> 9"
    and acc: "packet_from_bytes ((packet_to_bytes p)[i := b] @ rest) = Some q"
  shows "packet_to_bytes q = (packet_to_bytes p)[i := b]"
proof -
  let ?bs = "(packet_to_bytes p)[i := b] @ rest"
  note snd = packet_from_bytes_sound [OF acc]
  have big: "10 \<le> total_size p" by (simp add: total_size_def wire_simps)
  have keep: "?bs ! 8 = packet_to_bytes p ! 8" "?bs ! 9 = packet_to_bytes p ! 9"
    using i big by (simp_all add: nth_append)
  have "header_from_bytes (packet_to_bytes p) = Some (pkt_header p)"
    by (simp add: packet_to_bytes_def header_from_to_bytes)
  then have "hdr_payload_length (pkt_header p) = be16 (packet_to_bytes p ! 8) (packet_to_bytes p ! 9)"
    by (rule header_length_bytes)
  also have "\<dots> = hdr_payload_length (pkt_header q)"
    using header_length_bytes [OF snd(3)] keep by simp
  finally have "length (pkt_payload q) = length (pkt_payload p)"
    using ok snd(1) by (simp add: packet_ok_def)
  then have "total_size q = total_size p" by (simp add: total_size_def)
  then show ?thesis
    using snd(2) by (metis append_eq_append_conv length_list_update length_packet_to_bytes)
qed

lemma packet_crc_nth:
  "calculate_crc8 (take (total_size p - 2) (packet_to_bytes p)) = packet_to_bytes p ! (total_size p - 2)"
  by (simp add: packet_to_bytes_def total_size_def calculate_packet_crc_def nth_append)

lemma packet_etx_nth: "packet_to_bytes p ! (total_size p - 1) = LUMEN_ETX"
  by (simp add: packet_to_bytes_def total_size_def nth_append)

lemma corrupted_byte_rejected:
  assumes ok: "packet_ok p" and i: "i < total_size p" "i \<noteq> 8" "i \<noteq> 9"
    and b: "b \<noteq> packet_to_bytes p ! i"
  shows "packet_from_bytes ((packet_to_bytes p)[i := b] @ rest) = None"
proof (rule ccontr)
  let ?e = "packet_to_bytes p" and ?n = "total_size p"
  assume "packet_from_bytes (?e[i := b] @ rest) \<noteq> None"
  then obtain q where "packet_from_bytes (?e[i := b] @ rest) = Some q" by auto
  with ok i have q: "packet_to_bytes q = ?e[i := b]" by (rule corrupted_accepted)
  then have n: "total_size q = ?n" by (metis length_list_update length_packet_to_bytes)
  have big: "12 \<le> ?n" by (simp add: total_size_def wire_simps)
  have crc: "calculate_crc8 (take (?n - 2) (?e[i := b])) = ?e[i := b] ! (?n - 2)"
    using packet_crc_nth [of q] by (simp add: q n)
  have etx: "?e[i := b] ! (?n - 1) = LUMEN_ETX"
    using packet_etx_nth [of q] by (simp add: q n)
  consider "i < ?n - 2" | "i = ?n - 2" | "i = ?n - 1" using i(1) by linarith
  then show False
  proof cases
    case 1
    then have "calculate_crc8 ((take (?n - 2) ?e)[i := b]) = calculate_crc8 (take (?n - 2) ?e)"
      using crc packet_crc_nth [of p] big by (simp add: take_update_swap)
    then have "take (?n - 2) ?e ! i = b" using 1 by (subst (asm) crc8_update) auto
    then show False using 1 b by simp
  next
    case 2
    then show False using crc b big packet_crc_nth [of p] by simp
  next
    case 3
    then show False using etx b big packet_etx_nth [of p] by simp
  qed
qed

text \<open>Damage behind the type and priority bytes leaves a header with the announced length.\<close>

lemma damaged_header:
  assumes "i < total_size p" "3 \<le> i" "i \<noteq> 8" "i \<noteq> 9"
  shows "\<exists>h. header_from_bytes ((packet_to_bytes p)[i := b] @ rest) = Some h
             \<and> hdr_payload_length h = hdr_payload_length (pkt_header p)"
proof -
  let ?d = "(packet_to_bytes p)[i := b] @ rest"
  have big: "10 \<le> total_size p" by (simp add: total_size_def wire_simps)
  have keep: "?d ! j = packet_to_bytes p ! j" if "j \<in> {0, 1, 2, 8, 9}" for j
    using that assms big by (auto simp: nth_append)
  have hdr: "header_from_bytes (packet_to_bytes p) = Some (pkt_header p)"
    by (simp add: packet_to_bytes_def header_from_to_bytes)
  have len: "\<not> length ?d < 10" "\<not> length (packet_to_bytes p) < 10" using big by simp_all
  from hdr have len_p: "hdr_payload_length (pkt_header p) = be16 (packet_to_bytes p ! 8) (packet_to_bytes p ! 9)"
    by (rule header_length_bytes)
  have "\<exists>h. header_from_bytes ?d = Some h"
    using hdr len unfolding header_from_bytes_def
    by (auto simp: wire_simps Let_def keep [simplified] split: if_splits option.splits)
  then obtain h where h: "header_from_bytes ?d = Some h" by auto
  then have "hdr_payload_length h = be16 (?d ! 8) (?d ! 9)" by (rule header_length_bytes)
  then show ?thesis using h len_p keep by simp
qed

subsection \<open>Properties of the packet\<close>

text \<open>C22: \<open>LumenPacket::from_bytes\<close> accepts a buffer exactly if it starts with the bytes
  \<open>to_bytes\<close> produces for the packet it returns, whatever follows; in particular parsing inverts
  printing, and there is only one encoding of a packet.\<close>

theorem packet_parse_print:
  "packet_from_bytes bs = Some p \<longleftrightarrow> packet_ok p \<and> (\<exists>rest. bs = packet_to_bytes p @ rest)"
  by (rule pkt.decode_iff)

text \<open>C10: a packet in which any one byte was changed, the two length bytes apart, is never accepted
  by \<open>LumenPacket::from_bytes\<close>, whatever bytes follow it in the buffer.\<close>

theorem single_byte_damage_rejected:
  assumes "packet_ok p" and "i < total_size p" and "i \<notin> {LUMEN_LEN_POS, LUMEN_LEN_POS + 1}"
    and "b \<noteq> packet_to_bytes p ! i"
  shows "packet_from_bytes ((packet_to_bytes p)[i := b] @ rest) = None"
  using assms by (intro corrupted_byte_rejected) (auto simp: wire_simps)

definition sample_packet :: lumen_packet where
  "sample_packet =
     LumenPacket \<lparr>hdr_type = DATA, hdr_priority = LOW, hdr_sequence = 7, hdr_timestamp = 0x01020304,
                  hdr_payload_length = 0\<rparr> [0x41, 0x02]"

lemma sample_packet_ok [simp]: "packet_ok sample_packet" "total_size sample_packet = 14"
  by (simp_all add: sample_packet_def total_size_def wire_simps)

theorem single_byte_damage_rejected_witness:
  "packet_from_bytes ((packet_to_bytes sample_packet)[10 := 0x42] @ [2]) = None"
proof -
  have "packet_to_bytes sample_packet ! 10 = 0x41"
    by (simp add: packet_to_bytes_def nth_append sample_packet_def wire_simps)
  then show ?thesis
    by (intro single_byte_damage_rejected) (simp_all add: wire_simps)
qed

text \<open>The constructor stores the payload's length in the header's 16-bit field, so \<open>total_size\<close> is
  the number of bytes \<open>to_bytes\<close> writes, and the self-check \<open>is_valid\<close> succeeds on every packet.\<close>

lemma packet_size_and_self_check:
  "length (packet_to_bytes (LumenPacket h payload)) = total_size (LumenPacket h payload)
   \<and> unat (hdr_payload_length (pkt_header (LumenPacket h payload))) = length payload mod 65536
   \<and> is_valid (LumenPacket h payload)"
proof -
  let ?p = "LumenPacket h payload"
  have "unat (hdr_payload_length (pkt_header ?p)) = length payload mod 65536"
    by (simp add: LumenPacket_def set_payload_length_def unat_of_nat)
  moreover have "is_valid ?p"
    by (simp add: is_valid_def Let_def packet_to_bytes_def calculate_packet_crc_def nth_append
        total_size_def wire_simps)
  ultimately show ?thesis by simp
qed

end
