(* ===== verification/Lumen_External.thy ===== *)
theory Lumen_External
  imports Lumen_Prelude Complex_Main
begin

text \<open>
  What the sources take from outside the repository. UDP endpoints and timers of Boost.Asio are
  plain data here (every socket of the program is created with \<open>udp::v4()\<close>, so an address is a
  32-bit word and the unspecified address is 0). Functions of third-party or locale-dependent
  libraries whose code is not in the repository (the text of an address, JSON parsing and
  printing, calendar formatting, decimal conversion of doubles, name resolution) are the fields of
  the record \<open>lib\<close>, which every definition that needs one takes as its first argument. A C++
  \<open>double\<close> is modelled by an exact real number.
\<close>

subsection \<open>Endpoints\<close>

record endpoint =
  ep_address :: u32
  ep_port :: u16

definition is_unspecified :: "endpoint \<Rightarrow> bool" where
  "is_unspecified ep \<longleftrightarrow> ep_address ep = 0"

text \<open>The default-constructed \<open>udp::endpoint()\<close>.\<close>

definition no_endpoint :: endpoint where
  "no_endpoint = \<lparr>ep_address = 0, ep_port = 0\<rparr>"

lemma is_unspecified_no_endpoint [simp]: "is_unspecified no_endpoint"
  by (simp add: is_unspecified_def no_endpoint_def)

subsection \<open>Timers\<close>

text \<open>
  A \<open>boost::asio::steady_timer\<close> as the program sees it: the expiry it asked for and whether a
  wait is outstanding. Setting an expiry aborts an outstanding wait, as does \<open>cancel\<close>.
\<close>

record timer =
  tm_expiry :: time_point
  tm_waiting :: bool

definition expires_at :: "time_point \<Rightarrow> timer \<Rightarrow> timer" where
  "expires_at t tm = tm\<lparr>tm_expiry := t, tm_waiting := False\<rparr>"

definition async_wait :: "timer \<Rightarrow> timer" where
  "async_wait tm = tm\<lparr>tm_waiting := True\<rparr>"

definition cancel :: "timer \<Rightarrow> timer" where
  "cancel tm = tm\<lparr>tm_waiting := False\<rparr>"

definition new_timer :: timer where
  "new_timer = \<lparr>tm_expiry = 0, tm_waiting = False\<rparr>"

lemma timer_simps [simp]:
  "tm_expiry (expires_at t tm) = t" "tm_waiting (expires_at t tm) = False"
  "tm_expiry (async_wait tm) = tm_expiry tm" "tm_waiting (async_wait tm) = True"
  "tm_expiry (cancel tm) = tm_expiry tm" "tm_waiting (cancel tm) = False"
  by (simp_all add: expires_at_def async_wait_def cancel_def)

subsection \<open>JSON values\<close>

datatype json =
    JNull
  | JBool bool
  | JNumber real
  | JString string
  | JArray "json list"
  | JObject "(string, json) smap"

text \<open>An object built from a brace-enclosed list of pairs; the members are a \<open>std::map\<close>.\<close>

definition json_object :: "(string \<times> json) list \<Rightarrow> json" where
  "json_object kvs = JObject (foldl (\<lambda>m (k, v). smap_assign k v m) [] kvs)"

text \<open>\<open>j.contains(k)\<close> with \<open>j[k]\<close>: only an object has members.\<close>

definition json_member :: "json \<Rightarrow> string \<Rightarrow> json option" where
  "json_member j k = (case j of JObject m \<Rightarrow> map_of m k | _ \<Rightarrow> None)"

text \<open>\<open>j.contains(k) && j[k].is_string()\<close> with the string.\<close>

definition json_string_member :: "json \<Rightarrow> string \<Rightarrow> string option" where
  "json_string_member j k = (case json_member j k of Some (JString s) \<Rightarrow> Some s | _ \<Rightarrow> None)"

lemma map_of_foldl_assign:
  "map_of (foldl (\<lambda>m (k, v). smap_assign k v m) m kvs) = map_of m ++ map_of (rev kvs)"
  by (induction kvs arbitrary: m) (auto simp: map_add_def fun_eq_iff split: option.splits)

lemma json_member_object: "json_member (json_object kvs) k = map_of (rev kvs) k"
  by (simp add: json_member_def json_object_def map_of_foldl_assign)

subsection \<open>The external library\<close>

record lib =
  \<comment> \<open>\<open>boost::asio::ip::address::to_string\<close>\<close>
  addr_to_string :: "u32 \<Rightarrow> string"
  \<comment> \<open>\<open>nlohmann::json::parse\<close> (\<open>None\<close>: it throws \<open>parse_error\<close>) and \<open>dump\<close> (\<open>None\<close>: it throws)\<close>
  json_parse :: "string \<Rightarrow> json option"
  json_dump :: "json \<Rightarrow> string option"
  \<comment> \<open>\<open>dump(4)\<close>, the indented form\<close>
  json_dump_indented :: "json \<Rightarrow> string option"
  \<comment> \<open>\<open>std::format\<close> of a time point with \<open>%FT%T%z\<close>; \<open>std::chrono::parse\<close> with a format\<close>
  chrono_format :: "time_point \<Rightarrow> string option"
  chrono_parse :: "string \<Rightarrow> string \<Rightarrow> time_point option"
  \<comment> \<open>\<open>std::fixed << std::setprecision(6)\<close> of a double; \<open>std::stod\<close> (\<open>None\<close>: it throws)\<close>
  fixed6 :: "real \<Rightarrow> string"
  stod :: "string \<Rightarrow> real option"
  \<comment> \<open>\<open>udp::resolver::resolve\<close> of a host and a service (\<open>None\<close>: it throws)\<close>
  resolve :: "string \<Rightarrow> string \<Rightarrow> endpoint list option"
  \<comment> \<open>\<open>boost::asio::ip::make_address_v4\<close> (\<open>None\<close>: the error code is set)\<close>
  make_address_v4 :: "string \<Rightarrow> u32 option"

subsection \<open>Endpoint keys\<close>

text \<open>Decimal output of an unsigned number on a stream.\<close>

fun decimal :: "nat \<Rightarrow> string" where
  "decimal n = (if n < 10 then [char_of (48 + n)] else decimal (n div 10) @ [char_of (48 + n mod 10)])"

declare decimal.simps [simp del]

text \<open>
  \<open>get_endpoint_key\<close>: the string \<open>address:port\<close> that indexes the per-peer tables. The function is
  defined twice in the sources, in \<open>reliability_manager.cpp\<close> and in \<open>lumen_protocol.cpp\<close>.
\<close>

definition get_endpoint_key :: "lib \<Rightarrow> endpoint \<Rightarrow> string" where
  "get_endpoint_key L ep =
     addr_to_string L (ep_address ep) @ '':'' @ decimal (unat (ep_port ep))"

text \<open>What the tables rely on: the text of an IPv4 address identifies it and has no colon.\<close>

definition addr_text_ok :: "lib \<Rightarrow> bool" where
  "addr_text_ok L \<longleftrightarrow>
     inj (addr_to_string L) \<and> (\<forall>a. CHR '':'' \<notin> set (addr_to_string L a))"

definition decimal_value :: "string \<Rightarrow> nat" where
  "decimal_value s = foldl (\<lambda>a c. 10 * a + (of_char c - 48)) 0 s"

lemma decimal_value_decimal: "decimal_value (decimal n) = n"
proof (induction n rule: decimal.induct)
  case (1 n)
  have digit: "(of_char (char_of (48 + k) :: char) :: nat) = 48 + k" if "k < 10" for k :: nat
    using that by (simp add: of_char_of)
  show ?case
  proof (cases "n < 10")
    case True
    then show ?thesis
      using digit [of n] by (simp add: decimal.simps [of n] decimal_value_def)
  next
    case False
    then have "decimal_value (decimal (n div 10)) = n div 10" using 1 by simp
    then show ?thesis
      using False digit [of "n mod 10"]
      by (simp add: decimal.simps [of n] decimal_value_def)
  qed
qed

lemma decimal_inj: "decimal m = decimal n \<longleftrightarrow> m = n"
  by (metis decimal_value_decimal)

lemma split_at_colon:
  assumes "CHR '':'' \<notin> set xs" "CHR '':'' \<notin> set xs'"
    and "xs @ '':'' @ ys = xs' @ '':'' @ ys'"
  shows "xs = xs' \<and> ys = ys'"
  using assms by (induction xs xs' rule: list_induct2') auto

lemma get_endpoint_key_inj:
  assumes "addr_text_ok L"
  shows "get_endpoint_key L a = get_endpoint_key L b \<longleftrightarrow> a = b"
proof
  assume "get_endpoint_key L a = get_endpoint_key L b"
  then have "addr_to_string L (ep_address a) = addr_to_string L (ep_address b)
      \<and> decimal (unat (ep_port a)) = decimal (unat (ep_port b))"
    using assms by (intro split_at_colon) (auto simp: addr_text_ok_def get_endpoint_key_def)
  then show "a = b"
    using assms by (auto simp: addr_text_ok_def decimal_inj word_unat_eq_iff dest: injD)
qed simp

text \<open>
  A concrete library for the closed examples: an address is printed as one decimal number, JSON
  printing and parsing are given by two arguments, and the other functions have fixed results.
\<close>

definition sample_lib :: "(string \<Rightarrow> json option) \<Rightarrow> (json \<Rightarrow> string option) \<Rightarrow> lib" where
  "sample_lib parse dump =
     \<lparr>addr_to_string = (\<lambda>a. decimal (unat a)), json_parse = parse, json_dump = dump, json_dump_indented = dump,
      chrono_format = (\<lambda>_. Some ''1970-01-01T00:00:00+0000''), chrono_parse = (\<lambda>_ _. Some 0),
      fixed6 = (\<lambda>_. ''0.000000''), stod = (\<lambda>_. Some 0), resolve = (\<lambda>_ _. None),
      make_address_v4 = (\<lambda>_. None)\<rparr>"

lemma decimal_no_colon: "CHR '':'' \<notin> set (decimal n)"
proof (induction n rule: decimal.induct)
  case (1 n)
  have digit: "char_of (48 + k) \<noteq> CHR '':''" if "k < 10" for k :: nat
  proof
    assume "char_of (48 + k) = CHR '':''"
    then have "(of_char (char_of (48 + k) :: char) :: nat) = of_char CHR '':''" by simp
    then show False using that by (simp add: of_char_of)
  qed
  show ?case
    using 1 digit [of n] digit [of "n mod 10"] by (subst decimal.simps) auto
qed

lemma addr_text_ok_sample [simp]: "addr_text_ok (sample_lib parse dump)"
  by (auto simp: addr_text_ok_def sample_lib_def inj_def decimal_inj word_unat_eq_iff decimal_no_colon)

end
