(* ===== verification/Messages.thy ===== *)
theory Messages
  imports Lumen_Header Lumen_External
begin

text \<open>
  The application messages: the abstract class \<open>Message\<close> and its four subclasses
  (\<open>include/common/message.hpp\<close>, \<open>basic_message.hpp\<close>, \<open>command_message.hpp\<close>,
  \<open>telemetry_message.hpp\<close>, \<open>status_message.hpp\<close>), the factory \<open>Message::deserialise\<close>
  (\<open>src/common/message.cpp\<close>) and the timestamp conversion of \<open>src/common/timepoint_utils.cpp\<close>.
  The lemmas show the round trip through JSON and which inputs the factory rejects.
\<close>

datatype StatusLevel = OK | WARNING | ERROR | CRITICAL

text \<open>
  One constructor per subclass; every message has a sender and the time point of its creation or,
  when it was parsed, of its \<open>timestamp\<close> member.
\<close>

datatype message =
    BasicMessage (msg_content: string) (msg_sender: string) (msg_timestamp: time_point)
  | CommandMessage (msg_command: string) (msg_params: string) (msg_sender: string)
      (msg_timestamp: time_point)
  | TelemetryMessage (msg_readings: "(string, real) smap") (msg_sender: string)
      (msg_timestamp: time_point)
  | StatusMessage (msg_level: StatusLevel) (msg_description: string) (msg_sender: string)
      (msg_timestamp: time_point)

subsection \<open>Timestamps\<close>

definition tp_to_string :: "lib \<Rightarrow> time_point \<Rightarrow> string" where
  "tp_to_string L tp =
     (case chrono_format L tp of Some s \<Rightarrow> s | None \<Rightarrow> ''TimeFormatError'')"

text \<open>Two formats are tried; if neither fits, the current time is used and nothing is thrown.\<close>

definition string_to_tp :: "lib \<Rightarrow> time_point \<Rightarrow> string \<Rightarrow> time_point" where
  "string_to_tp L now time_str =
     (case chrono_parse L ''%FT%T%z'' time_str of
        Some result \<Rightarrow> result
      | None \<Rightarrow>
          (case chrono_parse L ''%FT%T%Z'' time_str of
             Some result \<Rightarrow> result
           | None \<Rightarrow> now))"

subsection \<open>The virtual methods\<close>

fun get_type :: "message \<Rightarrow> string" where
  "get_type (BasicMessage _ _ _) = ''BasicMessage''"
| "get_type (CommandMessage _ _ _ _) = ''CommandMessage''"
| "get_type (TelemetryMessage _ _ _) = ''TelemetryMessage''"
| "get_type (StatusMessage _ _ _ _) = ''StatusMessage''"

fun get_lumen_priority :: "message \<Rightarrow> Priority" where
  "get_lumen_priority (BasicMessage _ _ _) = MEDIUM"
| "get_lumen_priority (CommandMessage _ _ _ _) = HIGH"
| "get_lumen_priority (TelemetryMessage _ _ _) = MEDIUM"
| "get_lumen_priority (StatusMessage level _ _ _) =
     (case level of OK \<Rightarrow> LOW | WARNING \<Rightarrow> MEDIUM | ERROR \<Rightarrow> HIGH | CRITICAL \<Rightarrow> HIGH)"

fun get_lumen_type :: "message \<Rightarrow> MessageType" where
  "get_lumen_type (BasicMessage _ _ _) = DATA"
| "get_lumen_type (CommandMessage _ _ _ _) = CMD"
| "get_lumen_type (TelemetryMessage _ _ _) = DATA"
| "get_lumen_type (StatusMessage _ _ _ _) = STATUS"

fun level_str :: "StatusLevel \<Rightarrow> string" where
  "level_str OK = ''OK''"
| "level_str WARNING = ''WARNING''"
| "level_str ERROR = ''ERROR''"
| "level_str CRITICAL = ''CRITICAL''"

text \<open>The JSON value each \<open>serialise\<close> method builds, and the string it dumps.\<close>

fun to_json :: "lib \<Rightarrow> message \<Rightarrow> json" where
  "to_json L (BasicMessage content sender ts) =
     json_object [(''msg_type'', JString ''BasicMessage''), (''content'', JString content),
                  (''sender'', JString sender), (''timestamp'', JString (tp_to_string L ts))]"
| "to_json L (CommandMessage command params sender ts) =
     json_object [(''msg_type'', JString ''CommandMessage''), (''command'', JString command),
                  (''params'', JString params), (''sender'', JString sender),
                  (''timestamp'', JString (tp_to_string L ts))]"
| "to_json L (TelemetryMessage readings sender ts) =
     json_object [(''msg_type'', JString ''TelemetryMessage''),
                  (''readings'', JObject (map (\<lambda>(k, v). (k, JNumber v)) readings)),
                  (''sender'', JString sender), (''timestamp'', JString (tp_to_string L ts))]"
| "to_json L (StatusMessage level description sender ts) =
     json_object [(''msg_type'', JString ''StatusMessage''), (''level'', JString (level_str level)),
                  (''description'', JString description), (''sender'', JString sender),
                  (''timestamp'', JString (tp_to_string L ts))]"

definition serialise :: "lib \<Rightarrow> message \<Rightarrow> exn + string" where
  "serialise L m =
     (case json_dump L (to_json L m) of
        Some s \<Rightarrow> Inr s
      | None \<Rightarrow> Inl (json_error ''dump''))"

subsection \<open>Parsing\<close>

text \<open>The common tail of the four \<open>from_json\<close> methods: the optional timestamp.\<close>

definition json_timestamp :: "lib \<Rightarrow> time_point \<Rightarrow> json \<Rightarrow> time_point" where
  "json_timestamp L now j =
     (case json_string_member j ''timestamp'' of
        Some timestamp_str \<Rightarrow> string_to_tp L now timestamp_str
      | None \<Rightarrow> now)"

definition basic_from_json :: "lib \<Rightarrow> time_point \<Rightarrow> json \<Rightarrow> exn + message" where
  "basic_from_json L now j =
     (case json_string_member j ''content'' of
        None \<Rightarrow> Inl (runtime_error ''Invalid BasicMessage JSON: missing or invalid 'content' field.'')
      | Some content \<Rightarrow>
     (case json_string_member j ''sender'' of
        None \<Rightarrow> Inl (runtime_error ''Invalid BasicMessage JSON: missing or invalid 'sender' field.'')
      | Some sender \<Rightarrow> Inr (BasicMessage content sender (json_timestamp L now j))))"

definition command_from_json :: "lib \<Rightarrow> time_point \<Rightarrow> json \<Rightarrow> exn + message" where
  "command_from_json L now j =
     (case json_string_member j ''command'' of
        None \<Rightarrow> Inl (runtime_error ''Invalid CommandMessage JSON: missing or invalid 'command' field.'')
      | Some command \<Rightarrow>
     (case json_string_member j ''params'' of
        None \<Rightarrow> Inl (runtime_error ''Invalid CommandMessage JSON: missing or invalid 'params' field.'')
      | Some params \<Rightarrow>
     (case json_string_member j ''sender'' of
        None \<Rightarrow> Inl (runtime_error ''Invalid CommandMessage JSON: missing or invalid 'sender' field.'')
      | Some sender \<Rightarrow> Inr (CommandMessage command params sender (json_timestamp L now j)))))"

text \<open>\<open>get<std::map<std::string, double>>\<close> throws a JSON type error on a member that is no number.\<close>

fun readings_of :: "(string, json) smap \<Rightarrow> exn + (string, real) smap" where
  "readings_of [] = Inr []"
| "readings_of ((k, JNumber v) # m) =
     (case readings_of m of Inl e \<Rightarrow> Inl e | Inr r \<Rightarrow> Inr (smap_assign k v r))"
| "readings_of ((k, _) # m) = Inl (json_error ''type must be number'')"

definition telemetry_from_json :: "lib \<Rightarrow> time_point \<Rightarrow> json \<Rightarrow> exn + message" where
  "telemetry_from_json L now j =
     (case json_member j ''readings'' of
        Some (JObject m) \<Rightarrow>
          (case json_string_member j ''sender'' of
             None \<Rightarrow> Inl (runtime_error
               ''Invalid TelemetryMessage JSON: missing or invalid 'sender' field.'')
           | Some sender \<Rightarrow>
               (case readings_of m of
                  Inl e \<Rightarrow> Inl e
                | Inr readings \<Rightarrow> Inr (TelemetryMessage readings sender (json_timestamp L now j))))
      | _ \<Rightarrow> Inl (runtime_error
          ''Invalid TelemetryMessage JSON: missing or invalid 'readings' field (must be an object).''))"

definition level_of_str :: "string \<Rightarrow> StatusLevel option" where
  "level_of_str s =
     (if s = ''OK'' then Some OK else if s = ''WARNING'' then Some WARNING
      else if s = ''ERROR'' then Some ERROR else if s = ''CRITICAL'' then Some CRITICAL
      else None)"

definition status_from_json :: "lib \<Rightarrow> time_point \<Rightarrow> json \<Rightarrow> exn + message" where
  "status_from_json L now j =
     (case json_string_member j ''level'' of
        None \<Rightarrow> Inl (runtime_error ''Invalid StatusMessage JSON: missing or invalid 'level' field.'')
      | Some level_string \<Rightarrow>
     (case json_string_member j ''description'' of
        None \<Rightarrow> Inl (runtime_error
          ''Invalid StatusMessage JSON: missing or invalid 'description' field.'')
      | Some description \<Rightarrow>
     (case json_string_member j ''sender'' of
        None \<Rightarrow> Inl (runtime_error ''Invalid StatusMessage JSON: missing or invalid 'sender' field.'')
      | Some sender \<Rightarrow>
     (case level_of_str level_string of
        None \<Rightarrow> Inl (runtime_error (''Invalid status level string in JSON: '' @ level_string))
      | Some level \<Rightarrow> Inr (StatusMessage level description sender (json_timestamp L now j))))))"

definition is_valid_json :: "lib \<Rightarrow> string \<Rightarrow> bool" where
  "is_valid_json L json_str = (case json_parse L json_str of Some _ \<Rightarrow> True | None \<Rightarrow> False)"

definition pretty_print :: "lib \<Rightarrow> string \<Rightarrow> exn + string" where
  "pretty_print L json_str =
     (case json_parse L json_str of
        None \<Rightarrow> Inl (runtime_error ''Failed to parse JSON for pretty printing: '')
      | Some j \<Rightarrow>
          (case json_dump_indented L j of
             Some s \<Rightarrow> Inr s
           | None \<Rightarrow> Inl (json_error ''dump'')))"

text \<open>
  The body of the factory inside its \<open>try\<close> (the X-macro expands to the chain of comparisons in the
  order of \<open>MESSAGE_TYPES_LIST\<close>), and the factory: a \<open>runtime_error\<close> passes, any other exception is
  turned into one.
\<close>

definition from_json :: "lib \<Rightarrow> time_point \<Rightarrow> json \<Rightarrow> exn + message" where
  "from_json L now j =
     (case json_string_member j ''msg_type'' of
        None \<Rightarrow> Inl (runtime_error
          ''Invalid message JSON: missing or invalid 'msg_type' field (must be a string)'')
      | Some msg_type \<Rightarrow>
     (case json_string_member j ''sender'' of
        None \<Rightarrow> Inl (runtime_error
          ''Invalid message JSON: missing or invalid 'sender' field (must be a string)'')
      | Some _ \<Rightarrow>
          if msg_type = ''BasicMessage'' then basic_from_json L now j
          else if msg_type = ''CommandMessage'' then command_from_json L now j
          else if msg_type = ''TelemetryMessage'' then telemetry_from_json L now j
          else if msg_type = ''StatusMessage'' then status_from_json L now j
          else Inl (runtime_error
            (''Unknown message type encountered during deserialization: '' @ msg_type))))"

definition deserialise :: "lib \<Rightarrow> time_point \<Rightarrow> string \<Rightarrow> exn + message" where
  "deserialise L now json_str =
     (case json_parse L json_str of
        None \<Rightarrow> Inl (runtime_error ''Failed to parse message JSON: '')
      | Some j \<Rightarrow>
          (case from_json L now j of
             Inr m \<Rightarrow> Inr m
           | Inl (runtime_error w) \<Rightarrow> Inl (runtime_error w)
           | Inl (json_error w) \<Rightarrow> Inl (runtime_error
               (''An unexpected error occurred during message deserialization: '' @ w))))"

subsection \<open>Byte vectors of strings\<close>

definition string_to_binary :: "string \<Rightarrow> bytes" where
  "string_to_binary str = map byte_of_char str"

definition binary_to_string :: "bytes \<Rightarrow> string" where
  "binary_to_string data = map char_of_byte data"

lemma binary_to_string_to_binary [simp]: "binary_to_string (string_to_binary s) = s"
  by (simp add: binary_to_string_def string_to_binary_def o_def)

lemma string_to_binary_to_string [simp]: "string_to_binary (binary_to_string b) = b"
  by (simp add: binary_to_string_def string_to_binary_def o_def)

subsection \<open>Round trip\<close>

text \<open>A telemetry map is a \<open>std::map\<close>, so its keys are sorted.\<close>

definition message_ok :: "message \<Rightarrow> bool" where
  "message_ok m = (case m of TelemetryMessage readings _ _ \<Rightarrow> smap_inv readings | _ \<Rightarrow> True)"

lemma level_of_str_inverse [simp]: "level_of_str (level_str l) = Some l"
  by (cases l) (simp_all add: level_of_str_def)

lemma smap_assign_below:
  "smap_inv ((k, v) # m) \<Longrightarrow> smap_assign k v m = (k, v) # m"
  by (cases m) (auto simp: smap_inv_def)

lemma readings_of_numbers:
  "smap_inv r \<Longrightarrow> readings_of (map (\<lambda>(k, v). (k, JNumber v)) r) = Inr r"
proof (induction r)
  case (Cons kv r)
  obtain k v where kv: "kv = (k, v)" by fastforce
  have "smap_inv r" using Cons.prems by (simp add: smap_inv_def)
  then show ?case
    using Cons smap_assign_below [of k v r] by (simp add: kv)
qed simp

lemma json_string_member_object:
  "json_string_member (json_object kvs) k =
     (case map_of (rev kvs) k of Some (JString s) \<Rightarrow> Some s | _ \<Rightarrow> None)"
  by (simp add: json_string_member_def json_member_object)

lemmas from_json_defs =
  from_json_def basic_from_json_def command_from_json_def telemetry_from_json_def
  status_from_json_def json_timestamp_def json_string_member_object json_member_object

lemma from_json_to_json:
  assumes "message_ok m" and "string_to_tp L now (tp_to_string L (msg_timestamp m)) = msg_timestamp m"
  shows "from_json L now (to_json L m) = Inr m"
  using assms by (cases m) (simp_all add: from_json_defs message_ok_def readings_of_numbers)

text \<open>The factory throws nothing but \<open>std::runtime_error\<close>.\<close>

lemma deserialise_errors: "deserialise L now s = Inl e \<Longrightarrow> \<exists>w. e = runtime_error w"
  by (auto simp: deserialise_def split: option.splits sum.splits exn.splits)

text \<open>What the factory accepts is an object with the sender's string and the type's tag.\<close>

lemma from_json_sound:
  assumes "from_json L now j = Inr m"
  shows "json_string_member j ''sender'' = Some (msg_sender m)"
    and "json_string_member j ''msg_type'' = Some (get_type m)"
  using assms
  by (auto simp: from_json_def basic_from_json_def command_from_json_def telemetry_from_json_def
      status_from_json_def split: option.splits if_splits sum.splits json.splits)

lemma deserialise_sound:
  assumes "deserialise L now s = Inr m"
  shows "\<exists>j. json_parse L s = Some j \<and> from_json L now j = Inr m"
  using assms by (auto simp: deserialise_def split: option.splits sum.splits exn.splits)

subsection \<open>Properties of the messages\<close>

text \<open>C21: a message that was serialised is read back unchanged by \<open>Message::deserialise\<close>: all four
  kinds, every field, the readings and the timestamp included. The JSON library has to parse this
  string to the value that was printed, and the time text of this timestamp has to denote it.\<close>

theorem message_roundtrip:
  assumes "serialise L m = Inr json_str" and "json_parse L json_str = Some (to_json L m)"
    and "message_ok m" and "string_to_tp L now (tp_to_string L (msg_timestamp m)) = msg_timestamp m"
  shows "deserialise L now json_str = Inr m"
  using assms from_json_to_json [of m L now] by (simp add: deserialise_def)

definition sample_message :: message where
  "sample_message = StatusMessage WARNING ''battery'' ''rover'' 0"

theorem message_roundtrip_witness:
  "deserialise (sample_lib (\<lambda>s. Some (to_json (sample_lib (\<lambda>_. None) (\<lambda>_. None)) sample_message))
       (\<lambda>_. Some ''x'')) 5 ''x'' = Inr sample_message"
proof -
  let ?L = "sample_lib (\<lambda>s. Some (to_json (sample_lib (\<lambda>_. None) (\<lambda>_. None)) sample_message))
       (\<lambda>_. Some ''x'')"
  have "to_json ?L sample_message = to_json (sample_lib (\<lambda>_. None) (\<lambda>_. None)) sample_message"
    by (simp add: sample_message_def tp_to_string_def sample_lib_def)
  then show ?thesis
    by (intro message_roundtrip [where L = ?L])
      (simp_all add: serialise_def message_ok_def string_to_tp_def, simp_all add: sample_lib_def sample_message_def)
qed

text \<open>C29: whatever \<open>Message::deserialise\<close> accepts is a JSON object whose \<open>msg_type\<close> is the type of the
  message and whose \<open>sender\<close> is its sender, and what it rejects it rejects with a
  \<open>std::runtime_error\<close>, never with an exception of the JSON library.\<close>

theorem deserialise_accepts_and_rejects:
  "case deserialise L now json_str of
     Inr m \<Rightarrow> (\<exists>j. json_parse L json_str = Some j
               \<and> json_string_member j ''msg_type'' = Some (get_type m)
               \<and> json_string_member j ''sender'' = Some (msg_sender m))
   | Inl e \<Rightarrow> (\<exists>w. e = runtime_error w)"
proof (cases "deserialise L now json_str")
  case (Inl e)
  then show ?thesis using deserialise_errors by auto
next
  case (Inr m)
  then obtain j where "json_parse L json_str = Some j" "from_json L now j = Inr m"
    using deserialise_sound by blast
  then show ?thesis using Inr from_json_sound by auto
qed

end
