(* ===== verification/Udp_Transport.thy ===== *)
theory Udp_Transport
  imports Messages
begin

text \<open>
  The transport layer: \<open>UdpServer\<close> (\<open>src/base/udp_server.cpp\<close>) and \<open>UdpClient\<close>
  (\<open>src/rover/udp_client.cpp\<close>). A socket is represented by what the program does with it: whether
  it is open, whether an asynchronous receive is outstanding, and the datagrams handed to
  \<open>async_send_to\<close>, in order. The record \<open>net\<close> is the bottom of a node: the two clock readings
  of the running handler and the node's transport object (the pointers \<open>server_\<close> and \<open>client_\<close> that
  the layers above share; \<open>None\<close> is the null pointer).
\<close>

type_synonym datagram = "bytes \<times> endpoint"

definition CLIENT_SOCK_BUF_SIZE :: nat where "CLIENT_SOCK_BUF_SIZE = 1024"
definition SERVER_SOCK_BUF_SIZE :: nat where "SERVER_SOCK_BUF_SIZE = 1024"
definition CLIENT_RETRY_DELAY :: duration where "CLIENT_RETRY_DELAY = ms 4000"

record udp_server =
  srv_running :: bool
  srv_open :: bool
  srv_receiving :: bool
  srv_callback :: bool
  srv_sender :: endpoint
  srv_out :: "datagram list"

record udp_client =
  cl_running :: bool
  cl_open :: bool
  cl_receiving :: bool
  cl_callback :: bool
  cl_base :: endpoint
  cl_sender :: endpoint
  cl_retry_timer :: timer
  cl_out :: "datagram list"

record net =
  steady_now :: time_point
  system_now :: time_point
  server :: "udp_server option"
  client :: "udp_client option"

text \<open>
  How an asynchronous receive completes. \<open>Received\<close> carries the datagram as it was sent; the socket
  copies as much of it as the receive buffer holds and discards the rest.
\<close>

datatype receive_result = Received bytes endpoint | OperationAborted | ReceiveError

subsection \<open>UdpServer\<close>

definition UdpServer :: udp_server where
  "UdpServer = \<lparr>srv_running = False, srv_open = True, srv_receiving = False, srv_callback = False,
     srv_sender = no_endpoint, srv_out = []\<rparr>"

definition srv_receive_data :: "udp_server \<Rightarrow> udp_server" where
  "srv_receive_data s = (if \<not> srv_running s then s else s\<lparr>srv_receiving := True\<rparr>)"

definition srv_start :: "udp_server \<Rightarrow> udp_server" where
  "srv_start s = (if srv_running s then s else srv_receive_data (s\<lparr>srv_running := True\<rparr>))"

definition srv_stop :: "udp_server \<Rightarrow> udp_server" where
  "srv_stop s = (s\<lparr>srv_running := False\<rparr>)\<lparr>srv_open := False\<rparr>"

definition srv_set_receive_callback :: "udp_server \<Rightarrow> udp_server" where
  "srv_set_receive_callback s = s\<lparr>srv_callback := True\<rparr>"

definition srv_send_data :: "bytes \<Rightarrow> endpoint \<Rightarrow> udp_server \<Rightarrow> udp_server" where
  "srv_send_data data recipient s =
     (if \<not> srv_running s then s
      else if is_unspecified recipient \<or> ep_port recipient = 0 then s
      else s\<lparr>srv_out := srv_out s @ [(data, recipient)]\<rparr>)"

definition srv_get_sender_endpoint :: "udp_server \<Rightarrow> endpoint" where
  "srv_get_sender_endpoint s = srv_sender s"

text \<open>
  The completion handler of \<open>async_receive_from\<close>. The receive callback works on the whole node; it is
  called only if one was set, and the next receive is started if the server still runs after it.
\<close>

definition srv_handle_receive ::
  "(bytes \<Rightarrow> endpoint \<Rightarrow> 'a net_scheme \<Rightarrow> 'a net_scheme) \<Rightarrow> receive_result \<Rightarrow>
   'a net_scheme \<Rightarrow> 'a net_scheme" where
  "srv_handle_receive receive_callback r s =
     (case server s of
        None \<Rightarrow> s
      | Some srv \<Rightarrow>
          (case r of
             Received data from \<Rightarrow>
               let s0 = s\<lparr>server := Some (srv\<lparr>srv_receiving := False, srv_sender := from\<rparr>)\<rparr>
               in if srv_running srv then
                    let s1 = (if srv_callback srv then receive_callback (take SERVER_SOCK_BUF_SIZE data) from s0 else s0)
                    in s1\<lparr>server := map_option srv_receive_data (server s1)\<rparr>
                  else s0
           | OperationAborted \<Rightarrow> s\<lparr>server := Some (srv\<lparr>srv_receiving := False\<rparr>)\<rparr>
           | ReceiveError \<Rightarrow>
               let s0 = srv\<lparr>srv_receiving := False\<rparr>
               in s\<lparr>server := Some (if srv_running srv then srv_stop s0 else s0)\<rparr>))"

text \<open>
  The unicast scan over the agreed address range. \<open>scan_target\<close> is the endpoint the loop body
  builds for one host number, \<open>None\<close> when the address text is rejected.
\<close>

definition scan_target :: "lib \<Rightarrow> u16 \<Rightarrow> nat \<Rightarrow> endpoint option" where
  "scan_target L discovery_port i =
     (case make_address_v4 L (''10.237.0.'' @ decimal i) of
        None \<Rightarrow> None
      | Some target_addr \<Rightarrow> Some \<lparr>ep_address = target_addr, ep_port = discovery_port\<rparr>)"

definition srv_scan_hosts :: "nat list" where
  "srv_scan_hosts = [2..<121]"

definition srv_scan_for_rovers ::
  "lib \<Rightarrow> time_point \<Rightarrow> u16 \<Rightarrow> string \<Rightarrow> string \<Rightarrow> udp_server \<Rightarrow> udp_server" where
  "srv_scan_for_rovers L now discovery_port text sender_id s =
     (if \<not> srv_running s then s
      else case serialise L (CommandMessage ''ROVER_DISCOVER'' text sender_id now) of
             Inl e \<Rightarrow> s
           | Inr json_payload \<Rightarrow>
               let data_to_send = string_to_binary json_payload
               in foldl (\<lambda>s i. case scan_target L discovery_port i of
                                 None \<Rightarrow> s
                               | Some target_endpoint \<Rightarrow> srv_send_data data_to_send target_endpoint s)
                        s srv_scan_hosts)"

subsection \<open>UdpClient\<close>

definition UdpClient :: udp_client where
  "UdpClient = \<lparr>cl_running = False, cl_open = True, cl_receiving = False, cl_callback = False,
     cl_base = no_endpoint, cl_sender = no_endpoint, cl_retry_timer = new_timer, cl_out = []\<rparr>"

definition cl_register_base :: "lib \<Rightarrow> string \<Rightarrow> nat \<Rightarrow> udp_client \<Rightarrow> udp_client result" where
  "cl_register_base L host port c =
     (case resolve L host (decimal port) of
        None \<Rightarrow> Inl (runtime_error ''resolve'', c)
      | Some [] \<Rightarrow> Inl (runtime_error (''Could not resolve host: '' @ host), c)
      | Some (ep # _) \<Rightarrow> Inr (c\<lparr>cl_base := ep\<rparr>))"

definition cl_send_data :: "bytes \<Rightarrow> udp_client \<Rightarrow> udp_client result" where
  "cl_send_data data c =
     (if is_unspecified (cl_base c)
      then Inl (runtime_error ''Base endpoint not initialized for UdpClient'', c)
      else Inr (c\<lparr>cl_out := cl_out c @ [(data, cl_base c)]\<rparr>))"

definition cl_send_data_to :: "bytes \<Rightarrow> endpoint \<Rightarrow> udp_client \<Rightarrow> udp_client" where
  "cl_send_data_to data recipient c =
     (if is_unspecified recipient \<or> ep_port recipient = 0 then c
      else c\<lparr>cl_out := cl_out c @ [(data, recipient)]\<rparr>)"

definition cl_send_broadcast_data ::
  "lib \<Rightarrow> bytes \<Rightarrow> u16 \<Rightarrow> string \<Rightarrow> udp_client \<Rightarrow> udp_client" where
  "cl_send_broadcast_data L data broadcast_port broadcast_address_str c =
     (if broadcast_address_str = ''255.255.255.255'' \<or> broadcast_address_str = ''10.237.0.255'' then
        c\<lparr>cl_out := cl_out c @ [(data, \<lparr>ep_address = 0xFFFFFFFF, ep_port = broadcast_port\<rparr>)]\<rparr>
      else case make_address_v4 L broadcast_address_str of
             None \<Rightarrow> c
           | Some broadcast_addr \<Rightarrow>
               c\<lparr>cl_out := cl_out c @ [(data, \<lparr>ep_address = broadcast_addr, ep_port = broadcast_port\<rparr>)]\<rparr>)"

definition cl_set_receive_callback :: "udp_client \<Rightarrow> udp_client" where
  "cl_set_receive_callback c = c\<lparr>cl_callback := True\<rparr>"

definition cl_do_receive :: "udp_client \<Rightarrow> udp_client" where
  "cl_do_receive c = (if \<not> cl_running c then c else c\<lparr>cl_receiving := True\<rparr>)"

definition cl_start_receive :: "udp_client \<Rightarrow> udp_client" where
  "cl_start_receive c = (if cl_running c then c else cl_do_receive (c\<lparr>cl_running := True\<rparr>))"

definition cl_stop_receive :: "udp_client \<Rightarrow> udp_client" where
  "cl_stop_receive c = (if \<not> cl_running c then c else (c\<lparr>cl_running := False\<rparr>)\<lparr>cl_open := False\<rparr>)"

definition cl_get_base_endpoint :: "udp_client \<Rightarrow> exn + endpoint" where
  "cl_get_base_endpoint c =
     (if is_unspecified (cl_base c) then Inl (runtime_error ''Base endpoint not initialized'')
      else Inr (cl_base c))"

text \<open>
  The completion handler; after an error other than an abort a one-shot timer is started, whose
  handler \<open>cl_handle_retry\<close> restarts the receive loop.
\<close>

definition cl_handle_receive ::
  "(bytes \<Rightarrow> endpoint \<Rightarrow> 'a net_scheme \<Rightarrow> 'a net_scheme) \<Rightarrow> receive_result \<Rightarrow>
   'a net_scheme \<Rightarrow> 'a net_scheme" where
  "cl_handle_receive receive_callback r s =
     (case client s of
        None \<Rightarrow> s
      | Some c \<Rightarrow>
          (case r of
             Received data from \<Rightarrow>
               let s0 = s\<lparr>client := Some (c\<lparr>cl_receiving := False, cl_sender := from\<rparr>)\<rparr>
               in if cl_running c then
                    let s1 = (if cl_callback c then receive_callback (take CLIENT_SOCK_BUF_SIZE data) from s0 else s0)
                    in s1\<lparr>client := map_option cl_do_receive (client s1)\<rparr>
                  else s0
           | OperationAborted \<Rightarrow> s\<lparr>client := Some (c\<lparr>cl_receiving := False\<rparr>)\<rparr>
           | ReceiveError \<Rightarrow>
               s\<lparr>client := Some (if cl_running c
                                 then c\<lparr>cl_receiving := False, cl_retry_timer :=
                                        async_wait (expires_at (steady_now s + CLIENT_RETRY_DELAY) new_timer)\<rparr>
                                 else c\<lparr>cl_receiving := False\<rparr>)\<rparr>))"

definition cl_handle_retry :: "udp_client \<Rightarrow> udp_client" where
  "cl_handle_retry c =
     (let c0 = c\<lparr>cl_retry_timer := cancel (cl_retry_timer c)\<rparr> in if cl_running c0 then cl_do_receive c0 else c0)"

subsection \<open>The interface of a datagram sender\<close>

text \<open>
  What the layers above rely on: a unit of data to a usable recipient becomes the last queued
  datagram, one to an unusable recipient changes nothing, and sending does not change which
  recipients are usable. A layer sends units of its own kind, which \<open>wire\<close> turns into bytes.
\<close>

locale datagram_sender =
  fixes send :: "'d \<Rightarrow> endpoint \<Rightarrow> 's \<Rightarrow> 's"
    and wire :: "'d \<Rightarrow> bytes"
    and out :: "'s \<Rightarrow> datagram list"
    and ready :: "'s \<Rightarrow> bool"
    and usable :: "'s \<Rightarrow> endpoint \<Rightarrow> bool"
  assumes send_usable: "ready s \<Longrightarrow> usable s ep \<Longrightarrow> out (send d ep s) = out s @ [(wire d, ep)]"
    and send_unusable: "ready s \<Longrightarrow> \<not> usable s ep \<Longrightarrow> send d ep s = s"
    and usable_send: "ready s \<Longrightarrow> usable (send d ep s) ep' = usable s ep'"
    and ready_send: "ready s \<Longrightarrow> ready (send d ep s)"
begin

lemma send_out: "ready s \<Longrightarrow> out (send d ep s) = out s @ (if usable s ep then [(wire d, ep)] else [])"
  by (simp add: send_usable send_unusable)

text \<open>A loop that sends one unit to each computed recipient.\<close>

lemma sends_out:
  "ready s \<Longrightarrow>
   out (foldl (\<lambda>s x. case f x of None \<Rightarrow> s | Some ep \<Rightarrow> send d ep s) s xs)
   = out s @ map (Pair (wire d)) (filter (usable s) (List.map_filter f xs))"
proof (induction xs arbitrary: s)
  case (Cons x xs)
  have "filter (usable (send d ep s)) l = filter (usable s) l" for ep l
    using Cons.prems by (simp add: usable_send cong: filter_cong)
  then show ?case
    using Cons by (simp add: map_filter_simps send_out ready_send split: option.splits)
qed (simp add: map_filter_simps)

text \<open>A loop that sends a list of units to one usable recipient.\<close>

lemma send_all_out:
  "ready s \<Longrightarrow> usable s ep \<Longrightarrow>
   out (foldl (\<lambda>s d. send d ep s) s ds) = out s @ map (\<lambda>d. (wire d, ep)) ds"
  by (induction ds arbitrary: s) (simp_all add: send_usable usable_send ready_send)

end

definition valid_recipient :: "endpoint \<Rightarrow> bool" where
  "valid_recipient ep \<longleftrightarrow> \<not> is_unspecified ep \<and> ep_port ep \<noteq> 0"

interpretation srv: datagram_sender srv_send_data "\<lambda>d. d" srv_out "\<lambda>s. True"
    "\<lambda>s ep. srv_running s \<and> valid_recipient ep"
  by unfold_locales (auto simp: srv_send_data_def valid_recipient_def)

interpretation cl: datagram_sender cl_send_data_to "\<lambda>d. d" cl_out "\<lambda>s. True" "\<lambda>s ep. valid_recipient ep"
  by unfold_locales (auto simp: cl_send_data_to_def valid_recipient_def)

subsection \<open>Sockets\<close>

text \<open>
  Invariant of the server: while it runs its socket is open, and it never hands the socket a
  datagram for the unspecified address or for port 0.
\<close>

definition srv_inv :: "udp_server \<Rightarrow> bool" where
  "srv_inv s \<longleftrightarrow> (srv_running s \<longrightarrow> srv_open s) \<and> (\<forall>(d, ep) \<in> set (srv_out s). valid_recipient ep)"

lemma srv_inv_init: "srv_inv UdpServer"
  by (simp add: srv_inv_def UdpServer_def)

lemma srv_inv_send: "srv_inv s \<Longrightarrow> srv_inv (srv_send_data d ep s)"
  by (auto simp: srv_inv_def srv_send_data_def valid_recipient_def)

lemma srv_inv_stop: "srv_inv s \<Longrightarrow> srv_inv (srv_stop s)"
  by (simp add: srv_inv_def srv_stop_def)

text \<open>The scan sends one copy of the probe to every usable host of the range, in order.\<close>

lemma srv_scan_out:
  assumes "srv_running s"
    and "serialise L (CommandMessage ''ROVER_DISCOVER'' text sender now) = Inr payload"
  shows "srv_out (srv_scan_for_rovers L now port text sender s) =
           srv_out s @ map (Pair (string_to_binary payload))
             (filter valid_recipient (List.map_filter (scan_target L port) srv_scan_hosts))"
  using assms by (simp add: srv_scan_for_rovers_def Let_def srv.sends_out)

subsection \<open>Properties of the transport\<close>

text \<open>A running server's \<open>scan_for_rovers\<close> queues one copy of the serialised
  \<open>ROVER_DISCOVER\<close> command for every host of the range whose address text is accepted, in host
  order, and nothing else; a stopped server queues nothing.\<close>

lemma scan_one_probe_per_host:
  assumes "serialise L (CommandMessage ''ROVER_DISCOVER'' text sender_id now) = Inr payload"
    and "port \<noteq> 0" and "\<forall>i \<in> set srv_scan_hosts. \<forall>a. make_address_v4 L (''10.237.0.'' @ decimal i) = Some a \<longrightarrow> a \<noteq> 0"
  shows "srv_out (srv_scan_for_rovers L now port text sender_id s) = srv_out s @
    (if srv_running s
     then map (\<lambda>a. (string_to_binary payload, \<lparr>ep_address = a, ep_port = port\<rparr>))
            (List.map_filter (\<lambda>i. make_address_v4 L (''10.237.0.'' @ decimal i)) srv_scan_hosts)
     else [])"
proof (cases "srv_running s")
  case True
  have eq: "filter valid_recipient (List.map_filter (scan_target L port) hs)
      = map (\<lambda>a. \<lparr>ep_address = a, ep_port = port\<rparr>)
          (List.map_filter (\<lambda>i. make_address_v4 L (''10.237.0.'' @ decimal i)) hs)"
    if "\<forall>i \<in> set hs. \<forall>a. make_address_v4 L (''10.237.0.'' @ decimal i) = Some a \<longrightarrow> a \<noteq> 0" for hs
    using that assms(2)
    by (induction hs) (auto simp: map_filter_simps scan_target_def valid_recipient_def
        is_unspecified_def split: option.splits)
  show ?thesis
    using True srv_scan_out [OF True assms(1)] eq [OF assms(3)] by (simp add: o_def)
qed (simp add: srv_scan_for_rovers_def)

end
