(* ===== verification/Reliability_Manager.thy ===== *)
theory Reliability_Manager
  imports Lumen_Packet Udp_Transport
begin

text \<open>
  The class \<open>ReliabilityManager\<close> (\<open>include/common/reliability_manager.hpp\<close>,
  \<open>src/common/reliability_manager.cpp\<close>): the table of sent packets with timeout-based
  retransmission (rover) or NAK-driven retransmission (base station), the record of received
  sequence numbers from which gaps are computed, the NAK debounce table, the per-peer set of
  acknowledged sequence numbers, and the periodic cleanup. The record extends \<open>net\<close>, so every
  operation also works on the whole node; callbacks are arguments, with a flag in the state for
  "a callback is set". The mutexes are not modelled: every handler of a node runs to completion on
  the one \<open>io_context\<close> thread.
\<close>

subsection \<open>Configuration\<close>

definition RELIABILITY_MAX_RETRIES :: int where "RELIABILITY_MAX_RETRIES = 2"
definition RELIABILITY_BASE_TIMEOUT :: int where "RELIABILITY_BASE_TIMEOUT = 5000"
definition RELIABILITY_CHECK_INTERVAL :: int where "RELIABILITY_CHECK_INTERVAL = 1000"
definition NAK_DEBOUNCE_TIME :: int where "NAK_DEBOUNCE_TIME = 1000"
definition CLEANUP_INTERVAL :: int where "CLEANUP_INTERVAL = 5000"
definition SEQUENCE_RETAIN_TIME :: int where "SEQUENCE_RETAIN_TIME = 30000"
definition WINDOW_SIZE :: nat where "WINDOW_SIZE = 16"

lemmas reliability_config =
  RELIABILITY_MAX_RETRIES_def RELIABILITY_BASE_TIMEOUT_def RELIABILITY_CHECK_INTERVAL_def
  NAK_DEBOUNCE_TIME_def CLEANUP_INTERVAL_def SEQUENCE_RETAIN_TIME_def WINDOW_SIZE_def

subsection \<open>State\<close>

datatype role = BASE_STATION | ROVER

record sent_packet_info =
  sp_packet :: lumen_packet
  sp_sent_time :: time_point
  sp_retry_count :: int
  sp_recipient :: endpoint

record reliability_manager = net +
  rm_sent_packets :: "(u8, sent_packet_info) smap"
  rm_acked_sequences :: "string \<Rightarrow> u8 set option"
  rm_received_sequences :: "string \<Rightarrow> (u8, time_point) smap option"
  rm_recent_naks :: "(u8, time_point) smap"
  rm_retransmit_timer :: timer
  rm_cleanup_timer :: timer
  rm_retransmit_callback :: bool
  rm_timeout_callback :: bool
  rm_running :: bool
  rm_role :: role
  rm_last_ack_cleanup_time :: time_point
  rm_consecutive_timeouts_to_base :: int

text \<open>The constructor initialises its part of the node; a timer is created with a first expiry.\<close>

definition ReliabilityManager ::
  "bool \<Rightarrow> 'a reliability_manager_scheme \<Rightarrow> 'a reliability_manager_scheme" where
  "ReliabilityManager is_base_station s =
     s\<lparr>rm_sent_packets := [], rm_acked_sequences := Map.empty,
       rm_received_sequences := Map.empty, rm_recent_naks := [],
       rm_retransmit_timer :=
         \<lparr>tm_expiry = steady_now s + ms RELIABILITY_CHECK_INTERVAL, tm_waiting = False\<rparr>,
       rm_cleanup_timer := \<lparr>tm_expiry = steady_now s + ms CLEANUP_INTERVAL, tm_waiting = False\<rparr>,
       rm_retransmit_callback := False, rm_timeout_callback := False, rm_running := False,
       rm_role := (if is_base_station then BASE_STATION else ROVER),
       rm_last_ack_cleanup_time := 0, rm_consecutive_timeouts_to_base := 0\<rparr>"

subsection \<open>Sent packets\<close>

definition rm_add_send_packet ::
  "u8 \<Rightarrow> lumen_packet \<Rightarrow> endpoint \<Rightarrow> 'a reliability_manager_scheme \<Rightarrow>
   'a reliability_manager_scheme" where
  "rm_add_send_packet seq packet recipient s =
     (if \<not> rm_running s then s
      else s\<lparr>rm_sent_packets :=
               smap_emplace seq
                 \<lparr>sp_packet = packet, sp_sent_time = steady_now s, sp_retry_count = 0,
                  sp_recipient = recipient\<rparr>
                 (rm_sent_packets s)\<rparr>)"

definition rm_process_ack ::
  "u8 \<Rightarrow> 'a reliability_manager_scheme \<Rightarrow> 'a reliability_manager_scheme" where
  "rm_process_ack seq s =
     (if \<not> rm_running s \<or> rm_role s \<noteq> ROVER then s
      else case map_of (rm_sent_packets s) seq of
             Some _ \<Rightarrow> s\<lparr>rm_consecutive_timeouts_to_base := 0,
                        rm_sent_packets := smap_erase seq (rm_sent_packets s)\<rparr>
           | None \<Rightarrow> s)"

definition rm_process_nak ::
  "(lumen_packet \<Rightarrow> endpoint \<Rightarrow> 'a reliability_manager_scheme \<Rightarrow> 'a reliability_manager_scheme) \<Rightarrow>
   u8 \<Rightarrow> 'a reliability_manager_scheme \<Rightarrow> 'a reliability_manager_scheme" where
  "rm_process_nak retransmit seq s =
     (if \<not> rm_running s \<or> rm_role s \<noteq> BASE_STATION then s
      else case map_of (rm_sent_packets s) seq of
             Some info \<Rightarrow>
               if rm_retransmit_callback s then retransmit (sp_packet info) (sp_recipient info) s
               else s
           | None \<Rightarrow> s)"

subsection \<open>Received sequence numbers and NAKs\<close>

definition rm_record_received_sequence ::
  "lib \<Rightarrow> u8 \<Rightarrow> endpoint \<Rightarrow> 'a reliability_manager_scheme \<Rightarrow> 'a reliability_manager_scheme" where
  "rm_record_received_sequence L seq sender s =
     (if \<not> rm_running s then s
      else
        let endpoint_key = get_endpoint_key L sender;
            m = (case rm_received_sequences s endpoint_key of Some m \<Rightarrow> m | None \<Rightarrow> [])
        in s\<lparr>rm_received_sequences :=
               (rm_received_sequences s)(endpoint_key \<mapsto> smap_assign seq (steady_now s) m)\<rparr>)"

definition rm_get_missing_sequences ::
  "lib \<Rightarrow> endpoint \<Rightarrow> 'a reliability_manager_scheme \<Rightarrow> u8 list" where
  "rm_get_missing_sequences L sender s =
     (if rm_role s \<noteq> ROVER then []
      else case rm_received_sequences s (get_endpoint_key L sender) of
             None \<Rightarrow> []
           | Some sequence_map \<Rightarrow>
               if sequence_map = [] then []
               else
                 let highest_seq = fst (last sequence_map)
                 in filter (\<lambda>seq_to_check. map_of sequence_map seq_to_check = None)
                      (map (\<lambda>i. highest_seq - word_of_nat i) [1..<Suc WINDOW_SIZE]))"

definition rm_is_recently_naked :: "u8 \<Rightarrow> 'a reliability_manager_scheme \<Rightarrow> bool" where
  "rm_is_recently_naked seq s =
     (case map_of (rm_recent_naks s) seq of
        None \<Rightarrow> False
      | Some t \<Rightarrow> to_ms (steady_now s - t) < NAK_DEBOUNCE_TIME)"

definition rm_record_nak_sent ::
  "u8 \<Rightarrow> 'a reliability_manager_scheme \<Rightarrow> 'a reliability_manager_scheme" where
  "rm_record_nak_sent seq s =
     s\<lparr>rm_recent_naks := smap_assign seq (steady_now s) (rm_recent_naks s)\<rparr>"

subsection \<open>Timeouts\<close>

text \<open>\<open>timeout = RELIABILITY_BASE_TIMEOUT * (1 << retry_count)\<close>, in milliseconds.\<close>

definition retry_timeout :: "sent_packet_info \<Rightarrow> int" where
  "retry_timeout info = RELIABILITY_BASE_TIMEOUT * 2 ^ nat (sp_retry_count info)"

definition timed_out :: "time_point \<Rightarrow> sent_packet_info \<Rightarrow> bool" where
  "timed_out now info \<longleftrightarrow> to_ms (now - sp_sent_time info) > retry_timeout info"

text \<open>
  The loop of \<open>get_packets_to_retransmit\<close> over \<open>sent_packets_\<close> in key order: the entries it leaves
  in the map, the packets to send again, and the state after the timeout callbacks, which run for
  packets given up on whose recipient has port 9000.
\<close>

fun retransmit_loop ::
  "(endpoint \<Rightarrow> 'a reliability_manager_scheme \<Rightarrow> 'a reliability_manager_scheme) \<Rightarrow> time_point \<Rightarrow>
   (u8, sent_packet_info) smap \<Rightarrow> 'a reliability_manager_scheme \<Rightarrow>
   (u8, sent_packet_info) smap \<times> (lumen_packet \<times> endpoint) list \<times> 'a reliability_manager_scheme"
  where
  "retransmit_loop on_timeout now [] s = ([], [], s)"
| "retransmit_loop on_timeout now ((seq, info) # rest) s =
     (if rm_role s = BASE_STATION then
        let (kept, packets, s') = retransmit_loop on_timeout now rest s
        in ((seq, info) # kept, packets, s')
      else if timed_out now info then
        if sp_retry_count info \<ge> RELIABILITY_MAX_RETRIES then
          let s0 = (if ep_port (sp_recipient info) = 9000 \<and> rm_timeout_callback s
                    then on_timeout (sp_recipient info) s else s)
          in retransmit_loop on_timeout now rest s0
        else
          let (kept, packets, s') = retransmit_loop on_timeout now rest s
          in ((seq, info\<lparr>sp_sent_time := now, sp_retry_count := sp_retry_count info + 1\<rparr>) # kept,
              (sp_packet info, sp_recipient info) # packets, s')
      else
        let (kept, packets, s') = retransmit_loop on_timeout now rest s
        in ((seq, info) # kept, packets, s'))"

definition rm_get_packets_to_retransmit ::
  "(endpoint \<Rightarrow> 'a reliability_manager_scheme \<Rightarrow> 'a reliability_manager_scheme) \<Rightarrow>
   'a reliability_manager_scheme \<Rightarrow>
   (lumen_packet \<times> endpoint) list \<times> 'a reliability_manager_scheme" where
  "rm_get_packets_to_retransmit on_timeout s =
     (let (kept, packets, s') =
            retransmit_loop on_timeout (steady_now s) (rm_sent_packets s) s
      in (packets, s'\<lparr>rm_sent_packets := kept\<rparr>))"

definition rm_set_retransmit_callback ::
  "'a reliability_manager_scheme \<Rightarrow> 'a reliability_manager_scheme" where
  "rm_set_retransmit_callback s = s\<lparr>rm_retransmit_callback := True\<rparr>"

definition rm_set_timeout_callback ::
  "'a reliability_manager_scheme \<Rightarrow> 'a reliability_manager_scheme" where
  "rm_set_timeout_callback s = s\<lparr>rm_timeout_callback := True\<rparr>"

definition rm_handle_retransmission_timer ::
  "(lumen_packet \<Rightarrow> endpoint \<Rightarrow> 'a reliability_manager_scheme \<Rightarrow> 'a reliability_manager_scheme) \<Rightarrow>
   (endpoint \<Rightarrow> 'a reliability_manager_scheme \<Rightarrow> 'a reliability_manager_scheme) \<Rightarrow>
   'a reliability_manager_scheme \<Rightarrow> 'a reliability_manager_scheme" where
  "rm_handle_retransmission_timer retransmit on_timeout s =
     (if \<not> rm_running s then s
      else
        let s1 = (if rm_role s = ROVER then
                    let (packets, s0) = rm_get_packets_to_retransmit on_timeout s
                    in if packets \<noteq> [] \<and> rm_retransmit_callback s0
                       then foldl (\<lambda>s (packet, ep). retransmit packet ep s) s0 packets
                       else s0
                  else s)
        in if rm_running s1 then
             s1\<lparr>rm_retransmit_timer :=
                  async_wait (expires_at (tm_expiry (rm_retransmit_timer s1)
                                          + ms RELIABILITY_CHECK_INTERVAL) (rm_retransmit_timer s1))\<rparr>
           else s1)"

subsection \<open>Cleanup\<close>

definition rm_cleanup_old_entries ::
  "'a reliability_manager_scheme \<Rightarrow> 'a reliability_manager_scheme" where
  "rm_cleanup_old_entries s =
     (let now = steady_now s;
          s1 = s\<lparr>rm_received_sequences :=
                   (\<lambda>k. map_option (filter (\<lambda>(seq, t). \<not> to_ms (now - t) > SEQUENCE_RETAIN_TIME))
                          (rm_received_sequences s k))\<rparr>;
          s2 = s1\<lparr>rm_recent_naks :=
                    filter (\<lambda>(seq, t). \<not> to_ms (now - t) > NAK_DEBOUNCE_TIME * 2)
                      (rm_recent_naks s1)\<rparr>
      in if now > rm_last_ack_cleanup_time s2 + ms (CLEANUP_INTERVAL * 2)
         then s2\<lparr>rm_acked_sequences := Map.empty, rm_last_ack_cleanup_time := now\<rparr>
         else s2)"

definition rm_handle_cleanup_timer ::
  "'a reliability_manager_scheme \<Rightarrow> 'a reliability_manager_scheme" where
  "rm_handle_cleanup_timer s =
     (if \<not> rm_running s then s
      else
        let s1 = rm_cleanup_old_entries s
        in if rm_running s1 then
             s1\<lparr>rm_cleanup_timer :=
                  async_wait (expires_at (tm_expiry (rm_cleanup_timer s1) + ms CLEANUP_INTERVAL)
                                (rm_cleanup_timer s1))\<rparr>
           else s1)"

subsection \<open>Acknowledged sequence numbers\<close>

definition rm_record_acked_sequence ::
  "lib \<Rightarrow> u8 \<Rightarrow> endpoint \<Rightarrow> 'a reliability_manager_scheme \<Rightarrow> 'a reliability_manager_scheme" where
  "rm_record_acked_sequence L seq ep s =
     (if rm_role s \<noteq> BASE_STATION then s
      else
        let endpoint_key = get_endpoint_key L ep;
            acked = (case rm_acked_sequences s endpoint_key of Some a \<Rightarrow> a | None \<Rightarrow> {})
        in s\<lparr>rm_acked_sequences := (rm_acked_sequences s)(endpoint_key \<mapsto> insert seq acked)\<rparr>)"

definition rm_has_acked_sequence ::
  "lib \<Rightarrow> u8 \<Rightarrow> endpoint \<Rightarrow> 'a reliability_manager_scheme \<Rightarrow> bool" where
  "rm_has_acked_sequence L seq ep s =
     (if rm_role s \<noteq> BASE_STATION then False
      else case rm_acked_sequences s (get_endpoint_key L ep) of
             None \<Rightarrow> False
           | Some acked \<Rightarrow> seq \<in> acked)"

subsection \<open>Life cycle\<close>

definition rm_reset_state :: "'a reliability_manager_scheme \<Rightarrow> 'a reliability_manager_scheme" where
  "rm_reset_state s =
     s\<lparr>rm_sent_packets := [], rm_received_sequences := Map.empty, rm_recent_naks := [],
       rm_acked_sequences := Map.empty, rm_consecutive_timeouts_to_base := 0\<rparr>"

definition rm_start ::
  "(lumen_packet \<Rightarrow> endpoint \<Rightarrow> 'a reliability_manager_scheme \<Rightarrow> 'a reliability_manager_scheme) \<Rightarrow>
   (endpoint \<Rightarrow> 'a reliability_manager_scheme \<Rightarrow> 'a reliability_manager_scheme) \<Rightarrow>
   'a reliability_manager_scheme \<Rightarrow> 'a reliability_manager_scheme" where
  "rm_start retransmit on_timeout s =
     (if rm_running s then s
      else
        let s0 = s\<lparr>rm_running := True, rm_sent_packets := [],
                   rm_consecutive_timeouts_to_base := 0, rm_received_sequences := Map.empty,
                   rm_recent_naks := [], rm_acked_sequences := Map.empty\<rparr>
        in rm_handle_cleanup_timer (rm_handle_retransmission_timer retransmit on_timeout s0))"

definition rm_stop :: "'a reliability_manager_scheme \<Rightarrow> 'a reliability_manager_scheme" where
  "rm_stop s =
     (if \<not> rm_running s then s
      else s\<lparr>rm_running := False, rm_retransmit_timer := cancel (rm_retransmit_timer s),
             rm_cleanup_timer := cancel (rm_cleanup_timer s)\<rparr>)"

lemmas rm_defs =
  rm_add_send_packet_def rm_process_ack_def rm_process_nak_def rm_record_received_sequence_def
  rm_record_nak_sent_def rm_set_retransmit_callback_def rm_set_timeout_callback_def
  rm_cleanup_old_entries_def rm_handle_cleanup_timer_def rm_record_acked_sequence_def
  rm_reset_state_def rm_stop_def

subsection \<open>The retransmission pass\<close>

definition due :: "time_point \<Rightarrow> sent_packet_info \<Rightarrow> bool" where
  "due now info \<longleftrightarrow> timed_out now info \<and> sp_retry_count info < RELIABILITY_MAX_RETRIES"

definition given_up :: "time_point \<Rightarrow> sent_packet_info \<Rightarrow> bool" where
  "given_up now info \<longleftrightarrow> timed_out now info \<and> sp_retry_count info \<ge> RELIABILITY_MAX_RETRIES"

definition bumped :: "time_point \<Rightarrow> sent_packet_info \<Rightarrow> sent_packet_info" where
  "bumped now info =
     (if due now info then info\<lparr>sp_sent_time := now, sp_retry_count := sp_retry_count info + 1\<rparr>
      else info)"

lemma retransmit_loop_rover:
  assumes "rm_role s = ROVER" and keep: "\<And>ep s. rm_role (on_timeout ep s) = rm_role s"
  shows "retransmit_loop on_timeout now m s =
    (map (\<lambda>(seq, info). (seq, bumped now info)) (filter (\<lambda>(seq, info). \<not> given_up now info) m),
     map (\<lambda>(seq, info). (sp_packet info, sp_recipient info)) (filter (\<lambda>(seq, info). due now info) m),
     foldl (\<lambda>s (seq, info). if ep_port (sp_recipient info) = 9000 \<and> rm_timeout_callback s
                            then on_timeout (sp_recipient info) s else s)
       s (filter (\<lambda>(seq, info). given_up now info) m))"
  using assms(1)
proof (induction m arbitrary: s)
  case (Cons e m)
  obtain seq info where e: "e = (seq, info)" by fastforce
  consider "given_up now info" | "due now info" | "\<not> timed_out now info"
    by (metis due_def given_up_def not_less)
  then show ?case
    by cases (use Cons in \<open>auto simp: e keep bumped_def given_up_def due_def Let_def\<close>)
qed simp

lemma retransmit_loop_base:
  assumes "rm_role s = BASE_STATION"
  shows "retransmit_loop on_timeout now m s = (m, [], s)"
  using assms by (induction m) (auto simp: Let_def)

lemma rm_get_packets_rover:
  assumes "rm_role s = ROVER" and "\<And>ep s. rm_role (on_timeout ep s) = rm_role s"
  shows "fst (rm_get_packets_to_retransmit on_timeout s) =
           map (\<lambda>(seq, info). (sp_packet info, sp_recipient info))
             (filter (\<lambda>(seq, info). due (steady_now s) info) (rm_sent_packets s))"
    and "rm_sent_packets (snd (rm_get_packets_to_retransmit on_timeout s)) =
           map (\<lambda>(seq, info). (seq, bumped (steady_now s) info))
             (filter (\<lambda>(seq, info). \<not> given_up (steady_now s) info) (rm_sent_packets s))"
  using retransmit_loop_rover [OF assms] by (simp_all add: rm_get_packets_to_retransmit_def)

text \<open>How many retransmissions the table still allows.\<close>

definition retries_left :: "(u8, sent_packet_info) smap \<Rightarrow> nat" where
  "retries_left m = (\<Sum>(seq, info) \<leftarrow> m. nat (RELIABILITY_MAX_RETRIES - sp_retry_count info))"

lemma retries_left_simps [simp]:
  "retries_left [] = 0"
  "retries_left ((seq, info) # m) =
     nat (RELIABILITY_MAX_RETRIES - sp_retry_count info) + retries_left m"
  by (simp_all add: retries_left_def)

lemma retries_left_pass:
  "length (filter (\<lambda>(seq, info). due now info) m)
   + retries_left (map (\<lambda>(seq, info). (seq, bumped now info))
       (filter (\<lambda>(seq, info). \<not> given_up now info) m))
   \<le> retries_left m"
proof (induction m)
  case (Cons e m)
  obtain seq info where e: "e = (seq, info)" by fastforce
  consider "given_up now info" "\<not> due now info" | "due now info" "\<not> given_up now info"
    | "\<not> due now info" "\<not> given_up now info"
    by (metis due_def given_up_def not_less)
  then show ?case
  proof cases
    case 2
    then have "sp_retry_count info < RELIABILITY_MAX_RETRIES" by (simp add: due_def)
    then have "Suc (nat (RELIABILITY_MAX_RETRIES - (sp_retry_count info + 1)))
               = nat (RELIABILITY_MAX_RETRIES - sp_retry_count info)"
      by arith
    moreover have "bumped now info = info\<lparr>sp_sent_time := now, sp_retry_count := sp_retry_count info + 1\<rparr>"
      using 2 by (simp add: bumped_def)
    ultimately show ?thesis using 2 Cons by (simp add: e)
  qed (use Cons in \<open>simp_all add: e bumped_def\<close>)
qed simp

text \<open>Timer firings at the given instants with nothing sent or acknowledged in between.\<close>

fun retransmission_run ::
  "(endpoint \<Rightarrow> 'a reliability_manager_scheme \<Rightarrow> 'a reliability_manager_scheme) \<Rightarrow>
   time_point list \<Rightarrow> 'a reliability_manager_scheme \<Rightarrow>
   (lumen_packet \<times> endpoint) list list \<times> 'a reliability_manager_scheme" where
  "retransmission_run on_timeout [] s = ([], s)"
| "retransmission_run on_timeout (t # ts) s =
     (let (packets, s1) = rm_get_packets_to_retransmit on_timeout (s\<lparr>steady_now := t\<rparr>);
          (rest, s2) = retransmission_run on_timeout ts s1
      in (packets # rest, s2))"

lemma foldl_role:
  assumes "\<And>x s. rm_role (f s x) = rm_role s"
  shows "rm_role (foldl f s xs) = rm_role s"
  by (induction xs arbitrary: s) (auto simp: assms)

lemma rm_get_packets_role:
  assumes "rm_role s = ROVER" and "\<And>ep s. rm_role (on_timeout ep s) = rm_role s"
  shows "rm_role (snd (rm_get_packets_to_retransmit on_timeout s)) = ROVER"
  using retransmit_loop_rover [OF assms] assms
  by (simp add: rm_get_packets_to_retransmit_def foldl_role split: prod.splits)

lemma retransmission_run_bound:
  assumes "rm_role s = ROVER" and keep: "\<And>ep s. rm_role (on_timeout ep s) = rm_role s"
  shows "length (concat (fst (retransmission_run on_timeout ts s)))
         + retries_left (rm_sent_packets (snd (retransmission_run on_timeout ts s)))
         \<le> retries_left (rm_sent_packets s)"
  using assms(1)
proof (induction ts arbitrary: s)
  case (Cons t ts)
  let ?s = "s\<lparr>steady_now := t\<rparr>"
  let ?r = "rm_get_packets_to_retransmit on_timeout ?s"
  have role: "rm_role ?s = ROVER" using Cons.prems by simp
  have pass: "length (fst ?r) + retries_left (rm_sent_packets (snd ?r)) \<le> retries_left (rm_sent_packets s)"
    using retries_left_pass [of t "rm_sent_packets s"]
    by (simp add: rm_get_packets_rover [where on_timeout = on_timeout, OF role keep])
  have "rm_role (snd ?r) = ROVER" by (rule rm_get_packets_role [OF role keep])
  from Cons.IH [OF this] pass show ?case
    by (simp add: Let_def case_prod_beta)
qed simp

lemma retries_left_le:
  "\<forall>(seq, info) \<in> set m. 0 \<le> sp_retry_count info \<Longrightarrow> retries_left m \<le> 2 * length m"
  by (induction m) (auto simp: retries_left_def RELIABILITY_MAX_RETRIES_def)

text \<open>One pass late enough after the last (re)transmission of every entry.\<close>

lemma late_pass_drops:
  assumes "\<forall>(seq, info) \<in> set m. timed_out now info"
  shows "map (\<lambda>(seq, info). (seq, bumped now info)) (filter (\<lambda>(seq, info). \<not> given_up now info) m)
    = map (\<lambda>(seq, info). (seq, info\<lparr>sp_sent_time := now, sp_retry_count := sp_retry_count info + 1\<rparr>))
        (filter (\<lambda>(seq, info). sp_retry_count info < RELIABILITY_MAX_RETRIES) m)"
  using assms by (induction m) (auto simp: bumped_def due_def given_up_def)

definition checked_table :: "(u8, sent_packet_info) smap \<Rightarrow> time_point \<Rightarrow> (u8, sent_packet_info) smap" where
  "checked_table m now =
     map (\<lambda>(seq, info). (seq, bumped now info)) (filter (\<lambda>(seq, info). \<not> given_up now info) m)"

lemma retransmission_run_table:
  assumes "rm_role s = ROVER" and keep: "\<And>ep s. rm_role (on_timeout ep s) = rm_role s"
  shows "rm_sent_packets (snd (retransmission_run on_timeout ts s)) = foldl checked_table (rm_sent_packets s) ts"
  using assms(1)
proof (induction ts arbitrary: s)
  case (Cons t ts)
  let ?s = "s\<lparr>steady_now := t\<rparr>"
  let ?r = "rm_get_packets_to_retransmit on_timeout ?s"
  have role: "rm_role ?s = ROVER" using Cons.prems by simp
  have "rm_role (snd ?r) = ROVER" by (rule rm_get_packets_role [OF role keep])
  from Cons.IH [OF this] show ?case
    by (simp add: Let_def case_prod_beta checked_table_def
        rm_get_packets_rover(2) [where on_timeout = on_timeout, OF role keep])
qed simp

text \<open>A check more than the longest back-off after the last transmission uses up one retry of each.\<close>

lemma late_check:
  assumes "\<forall>(seq, info) \<in> set m. n \<le> sp_retry_count info \<and> sp_retry_count info \<le> RELIABILITY_MAX_RETRIES
             \<and> sp_sent_time info + ms 20001 \<le> t" and "0 \<le> n"
  shows "\<forall>(seq, info) \<in> set (checked_table m t). n + 1 \<le> sp_retry_count info
             \<and> sp_retry_count info \<le> RELIABILITY_MAX_RETRIES \<and> sp_sent_time info = t"
proof -
  have "timed_out t info" if "(seq, info) \<in> set m" for seq info
  proof -
    have r: "0 \<le> sp_retry_count info" "sp_retry_count info \<le> 2" "ms 20001 \<le> t - sp_sent_time info"
      using assms that by (auto simp: RELIABILITY_MAX_RETRIES_def)
    then have "nat (sp_retry_count info) \<le> 2" by simp
    then have "(2 :: int) ^ nat (sp_retry_count info) \<le> 2 ^ 2" by (intro power_increasing) auto
    moreover have "20001 \<le> to_ms (t - sp_sent_time info)"
      using to_ms_mono [OF r(3)] by simp
    ultimately show ?thesis
      by (simp add: timed_out_def retry_timeout_def RELIABILITY_BASE_TIMEOUT_def)
  qed
  then have "\<forall>(seq, info) \<in> set m. timed_out t info" by auto
  from late_pass_drops [OF this] show ?thesis
    using assms by (auto simp: checked_table_def)
qed

text \<open>What a schedule of checks sends depends on the table only.\<close>

fun sent_again :: "(u8, sent_packet_info) smap \<Rightarrow> time_point list \<Rightarrow> (lumen_packet \<times> endpoint) list list" where
  "sent_again m [] = []"
| "sent_again m (t # ts) =
     map (\<lambda>(seq, info). (sp_packet info, sp_recipient info)) (filter (\<lambda>(seq, info). due t info) m)
     # sent_again (checked_table m t) ts"

lemma retransmission_run_sent:
  assumes "rm_role s = ROVER" and keep: "\<And>ep s. rm_role (on_timeout ep s) = rm_role s"
  shows "fst (retransmission_run on_timeout ts s) = sent_again (rm_sent_packets s) ts"
  using assms(1)
proof (induction ts arbitrary: s)
  case (Cons t ts)
  let ?s = "s\<lparr>steady_now := t\<rparr>"
  have role: "rm_role ?s = ROVER" using Cons.prems by simp
  note pass = rm_get_packets_rover [where on_timeout = on_timeout, OF role keep]
  have "rm_role (snd (rm_get_packets_to_retransmit on_timeout ?s)) = ROVER"
    by (rule rm_get_packets_role [OF role keep])
  from Cons.IH [OF this] show ?case
    by (simp add: Let_def case_prod_beta checked_table_def pass)
qed simp

definition keyed :: "(u8, sent_packet_info) smap \<Rightarrow> bool" where
  "keyed m \<longleftrightarrow> (\<forall>(seq, info) \<in> set m. hdr_sequence (pkt_header (sp_packet info)) = seq)"

lemma keyed_checked: "keyed m \<Longrightarrow> keyed (checked_table m t)"
  by (auto simp: keyed_def checked_table_def bumped_def)

lemma checked_table_erase: "checked_table (smap_erase seq m) t = smap_erase seq (checked_table m t)"
  by (induction m) (auto simp: checked_table_def smap_erase_def)

lemma sent_again_erase:
  assumes "keyed m"
  shows "sent_again (smap_erase seq m) ts =
    map (filter (\<lambda>(packet, ep). hdr_sequence (pkt_header packet) \<noteq> seq)) (sent_again m ts)"
  using assms
proof (induction ts arbitrary: m)
  case (Cons t ts)
  have "map (\<lambda>(seq, info). (sp_packet info, sp_recipient info))
          (filter (\<lambda>(seq, info). due t info) (smap_erase seq m))
      = filter (\<lambda>(packet, ep). hdr_sequence (pkt_header packet) \<noteq> seq)
          (map (\<lambda>(seq, info). (sp_packet info, sp_recipient info)) (filter (\<lambda>(seq, info). due t info) m))"
    using Cons.prems by (induction m) (auto simp: keyed_def smap_erase_def)
  then show ?case
    using Cons.IH [OF keyed_checked [OF Cons.prems, of t]] by (simp add: checked_table_erase)
qed simp

lemma process_ack_table:
  assumes "rm_running s" and "rm_role s = ROVER"
  shows "rm_sent_packets (rm_process_ack seq s) = smap_erase seq (rm_sent_packets s)"
    and "rm_role (rm_process_ack seq s) = ROVER"
proof -
  have "smap_erase seq m = m" if "map_of m seq = None" for m :: "(u8, sent_packet_info) smap"
    using that by (induction m) (auto simp: smap_erase_def split: if_splits)
  then show "rm_sent_packets (rm_process_ack seq s) = smap_erase seq (rm_sent_packets s)"
    "rm_role (rm_process_ack seq s) = ROVER"
    using assms by (simp_all add: rm_process_ack_def split: option.splits)
qed

subsection \<open>The acknowledgement ledger\<close>

text \<open>
  The interface \<open>LumenProtocol\<close> uses to suppress duplicates: recording a sequence number for a peer
  makes exactly that number of that peer known. Peers are identified by their key.
\<close>

locale ack_ledger =
  fixes record_ack :: "u8 \<Rightarrow> 'p \<Rightarrow> 's \<Rightarrow> 's"
    and acked :: "u8 \<Rightarrow> 'p \<Rightarrow> 's \<Rightarrow> bool"
    and key :: "'p \<Rightarrow> string"
    and keeps :: "'s \<Rightarrow> bool"
  assumes acked_record: "keeps s \<Longrightarrow>
      acked seq' p' (record_ack seq p s) \<longleftrightarrow> acked seq' p' s \<or> seq' = seq \<and> key p' = key p"
    and keeps_record: "keeps (record_ack seq p s) = keeps s"
begin

lemma acked_self: "keeps s \<Longrightarrow> acked seq p (record_ack seq p s)"
  by (simp add: acked_record)

lemma acked_mono: "keeps s \<Longrightarrow> acked seq p s \<Longrightarrow> acked seq p (record_ack seq' p' s)"
  by (simp add: acked_record)

lemma acked_other: "keeps s \<Longrightarrow> key p \<noteq> key p' \<Longrightarrow> acked seq p (record_ack seq' p' s) = acked seq p s"
  by (simp add: acked_record)

lemma acked_record_twice:
  "keeps s \<Longrightarrow> acked q p (record_ack seq p' (record_ack seq p' s)) = acked q p (record_ack seq p' s)"
  by (auto simp: acked_record keeps_record)

end

interpretation led: ack_ledger "rm_record_acked_sequence L" "rm_has_acked_sequence L"
    "get_endpoint_key L" "\<lambda>s. rm_role s = BASE_STATION" for L
  by unfold_locales
    (auto simp: rm_record_acked_sequence_def rm_has_acked_sequence_def Let_def split: option.splits)

subsection \<open>Gaps\<close>

lemma word_offset_inj:
  "inj_on (\<lambda>i. (h :: u8) - word_of_nat i) {1..<Suc WINDOW_SIZE}"
proof (rule inj_onI)
  fix i j assume ij: "i \<in> {1..<Suc WINDOW_SIZE}" "j \<in> {1..<Suc WINDOW_SIZE}"
    and "h - word_of_nat i = h - word_of_nat j"
  then have "(word_of_nat i :: u8) = word_of_nat j" by simp
  then have "unat (word_of_nat i :: u8) = unat (word_of_nat j :: u8)" by simp
  then show "i = j" using ij by (simp add: unat_of_nat WINDOW_SIZE_def)
qed

lemma rm_get_missing_distinct: "distinct (rm_get_missing_sequences L ep s)"
proof -
  have "distinct (map (\<lambda>i. (h :: u8) - word_of_nat i) [1..<Suc WINDOW_SIZE])" for h
    by (simp only: distinct_map distinct_upt set_upt word_offset_inj simp_thms)
  then show ?thesis
    by (auto simp: rm_get_missing_sequences_def Let_def split: option.splits
        simp del: upt_Suc intro!: distinct_filter)
qed

lemma rm_get_missing_length: "length (rm_get_missing_sequences L ep s) \<le> WINDOW_SIZE"
proof -
  have "length (filter P (map f [1..<Suc WINDOW_SIZE])) \<le> WINDOW_SIZE" for P :: "u8 \<Rightarrow> bool" and f
    using length_filter_le [of P "map f [1..<Suc WINDOW_SIZE]"] by (simp del: upt_Suc)
  then show ?thesis
    by (auto simp: rm_get_missing_sequences_def Let_def split: option.splits simp del: upt_Suc)
qed

lemma rm_get_missing_iff:
  assumes "rm_role s = ROVER" and "rm_received_sequences s (get_endpoint_key L ep) = Some m"
    and "m \<noteq> []"
  shows "q \<in> set (rm_get_missing_sequences L ep s) \<longleftrightarrow>
         map_of m q = None \<and> (\<exists>i. 1 \<le> i \<and> i \<le> WINDOW_SIZE \<and> q = fst (last m) - word_of_nat i)"
  using assms by (auto simp: rm_get_missing_sequences_def Let_def simp del: upt_Suc)

subsection \<open>Representation invariant\<close>

text \<open>
  The ordered maps are sorted, no packet was retransmitted more than \<open>RELIABILITY_MAX_RETRIES\<close> times,
  and a rover never records acknowledgements.
\<close>

definition rm_inv :: "'a reliability_manager_scheme \<Rightarrow> bool" where
  "rm_inv s \<longleftrightarrow>
     smap_inv (rm_sent_packets s) \<and> smap_inv (rm_recent_naks s) \<and>
     (\<forall>k m. rm_received_sequences s k = Some m \<longrightarrow> smap_inv m) \<and>
     (\<forall>(seq, info) \<in> set (rm_sent_packets s).
        0 \<le> sp_retry_count info \<and> sp_retry_count info \<le> RELIABILITY_MAX_RETRIES) \<and>
     (rm_role s = ROVER \<longrightarrow> rm_acked_sequences s = Map.empty)"

lemma rm_inv_init: "rm_inv (ReliabilityManager b s)"
  by (simp add: rm_inv_def ReliabilityManager_def)

lemma rm_inv_add_send_packet: "rm_inv s \<Longrightarrow> rm_inv (rm_add_send_packet seq p ep s)"
  using smap_emplace_ball [of "rm_sent_packets s" "\<lambda>seq info. 0 \<le> sp_retry_count info \<and>
      sp_retry_count info \<le> RELIABILITY_MAX_RETRIES" seq
      "\<lparr>sp_packet = p, sp_sent_time = steady_now s, sp_retry_count = 0, sp_recipient = ep\<rparr>"]
  by (simp add: rm_inv_def rm_add_send_packet_def sm.inv_emplace RELIABILITY_MAX_RETRIES_def)

lemma rm_inv_process_ack: "rm_inv s \<Longrightarrow> rm_inv (rm_process_ack seq s)"
  by (auto simp: rm_inv_def rm_process_ack_def smap_erase_def smap_inv_filter split: option.splits)

lemma rm_inv_record_received: "rm_inv s \<Longrightarrow> rm_inv (rm_record_received_sequence L seq ep s)"
  by (auto simp: rm_inv_def rm_record_received_sequence_def Let_def smap_inv_assign
      split: option.splits if_splits)

lemma rm_inv_record_nak_sent: "rm_inv s \<Longrightarrow> rm_inv (rm_record_nak_sent seq s)"
  by (auto simp: rm_inv_def rm_record_nak_sent_def smap_inv_assign)

lemma rm_inv_record_acked: "rm_inv s \<Longrightarrow> rm_inv (rm_record_acked_sequence L seq ep s)"
  by (auto simp: rm_inv_def rm_record_acked_sequence_def Let_def)

lemma rm_inv_cleanup: "rm_inv s \<Longrightarrow> rm_inv (rm_cleanup_old_entries s)"
  by (auto simp: rm_inv_def rm_cleanup_old_entries_def Let_def smap_inv_filter)

lemma rm_inv_reset: "rm_inv (rm_reset_state s)"
  by (simp add: rm_inv_def rm_reset_state_def)

lemma rm_inv_kept:
  assumes "\<forall>(seq, info) \<in> set m. 0 \<le> sp_retry_count info \<and> sp_retry_count info \<le> RELIABILITY_MAX_RETRIES"
  shows "\<forall>(seq, info) \<in> set (map (\<lambda>(seq, info). (seq, bumped now info))
             (filter (\<lambda>(seq, info). \<not> given_up now info) m)).
           0 \<le> sp_retry_count info \<and> sp_retry_count info \<le> RELIABILITY_MAX_RETRIES"
  using assms by (fastforce simp: bumped_def due_def given_up_def)

subsection \<open>Properties of the reliability manager\<close>

text \<open>C23: one retransmission check of a rover sends again exactly the tracked packets that have
  waited longer than \<open>5000 * 2^retry_count\<close> milliseconds and have a retry left, in sequence-number
  order, restarts their clocks, drops exactly those whose retries are used up, and leaves every
  other entry as it was. A base station's check sends nothing and changes nothing.\<close>

theorem retransmission_check:
  assumes "\<And>ep s. rm_role (on_timeout ep s) = rm_role s"
  shows "(rm_role s = ROVER \<longrightarrow>
           fst (rm_get_packets_to_retransmit on_timeout s) =
             [(sp_packet info, sp_recipient info). (seq, info) \<leftarrow> rm_sent_packets s,
                timed_out (steady_now s) info \<and> sp_retry_count info < RELIABILITY_MAX_RETRIES]
           \<and> rm_sent_packets (snd (rm_get_packets_to_retransmit on_timeout s)) =
             [(seq, if timed_out (steady_now s) info
                    then info\<lparr>sp_sent_time := steady_now s, sp_retry_count := sp_retry_count info + 1\<rparr>
                    else info). (seq, info) \<leftarrow> rm_sent_packets s,
                \<not> (timed_out (steady_now s) info \<and> sp_retry_count info \<ge> RELIABILITY_MAX_RETRIES)])
     \<and> (rm_role s = BASE_STATION \<longrightarrow> rm_get_packets_to_retransmit on_timeout s = ([], s))"
proof -
  have sel: "[(sp_packet info, sp_recipient info). (seq, info) \<leftarrow> m, P info]
      = map (\<lambda>(seq, info). (sp_packet info, sp_recipient info)) (filter (\<lambda>(seq, info). P info) m)"
    for P and m :: "(u8, sent_packet_info) smap"
    by (induction m) auto
  have kept: "[(seq, if timed_out t info
                    then info\<lparr>sp_sent_time := t, sp_retry_count := sp_retry_count info + 1\<rparr>
                    else info). (seq, info) \<leftarrow> m,
                \<not> (timed_out t info \<and> sp_retry_count info \<ge> RELIABILITY_MAX_RETRIES)]
      = map (\<lambda>(seq, info). (seq, bumped t info)) (filter (\<lambda>(seq, info). \<not> given_up t info) m)"
    for t and m :: "(u8, sent_packet_info) smap"
    by (induction m) (auto simp: bumped_def due_def given_up_def)
  show ?thesis
    unfolding sel kept
    using rm_get_packets_rover [where on_timeout = on_timeout and s = s, OF _ assms]
      retransmit_loop_base [of s]
    by (auto simp: due_def [abs_def] rm_get_packets_to_retransmit_def)
qed

text \<open>Concrete managers for the examples.\<close>

definition sample_manager :: "role \<Rightarrow> (u8, sent_packet_info) smap \<Rightarrow> reliability_manager" where
  "sample_manager r m =
     \<lparr>steady_now = ms 6000, system_now = 0, server = None, client = None, rm_sent_packets = m,
      rm_acked_sequences = Map.empty, rm_received_sequences = Map.empty, rm_recent_naks = [],
      rm_retransmit_timer = \<lparr>tm_expiry = 0, tm_waiting = True\<rparr>,
      rm_cleanup_timer = \<lparr>tm_expiry = 0, tm_waiting = True\<rparr>, rm_retransmit_callback = True,
      rm_timeout_callback = True, rm_running = True, rm_role = r, rm_last_ack_cleanup_time = 0,
      rm_consecutive_timeouts_to_base = 0\<rparr>"

definition sample_sent :: "time_point \<Rightarrow> int \<Rightarrow> sent_packet_info" where
  "sample_sent t n =
     \<lparr>sp_packet = sample_packet, sp_sent_time = t, sp_retry_count = n,
      sp_recipient = \<lparr>ep_address = 1, ep_port = 9000\<rparr>\<rparr>"

lemma sample_timed_out:
  "timed_out (ms 6000) (sample_sent 0 0)" "\<not> timed_out (ms 6000) (sample_sent 0 1)"
  by (simp_all add: timed_out_def sample_sent_def retry_timeout_def RELIABILITY_BASE_TIMEOUT_def to_ms_def
      ms_def)

theorem retransmission_check_witness:
  "fst (rm_get_packets_to_retransmit (\<lambda>ep s. s)
      (sample_manager ROVER [(7, sample_sent 0 0), (9, sample_sent 0 1)]))
   = [(sample_packet, \<lparr>ep_address = 1, ep_port = 9000\<rparr>)]"
proof -
  let ?s = "sample_manager ROVER [(7, sample_sent 0 0), (9, sample_sent 0 1)]"
  have "steady_now ?s = ms 6000" "rm_role ?s = ROVER"
    "rm_sent_packets ?s = [(7, sample_sent 0 0), (9, sample_sent 0 1)]"
    by (simp_all add: sample_manager_def)
  then show ?thesis
    using retransmission_check [of "\<lambda>ep s. s" ?s] sample_timed_out
    by (simp add: sample_sent_def RELIABILITY_MAX_RETRIES_def)
qed

text \<open>C11: over any sequence of retransmission checks a rover retransmits at most
  \<open>RELIABILITY_MAX_RETRIES\<close> times as many packets as it was tracking; no schedule of the timer makes
  it send more.\<close>

theorem retransmissions_bounded:
  assumes "rm_role s = ROVER" and "\<And>ep s. rm_role (on_timeout ep s) = rm_role s" and "rm_inv s"
  shows "length (concat (fst (retransmission_run on_timeout ts s)))
         \<le> nat RELIABILITY_MAX_RETRIES * length (rm_sent_packets s)"
proof -
  have "\<forall>(seq, info) \<in> set (rm_sent_packets s). 0 \<le> sp_retry_count info"
    using assms(3) by (auto simp: rm_inv_def)
  then show ?thesis
    using retransmission_run_bound [where ts = ts and on_timeout = on_timeout, OF assms(1,2)] retries_left_le [of "rm_sent_packets s"]
    by (simp add: RELIABILITY_MAX_RETRIES_def)
qed

lemma sample_manager_inv: "rm_inv (sample_manager ROVER [(7, sample_sent 0 0)])"
  by (simp add: rm_inv_def sample_manager_def smap_inv_def sample_sent_def RELIABILITY_MAX_RETRIES_def)

theorem retransmissions_bounded_witness:
  "length (concat (fst (retransmission_run (\<lambda>ep s. s) [ms 6000, ms 30000, ms 90000]
      (sample_manager ROVER [(7, sample_sent 0 0)])))) \<le> 2"
  using retransmissions_bounded [OF _ _ sample_manager_inv, of "\<lambda>ep s. s" "[ms 6000, ms 30000, ms 90000]"]
  by (simp add: sample_manager_def RELIABILITY_MAX_RETRIES_def)

text \<open>C24: a peer that never acknowledges is given up on: three checks, each more than 20 seconds (the
  longest back-off) after the previous one and after the packets were sent, empty the table.\<close>

theorem unacknowledged_packets_dropped:
  assumes "rm_role s = ROVER" and "\<And>ep s. rm_role (on_timeout ep s) = rm_role s" and "rm_inv s"
    and "\<forall>(seq, info) \<in> set (rm_sent_packets s). sp_sent_time info + ms 20001 \<le> t1"
    and "t1 + ms 20001 \<le> t2" and "t2 + ms 20001 \<le> t3"
  shows "rm_sent_packets (snd (retransmission_run on_timeout [t1, t2, t3] s)) = []"
proof -
  let ?m1 = "checked_table (rm_sent_packets s) t1" let ?m2 = "checked_table ?m1 t2"
  have "\<forall>(seq, info) \<in> set (rm_sent_packets s). 0 \<le> sp_retry_count info
      \<and> sp_retry_count info \<le> RELIABILITY_MAX_RETRIES \<and> sp_sent_time info + ms 20001 \<le> t1"
    using assms(3,4) by (auto simp: rm_inv_def)
  from late_check [OF this]
  have "\<forall>(seq, info) \<in> set ?m1. 1 \<le> sp_retry_count info
      \<and> sp_retry_count info \<le> RELIABILITY_MAX_RETRIES \<and> sp_sent_time info + ms 20001 \<le> t2"
    using assms(5) by auto
  from late_check [OF this]
  have "\<forall>(seq, info) \<in> set ?m2. 2 \<le> sp_retry_count info
      \<and> sp_retry_count info \<le> RELIABILITY_MAX_RETRIES \<and> sp_sent_time info + ms 20001 \<le> t3"
    using assms(6) by auto
  from late_check [OF this]
  have "e \<notin> set (checked_table ?m2 t3)" for e
    by (cases e) (auto simp: RELIABILITY_MAX_RETRIES_def)
  then have "checked_table ?m2 t3 = []" by (metis list.set_intros(1) neq_Nil_conv)
  then show ?thesis
    using retransmission_run_table [where ts = "[t1, t2, t3]" and on_timeout = on_timeout, OF assms(1,2)]
    by simp
qed

theorem unacknowledged_packets_dropped_witness:
  "rm_sent_packets (snd (retransmission_run (\<lambda>ep s. s) [ms 20001, ms 40002, ms 60003]
      (sample_manager ROVER [(7, sample_sent 0 0)]))) = []"
  by (rule unacknowledged_packets_dropped [OF _ _ sample_manager_inv])
    (simp_all add: sample_manager_def sample_sent_def ms_def)

text \<open>C25: an acknowledged packet is never retransmitted again: whatever the schedule of the later checks,
  a rover that has processed the ACK sends, check by check, exactly what it would have sent without
  it, less every packet with the acknowledged number. Every tracked packet has to be stored under
  its own number, which holds in every reachable state of a rover. The timeout counter is cleared
  only if a packet with that number was being tracked.\<close>

theorem ack_stops_retransmission:
  assumes "rm_running s" and "rm_role s = ROVER" and "\<And>ep s. rm_role (on_timeout ep s) = rm_role s"
    and "\<forall>(q, info) \<in> set (rm_sent_packets s). hdr_sequence (pkt_header (sp_packet info)) = q"
  shows "fst (retransmission_run on_timeout ts (rm_process_ack seq s)) =
      map (filter (\<lambda>(packet, ep). hdr_sequence (pkt_header packet) \<noteq> seq))
        (fst (retransmission_run on_timeout ts s))
    \<and> rm_consecutive_timeouts_to_base (rm_process_ack seq s) =
        (if map_of (rm_sent_packets s) seq = None then rm_consecutive_timeouts_to_base s else 0)"
proof -
  note run = retransmission_run_sent [where on_timeout = on_timeout and ts = ts, OF _ assms(3)]
  note ack = process_ack_table [OF assms(1,2), of seq]
  have "keyed (rm_sent_packets s)" using assms(4) by (simp add: keyed_def)
  from sent_again_erase [OF this, of seq ts]
  have "fst (retransmission_run on_timeout ts (rm_process_ack seq s)) =
      map (filter (\<lambda>(packet, ep). hdr_sequence (pkt_header packet) \<noteq> seq))
        (fst (retransmission_run on_timeout ts s))"
    using run [OF ack(2)] run [OF assms(2)] ack(1) by simp
  then show ?thesis
    using assms(1,2) by (simp add: rm_process_ack_def split: option.splits)
qed

theorem ack_stops_retransmission_witness:
  "fst (retransmission_run (\<lambda>ep s. s) [ms 6000, ms 30000]
      (rm_process_ack 7 (sample_manager ROVER [(7, sample_sent 0 0)])))
   = map (filter (\<lambda>(packet, ep). hdr_sequence (pkt_header packet) \<noteq> 7))
       (fst (retransmission_run (\<lambda>ep s. s) [ms 6000, ms 30000] (sample_manager ROVER [(7, sample_sent 0 0)])))"
proof -
  let ?s = "sample_manager ROVER [(7, sample_sent 0 0)]"
  have "rm_running ?s" "rm_role ?s = ROVER"
    "\<forall>(q, info) \<in> set (rm_sent_packets ?s). hdr_sequence (pkt_header (sp_packet info)) = q"
    by (simp_all add: sample_manager_def sample_sent_def sample_packet_def)
  from ack_stops_retransmission [where on_timeout = "\<lambda>ep s. s" and ts = "[ms 6000, ms 30000]" and seq = 7,
      OF this(1,2) _ this(3)]
  show ?thesis by (rule conjunct1) simp
qed

text \<open>C26: on a base station, recording an acknowledgement makes exactly that sequence number known for
  exactly that peer: other peers and other numbers are not affected. Address texts have to identify
  addresses.\<close>

theorem acknowledged_per_peer:
  assumes "addr_text_ok L" and "rm_role s = BASE_STATION"
  shows "rm_has_acked_sequence L seq' ep' (rm_record_acked_sequence L seq ep s) \<longleftrightarrow>
           rm_has_acked_sequence L seq' ep' s \<or> (seq' = seq \<and> ep' = ep)"
  using led.acked_record [of s L seq' ep' seq ep] assms by (simp add: get_endpoint_key_inj)

theorem acknowledged_per_peer_witness:
  "rm_has_acked_sequence (sample_lib (\<lambda>_. None) (\<lambda>_. None)) 5 \<lparr>ep_address = 2, ep_port = 9\<rparr>
     (rm_record_acked_sequence (sample_lib (\<lambda>_. None) (\<lambda>_. None)) 5 \<lparr>ep_address = 1, ep_port = 9\<rparr>
        (sample_manager BASE_STATION [])) = False"
  using acknowledged_per_peer [of "sample_lib (\<lambda>_. None) (\<lambda>_. None)" "sample_manager BASE_STATION []" 5
      "\<lparr>ep_address = 2, ep_port = 9\<rparr>" 5 "\<lparr>ep_address = 1, ep_port = 9\<rparr>"]
  by (simp add: sample_manager_def rm_has_acked_sequence_def)

text \<open>C27: \<open>get_missing_sequences\<close> on a rover that has received something from the peer returns,
  without repetition, exactly those of the \<open>WINDOW_SIZE\<close> numbers below (modulo 256) the numerically
  highest number received from it that were not received from it.\<close>

theorem missing_sequences:
  assumes "rm_inv s" and "rm_received_sequences s (get_endpoint_key L ep) = Some m" and "m \<noteq> []"
    and "rm_role s = ROVER"
  shows "distinct (rm_get_missing_sequences L ep s)
    \<and> length (rm_get_missing_sequences L ep s) \<le> WINDOW_SIZE
    \<and> (\<exists>high \<in> fst ` set m. (\<forall>q \<in> fst ` set m. q \<le> high) \<and>
         (\<forall>q. q \<in> set (rm_get_missing_sequences L ep s) \<longleftrightarrow>
            q \<notin> fst ` set m \<and> (\<exists>i. 1 \<le> i \<and> i \<le> WINDOW_SIZE \<and> q = high - word_of_nat i)))"
proof -
  have "smap_inv m" using assms(1,2) by (simp add: rm_inv_def)
  then have "\<forall>q \<in> fst ` set m. q \<le> fst (last m)" using smap_last_max by blast
  moreover have "fst (last m) \<in> fst ` set m" using assms(3) by simp
  moreover have "q \<in> set (rm_get_missing_sequences L ep s) \<longleftrightarrow>
      q \<notin> fst ` set m \<and> (\<exists>i. 1 \<le> i \<and> i \<le> WINDOW_SIZE \<and> q = fst (last m) - word_of_nat i)" for q
    using rm_get_missing_iff [OF assms(4,2,3), of q] by (simp add: map_of_eq_None_iff)
  ultimately show ?thesis
    using rm_get_missing_distinct [of L ep s] rm_get_missing_length [of L ep s] by blast
qed

theorem missing_sequences_witness:
  "distinct (rm_get_missing_sequences (sample_lib (\<lambda>_. None) (\<lambda>_. None)) \<lparr>ep_address = 1, ep_port = 9\<rparr>
     ((sample_manager ROVER [])\<lparr>rm_received_sequences := (\<lambda>k. Some [(0, 5), (3, 6)])\<rparr>))"
  using missing_sequences [of "(sample_manager ROVER [])\<lparr>rm_received_sequences := (\<lambda>k. Some [(0, 5), (3, 6)])\<rparr>"
      "sample_lib (\<lambda>_. None) (\<lambda>_. None)" "\<lparr>ep_address = 1, ep_port = 9\<rparr>" "[(0, 5), (3, 6)]"]
  by (simp add: sample_manager_def rm_inv_def smap_inv_def)

text \<open>C40: after the very first packet of a peer, with sequence number 0, a rover regards sixteen
  numbers (255 down to 240) as missing although they were never sent: the window check does not
  know where the numbering started.\<close>

theorem first_packet_reports_gaps:
  assumes "rm_running s" and "rm_role s = ROVER"
    and "rm_received_sequences s (get_endpoint_key L ep) = None"
  shows "rm_get_missing_sequences L ep (rm_record_received_sequence L 0 ep s)
         = map (\<lambda>i. - word_of_nat i) [1..<17]"
proof -
  have "(- word_of_nat i :: u8) \<noteq> 0" if "i \<in> {1..<17}" for i
  proof
    assume "(- word_of_nat i :: u8) = 0"
    then have "(word_of_nat i :: u8) = 0" by simp
    then have "unat (word_of_nat i :: u8) = 0" by simp
    then show False using that by (simp add: unat_of_nat)
  qed
  then have "filter (\<lambda>q. q \<noteq> 0) (map (\<lambda>i. - word_of_nat i :: u8) [1..<17])
             = map (\<lambda>i. - word_of_nat i) [1..<17]"
    by (intro filter_True) (auto simp del: upt_rec_numeral)
  then show ?thesis
    using assms by (simp add: rm_get_missing_sequences_def rm_record_received_sequence_def Let_def
        WINDOW_SIZE_def del: upt_Suc upt_rec_numeral)
qed

theorem first_packet_reports_gaps_witness:
  "length (rm_get_missing_sequences (sample_lib (\<lambda>_. None) (\<lambda>_. None)) no_endpoint
     (rm_record_received_sequence (sample_lib (\<lambda>_. None) (\<lambda>_. None)) 0 no_endpoint (sample_manager ROVER [])))
   = 16"
  using first_packet_reports_gaps [of "sample_manager ROVER []" "sample_lib (\<lambda>_. None) (\<lambda>_. None)" no_endpoint]
  by (simp add: sample_manager_def del: upt_rec_numeral)



end
