(* ===== verification/Lumen_Protocol.thy ===== *)
theory Lumen_Protocol
  imports Reliability_Manager
begin

text \<open>
  The class \<open>LumenProtocol\<close> (\<open>include/common/lumen_protocol.hpp\<close>,
  \<open>src/common/lumen_protocol.cpp\<close>): framing of the byte stream of each peer, acknowledgements and
  duplicate suppression on the base station, NAKs for gaps on the rover, sequence numbers, and
  transmission over the node's transport. The record extends that of the reliability manager.

  The message callback is an argument. In the program it is always
  \<open>MessageManager::handle_lumen_message\<close>, which catches every exception, so it is a total function on
  the node; it runs while \<open>frame_buffers_mutex_\<close> is held and therefore cannot touch the frame
  buffers, which is why the loop of \<open>process_frame_buffer\<close> works on the buffer as a local value and
  stores it at the end.
\<close>

datatype ProtocolMode = MODE_BASE_STATION | MODE_ROVER

definition MAX_FRAME_BUFFER_SIZE :: nat where "MAX_FRAME_BUFFER_SIZE = 4096"

definition MAX_NAKS_PER_CHECK :: nat where "MAX_NAKS_PER_CHECK = 3"

record lumen_protocol = reliability_manager +
  lp_mode :: ProtocolMode
  lp_frame_buffers :: "string \<Rightarrow> bytes option"
  lp_endpoint_map :: "string \<Rightarrow> endpoint option"
  lp_current_sequence :: u8
  lp_message_callback :: bool
  lp_running :: bool
  lp_session_active :: bool
  \<comment> \<open>the function-local \<open>static uint8_t check_counter\<close>\<close>
  lp_check_counter :: u8

type_synonym 'a message_callback =
  "bytes \<Rightarrow> lumen_header \<Rightarrow> endpoint \<Rightarrow> 'a lumen_protocol_scheme \<Rightarrow> 'a lumen_protocol_scheme"

type_synonym 'a timeout_callback =
  "endpoint \<Rightarrow> 'a lumen_protocol_scheme \<Rightarrow> 'a lumen_protocol_scheme"

subsection \<open>Construction and life cycle\<close>

text \<open>The fields the two constructors initialise alike.\<close>

definition lp_init :: "ProtocolMode \<Rightarrow> 'a lumen_protocol_scheme \<Rightarrow> 'a lumen_protocol_scheme" where
  "lp_init mode s =
     s\<lparr>lp_mode := mode, lp_frame_buffers := Map.empty, lp_endpoint_map := Map.empty,
       lp_current_sequence := 0, lp_message_callback := False, lp_running := False,
       lp_session_active := False\<rparr>"

definition LumenProtocol_base ::
  "udp_server \<Rightarrow> 'a lumen_protocol_scheme \<Rightarrow> 'a lumen_protocol_scheme" where
  "LumenProtocol_base srv s =
     (let s1 = lp_init MODE_BASE_STATION (s\<lparr>server := Some srv, client := None\<rparr>);
          s2 = rm_set_retransmit_callback (ReliabilityManager True s1)
      in s2\<lparr>server := map_option srv_set_receive_callback (server s2)\<rparr>)"

definition LumenProtocol_rover ::
  "udp_client \<Rightarrow> 'a lumen_protocol_scheme \<Rightarrow> 'a lumen_protocol_scheme" where
  "LumenProtocol_rover cl s =
     (let s1 = lp_init MODE_ROVER (s\<lparr>server := None, client := Some cl\<rparr>);
          s2 = rm_set_retransmit_callback (ReliabilityManager False s1)
      in s2\<lparr>client := map_option cl_set_receive_callback (client s2)\<rparr>)"

definition lp_set_timeout_callback :: "'a lumen_protocol_scheme \<Rightarrow> 'a lumen_protocol_scheme" where
  "lp_set_timeout_callback s = rm_set_timeout_callback s"

definition lp_set_message_callback :: "'a lumen_protocol_scheme \<Rightarrow> 'a lumen_protocol_scheme" where
  "lp_set_message_callback s = s\<lparr>lp_message_callback := True\<rparr>"

definition lp_set_session_active ::
  "bool \<Rightarrow> 'a lumen_protocol_scheme \<Rightarrow> 'a lumen_protocol_scheme" where
  "lp_set_session_active active s = s\<lparr>lp_session_active := active\<rparr>"

definition lp_get_current_sequence :: "'a lumen_protocol_scheme \<Rightarrow> u8" where
  "lp_get_current_sequence s = lp_current_sequence s"

definition lp_stop :: "'a lumen_protocol_scheme \<Rightarrow> 'a lumen_protocol_scheme" where
  "lp_stop s = (if \<not> lp_running s then s else rm_stop (s\<lparr>lp_running := False\<rparr>))"

definition lp_reset_sequence_number :: "'a lumen_protocol_scheme \<Rightarrow> 'a lumen_protocol_scheme" where
  "lp_reset_sequence_number s =
     (rm_reset_state (s\<lparr>lp_current_sequence := 0\<rparr>))\<lparr>lp_frame_buffers := Map.empty\<rparr>"

text \<open>\<open>millis & 0xFFFFFFFF\<close> of the wall clock.\<close>

definition generate_timestamp :: "'a net_scheme \<Rightarrow> u32" where
  "generate_timestamp s = word_of_int (to_ms (system_now s))"

subsection \<open>Sending\<close>

text \<open>
  \<open>client_->get_base_endpoint()\<close>; the constructor for the rover mode never leaves the pointer null.
\<close>

definition client_base_endpoint :: "'a net_scheme \<Rightarrow> exn + endpoint" where
  "client_base_endpoint s =
     (case client s of
        None \<Rightarrow> Inl (runtime_error ''UdpClient is not initialized'')
      | Some c \<Rightarrow> cl_get_base_endpoint c)"

definition lp_send_packet ::
  "lumen_packet \<Rightarrow> endpoint \<Rightarrow> 'a lumen_protocol_scheme \<Rightarrow> 'a lumen_protocol_scheme" where
  "lp_send_packet packet recipient s =
     (let data = packet_to_bytes packet
      in case lp_mode s of
           MODE_BASE_STATION \<Rightarrow>
             (case server s of
                None \<Rightarrow> s
              | Some srv \<Rightarrow> s\<lparr>server := Some (srv_send_data data recipient srv)\<rparr>)
         | MODE_ROVER \<Rightarrow>
             (case client s of
                None \<Rightarrow> s
              | Some c \<Rightarrow>
                  let sending_to_base =
                        (case cl_get_base_endpoint c of
                           Inr base \<Rightarrow> recipient = base
                         | Inl e \<Rightarrow> False)
                  in s\<lparr>client := Some (if sending_to_base then state_of (cl_send_data data c)
                                       else cl_send_data_to data recipient c)\<rparr>))"

definition lp_handle_retransmission ::
  "lumen_packet \<Rightarrow> endpoint \<Rightarrow> 'a lumen_protocol_scheme \<Rightarrow> 'a lumen_protocol_scheme" where
  "lp_handle_retransmission packet ep s = lp_send_packet packet ep s"

definition lp_start ::
  "'a timeout_callback \<Rightarrow> 'a lumen_protocol_scheme \<Rightarrow> 'a lumen_protocol_scheme" where
  "lp_start on_timeout s =
     (if lp_running s then s
      else rm_start lp_send_packet on_timeout
             (s\<lparr>lp_running := True, lp_frame_buffers := Map.empty, lp_endpoint_map := Map.empty\<rparr>))"

text \<open>
  \<open>send_message\<close>: the sequence number is consumed before the recipient is checked, and on a rover
  without a registered base the exception of \<open>get_base_endpoint\<close> passes to the caller.
\<close>

definition lp_send_message ::
  "bytes \<Rightarrow> MessageType \<Rightarrow> Priority \<Rightarrow> endpoint \<Rightarrow> 'a lumen_protocol_scheme \<Rightarrow>
   'a lumen_protocol_scheme result" where
  "lp_send_message payload type priority recipient s =
     (if \<not> lp_running s then Inr s
      else
        let seq = lp_current_sequence s;
            s1 = s\<lparr>lp_current_sequence := seq + 1\<rparr>;
            header = \<lparr>hdr_type = type, hdr_priority = priority, hdr_sequence = seq,
                      hdr_timestamp = generate_timestamp s1,
                      hdr_payload_length = word_of_nat (length payload)\<rparr>;
            packet = LumenPacket header payload;
            transmit = (\<lambda>target_endpoint.
              lp_send_packet packet target_endpoint
                (if type \<noteq> ACK \<and> type \<noteq> NAK then rm_add_send_packet seq packet target_endpoint s1
                 else s1))
        in case lp_mode s1 of
             MODE_BASE_STATION \<Rightarrow>
               if is_unspecified recipient then Inr s1 else Inr (transmit recipient)
           | MODE_ROVER \<Rightarrow>
               if \<not> is_unspecified recipient then Inr (transmit recipient)
               else (case client_base_endpoint s1 of
                       Inl e \<Rightarrow> Inl (e, s1)
                     | Inr base \<Rightarrow> Inr (transmit base)))"

text \<open>An ACK or NAK packet: one payload byte, high priority, a sequence number of its own.\<close>

definition control_packet :: "MessageType \<Rightarrow> u8 \<Rightarrow> u8 \<Rightarrow> u32 \<Rightarrow> lumen_packet" where
  "control_packet type about seq timestamp =
     LumenPacket \<lparr>hdr_type = type, hdr_priority = HIGH, hdr_sequence = seq,
                  hdr_timestamp = timestamp, hdr_payload_length = word_of_nat (length [about])\<rparr> [about]"

definition lp_send_ack ::
  "lib \<Rightarrow> u8 \<Rightarrow> endpoint \<Rightarrow> 'a lumen_protocol_scheme \<Rightarrow> 'a lumen_protocol_scheme" where
  "lp_send_ack L seq_to_ack recipient s =
     (if lp_mode s \<noteq> MODE_BASE_STATION then s
      else
        let s1 = rm_record_acked_sequence L seq_to_ack recipient s;
            timestamp = generate_timestamp s1;
            ack_seq = lp_current_sequence s1;
            s2 = s1\<lparr>lp_current_sequence := ack_seq + 1\<rparr>
        in lp_send_packet (control_packet ACK seq_to_ack ack_seq timestamp) recipient s2)"

definition lp_send_nak :: "u8 \<Rightarrow> 'a lumen_protocol_scheme \<Rightarrow> 'a lumen_protocol_scheme" where
  "lp_send_nak seq_requested s =
     (if lp_mode s \<noteq> MODE_ROVER then s
      else case client_base_endpoint s of
             Inl e \<Rightarrow> s
           | Inr base_endpoint \<Rightarrow>
               let timestamp = generate_timestamp s;
                   nak_seq = lp_current_sequence s;
                   s1 = s\<lparr>lp_current_sequence := nak_seq + 1\<rparr>
               in lp_send_packet (control_packet NAK seq_requested nak_seq timestamp) base_endpoint s1)"

text \<open>The loop of \<open>check_sequence_gaps\<close>, with its early exit after three NAKs.\<close>

fun nak_loop ::
  "u8 list \<Rightarrow> nat \<Rightarrow> 'a lumen_protocol_scheme \<Rightarrow> 'a lumen_protocol_scheme" where
  "nak_loop [] nak_count s = s"
| "nak_loop (missing_seq # missing_seqs) nak_count s =
     (if \<not> rm_is_recently_naked missing_seq s then
        let s1 = rm_record_nak_sent missing_seq (lp_send_nak missing_seq s)
        in if nak_count + 1 \<ge> MAX_NAKS_PER_CHECK then s1
           else nak_loop missing_seqs (nak_count + 1) s1
      else nak_loop missing_seqs nak_count s)"

definition lp_check_sequence_gaps ::
  "lib \<Rightarrow> endpoint \<Rightarrow> 'a lumen_protocol_scheme \<Rightarrow> 'a lumen_protocol_scheme" where
  "lp_check_sequence_gaps L ep s = nak_loop (rm_get_missing_sequences L ep s) 0 s"

subsection \<open>Receiving\<close>

text \<open>
  \<open>process_complete_packet\<close>. The value \<open>forward\<close> is the local \<open>forward_payload\<close> after the base
  station's duplicate check.
\<close>

definition lp_process_complete_packet ::
  "lib \<Rightarrow> 'a message_callback \<Rightarrow> lumen_packet \<Rightarrow> endpoint \<Rightarrow> 'a lumen_protocol_scheme \<Rightarrow>
   'a lumen_protocol_scheme" where
  "lp_process_complete_packet L cb packet ep s =
     (let header = pkt_header packet;
          payload = pkt_payload packet;
          type = hdr_type header;
          seq = hdr_sequence header;
          s0 = rm_record_received_sequence L seq ep s
      in if type = ACK then
           (if lp_mode s0 = MODE_ROVER \<and> length payload \<ge> 1 then rm_process_ack (payload ! 0) s0
            else s0)
         else if type = NAK then
           (if lp_mode s0 = MODE_BASE_STATION \<and> length payload \<ge> 1
            then rm_process_nak lp_send_packet (payload ! 0) s0
            else s0)
         else
           let (forward, s1) =
                 (if lp_mode s0 = MODE_BASE_STATION then
                    let already_acked = rm_has_acked_sequence L seq ep s0
                    in if lp_session_active s0 then
                         if \<not> already_acked
                         then (True, lp_send_ack L seq ep (rm_record_acked_sequence L seq ep s0))
                         else (False, lp_send_ack L seq ep s0)
                       else (\<not> already_acked, s0)
                  else (True, s0));
               s2 = (if lp_mode s1 = MODE_ROVER then
                       let counter = lp_check_counter s1 + 1;
                           s' = s1\<lparr>lp_check_counter := counter\<rparr>
                       in if counter mod 5 = 0 then lp_check_sequence_gaps L ep s' else s'
                     else s1)
           in if forward \<and> lp_message_callback s2 then cb payload header ep s2 else s2)"

text \<open>The position of the next STX after the first byte.\<close>

definition next_stx_pos :: "bytes \<Rightarrow> nat option" where
  "next_stx_pos buffer = List.find (\<lambda>i. buffer ! i = LUMEN_STX) [1..<length buffer]"

lemma next_stx_pos_pos: "next_stx_pos buffer = Some i \<Longrightarrow> 0 < i \<and> i < length buffer"
  by (auto simp: next_stx_pos_def find_Some_iff)

text \<open>The loop of \<open>process_frame_buffer\<close>: it returns the bytes left in the buffer.\<close>

function frame_loop ::
  "lib \<Rightarrow> 'a message_callback \<Rightarrow> endpoint \<Rightarrow> bytes \<Rightarrow> 'a lumen_protocol_scheme \<Rightarrow>
   bytes \<times> 'a lumen_protocol_scheme" where
  "frame_loop L cb ep buffer s =
     (if buffer = [] then ([], s)
      else case packet_from_bytes buffer of
        None \<Rightarrow>
          (case header_from_bytes buffer of
             Some header \<Rightarrow>
               let expected_total_size = LUMEN_HEADER_SIZE + unat (hdr_payload_length header) + 2
               in if length buffer \<ge> expected_total_size
                  then frame_loop L cb ep (drop expected_total_size buffer) s
                  else (buffer, s)
           | None \<Rightarrow>
               (case next_stx_pos buffer of
                  Some next_stx \<Rightarrow> frame_loop L cb ep (drop next_stx buffer) s
                | None \<Rightarrow>
                    (if length buffer > MAX_FRAME_BUFFER_SIZE div 2 then [] else buffer, s)))
      | Some packet \<Rightarrow>
          if total_size packet \<le> length buffer
          then frame_loop L cb ep (drop (total_size packet) buffer)
                 (lp_process_complete_packet L cb packet ep s)
          else ([], s))"
  by pat_completeness auto
termination
  by (relation "measure (\<lambda>(L, cb, ep, buffer, s). length buffer)")
    (auto dest: next_stx_pos_pos simp: LUMEN_HEADER_SIZE_def total_size_def)

declare frame_loop.simps [simp del]

definition lp_process_frame_buffer ::
  "lib \<Rightarrow> 'a message_callback \<Rightarrow> string \<Rightarrow> endpoint \<Rightarrow> 'a lumen_protocol_scheme \<Rightarrow>
   'a lumen_protocol_scheme" where
  "lp_process_frame_buffer L cb endpoint_key ep s =
     (case lp_frame_buffers s endpoint_key of
        None \<Rightarrow> s
      | Some buffer \<Rightarrow>
          let (buffer', s') = frame_loop L cb ep buffer s
          in s'\<lparr>lp_frame_buffers := (lp_frame_buffers s')
                 (endpoint_key \<mapsto> (if length buffer' > MAX_FRAME_BUFFER_SIZE then [] else buffer'))\<rparr>)"

text \<open>The header made up for data that did not come in a LUMEN packet.\<close>

definition dummy_header :: "nat \<Rightarrow> 'a net_scheme \<Rightarrow> lumen_header" where
  "dummy_header len s =
     \<lparr>hdr_type = DATA, hdr_priority = MEDIUM, hdr_sequence = 0,
      hdr_timestamp = generate_timestamp s, hdr_payload_length = word_of_nat len\<rparr>"

text \<open>The fallback of \<open>handle_udp_data\<close>; an exception of \<open>serialise\<close> is caught.\<close>

definition lp_wrap_raw_data ::
  "lib \<Rightarrow> 'a message_callback \<Rightarrow> bytes \<Rightarrow> endpoint \<Rightarrow> 'a lumen_protocol_scheme \<Rightarrow>
   'a lumen_protocol_scheme" where
  "lp_wrap_raw_data L cb data ep s =
     (case serialise L (BasicMessage (binary_to_string data)
                          (''Unknown:'' @ get_endpoint_key L ep) (system_now s)) of
        Inl e \<Rightarrow> s
      | Inr json_payload_str \<Rightarrow>
          let binary_payload = string_to_binary json_payload_str
          in if lp_message_callback s
             then cb binary_payload (dummy_header (length binary_payload) s) ep s
             else s)"

definition lp_handle_udp_data ::
  "lib \<Rightarrow> 'a message_callback \<Rightarrow> bytes \<Rightarrow> endpoint \<Rightarrow> 'a lumen_protocol_scheme \<Rightarrow>
   'a lumen_protocol_scheme" where
  "lp_handle_udp_data L cb data ep s =
     (if \<not> lp_running s \<or> data = [] then s
      else if data ! 0 = LUMEN_STX then
        let endpoint_key = get_endpoint_key L ep;
            s1 = s\<lparr>lp_endpoint_map := (lp_endpoint_map s)(endpoint_key \<mapsto> ep)\<rparr>;
            old = (case lp_frame_buffers s1 endpoint_key of Some b \<Rightarrow> b | None \<Rightarrow> []);
            s2 = s1\<lparr>lp_frame_buffers := (lp_frame_buffers s1)(endpoint_key \<mapsto> old @ data)\<rparr>
        in lp_process_frame_buffer L cb endpoint_key ep s2
      else if data ! 0 = byte_of_char (CHR ''{'') then
        let json_str = binary_to_string data
        in if is_valid_json L json_str then
             (case deserialise L (system_now s) json_str of
                Inr message \<Rightarrow>
                  if lp_message_callback s then cb data (dummy_header (length data) s) ep s else s
              | Inl e \<Rightarrow> lp_wrap_raw_data L cb data ep s)
           else lp_wrap_raw_data L cb data ep s
      else lp_wrap_raw_data L cb data ep s)"

subsection \<open>What each operation leaves alone\<close>

lemma lp_send_packet_keeps [simp]:
  "steady_now (lp_send_packet p ep s) = steady_now s"
  "system_now (lp_send_packet p ep s) = system_now s"
  "rm_sent_packets (lp_send_packet p ep s) = rm_sent_packets s"
  "rm_acked_sequences (lp_send_packet p ep s) = rm_acked_sequences s"
  "rm_received_sequences (lp_send_packet p ep s) = rm_received_sequences s"
  "rm_recent_naks (lp_send_packet p ep s) = rm_recent_naks s"
  "rm_retransmit_callback (lp_send_packet p ep s) = rm_retransmit_callback s"
  "rm_timeout_callback (lp_send_packet p ep s) = rm_timeout_callback s"
  "rm_running (lp_send_packet p ep s) = rm_running s"
  "rm_role (lp_send_packet p ep s) = rm_role s"
  "lp_mode (lp_send_packet p ep s) = lp_mode s"
  "lp_frame_buffers (lp_send_packet p ep s) = lp_frame_buffers s"
  "lp_endpoint_map (lp_send_packet p ep s) = lp_endpoint_map s"
  "lp_current_sequence (lp_send_packet p ep s) = lp_current_sequence s"
  "lp_message_callback (lp_send_packet p ep s) = lp_message_callback s"
  "lp_running (lp_send_packet p ep s) = lp_running s"
  "lp_session_active (lp_send_packet p ep s) = lp_session_active s"
  "lp_check_counter (lp_send_packet p ep s) = lp_check_counter s"
  by (simp_all add: lp_send_packet_def Let_def split: ProtocolMode.splits option.splits)

lemma rm_record_received_sequence_keeps [simp]:
  "server (rm_record_received_sequence L seq ep s) = server s"
  "client (rm_record_received_sequence L seq ep s) = client s"
  "steady_now (rm_record_received_sequence L seq ep s) = steady_now s"
  "system_now (rm_record_received_sequence L seq ep s) = system_now s"
  "rm_sent_packets (rm_record_received_sequence L seq ep s) = rm_sent_packets s"
  "rm_acked_sequences (rm_record_received_sequence L seq ep s) = rm_acked_sequences s"
  "rm_recent_naks (rm_record_received_sequence L seq ep s) = rm_recent_naks s"
  "rm_retransmit_callback (rm_record_received_sequence L seq ep s) = rm_retransmit_callback s"
  "rm_timeout_callback (rm_record_received_sequence L seq ep s) = rm_timeout_callback s"
  "rm_running (rm_record_received_sequence L seq ep s) = rm_running s"
  "rm_role (rm_record_received_sequence L seq ep s) = rm_role s"
  "lp_mode (rm_record_received_sequence L seq ep s) = lp_mode s"
  "lp_frame_buffers (rm_record_received_sequence L seq ep s) = lp_frame_buffers s"
  "lp_endpoint_map (rm_record_received_sequence L seq ep s) = lp_endpoint_map s"
  "lp_current_sequence (rm_record_received_sequence L seq ep s) = lp_current_sequence s"
  "lp_message_callback (rm_record_received_sequence L seq ep s) = lp_message_callback s"
  "lp_running (rm_record_received_sequence L seq ep s) = lp_running s"
  "lp_session_active (rm_record_received_sequence L seq ep s) = lp_session_active s"
  "lp_check_counter (rm_record_received_sequence L seq ep s) = lp_check_counter s"
  by (simp_all add: rm_record_received_sequence_def Let_def)

lemma rm_record_acked_sequence_keeps [simp]:
  "server (rm_record_acked_sequence L seq ep s) = server s"
  "client (rm_record_acked_sequence L seq ep s) = client s"
  "steady_now (rm_record_acked_sequence L seq ep s) = steady_now s"
  "system_now (rm_record_acked_sequence L seq ep s) = system_now s"
  "rm_sent_packets (rm_record_acked_sequence L seq ep s) = rm_sent_packets s"
  "rm_received_sequences (rm_record_acked_sequence L seq ep s) = rm_received_sequences s"
  "rm_recent_naks (rm_record_acked_sequence L seq ep s) = rm_recent_naks s"
  "rm_retransmit_callback (rm_record_acked_sequence L seq ep s) = rm_retransmit_callback s"
  "rm_timeout_callback (rm_record_acked_sequence L seq ep s) = rm_timeout_callback s"
  "rm_running (rm_record_acked_sequence L seq ep s) = rm_running s"
  "rm_role (rm_record_acked_sequence L seq ep s) = rm_role s"
  "lp_mode (rm_record_acked_sequence L seq ep s) = lp_mode s"
  "lp_frame_buffers (rm_record_acked_sequence L seq ep s) = lp_frame_buffers s"
  "lp_endpoint_map (rm_record_acked_sequence L seq ep s) = lp_endpoint_map s"
  "lp_current_sequence (rm_record_acked_sequence L seq ep s) = lp_current_sequence s"
  "lp_message_callback (rm_record_acked_sequence L seq ep s) = lp_message_callback s"
  "lp_running (rm_record_acked_sequence L seq ep s) = lp_running s"
  "lp_session_active (rm_record_acked_sequence L seq ep s) = lp_session_active s"
  "lp_check_counter (rm_record_acked_sequence L seq ep s) = lp_check_counter s"
  by (simp_all add: rm_record_acked_sequence_def Let_def)

lemma rm_add_send_packet_keeps [simp]:
  "server (rm_add_send_packet seq p ep s) = server s"
  "client (rm_add_send_packet seq p ep s) = client s"
  "steady_now (rm_add_send_packet seq p ep s) = steady_now s"
  "system_now (rm_add_send_packet seq p ep s) = system_now s"
  "rm_acked_sequences (rm_add_send_packet seq p ep s) = rm_acked_sequences s"
  "rm_received_sequences (rm_add_send_packet seq p ep s) = rm_received_sequences s"
  "rm_recent_naks (rm_add_send_packet seq p ep s) = rm_recent_naks s"
  "rm_retransmit_callback (rm_add_send_packet seq p ep s) = rm_retransmit_callback s"
  "rm_timeout_callback (rm_add_send_packet seq p ep s) = rm_timeout_callback s"
  "rm_running (rm_add_send_packet seq p ep s) = rm_running s"
  "rm_role (rm_add_send_packet seq p ep s) = rm_role s"
  "lp_mode (rm_add_send_packet seq p ep s) = lp_mode s"
  "lp_frame_buffers (rm_add_send_packet seq p ep s) = lp_frame_buffers s"
  "lp_endpoint_map (rm_add_send_packet seq p ep s) = lp_endpoint_map s"
  "lp_current_sequence (rm_add_send_packet seq p ep s) = lp_current_sequence s"
  "lp_message_callback (rm_add_send_packet seq p ep s) = lp_message_callback s"
  "lp_running (rm_add_send_packet seq p ep s) = lp_running s"
  "lp_session_active (rm_add_send_packet seq p ep s) = lp_session_active s"
  "lp_check_counter (rm_add_send_packet seq p ep s) = lp_check_counter s"
  by (simp_all add: rm_add_send_packet_def)

lemma rm_record_nak_sent_keeps [simp]:
  "server (rm_record_nak_sent seq s) = server s"
  "client (rm_record_nak_sent seq s) = client s"
  "steady_now (rm_record_nak_sent seq s) = steady_now s"
  "system_now (rm_record_nak_sent seq s) = system_now s"
  "rm_sent_packets (rm_record_nak_sent seq s) = rm_sent_packets s"
  "rm_acked_sequences (rm_record_nak_sent seq s) = rm_acked_sequences s"
  "rm_received_sequences (rm_record_nak_sent seq s) = rm_received_sequences s"
  "rm_retransmit_callback (rm_record_nak_sent seq s) = rm_retransmit_callback s"
  "rm_timeout_callback (rm_record_nak_sent seq s) = rm_timeout_callback s"
  "rm_running (rm_record_nak_sent seq s) = rm_running s"
  "rm_role (rm_record_nak_sent seq s) = rm_role s"
  "lp_mode (rm_record_nak_sent seq s) = lp_mode s"
  "lp_frame_buffers (rm_record_nak_sent seq s) = lp_frame_buffers s"
  "lp_endpoint_map (rm_record_nak_sent seq s) = lp_endpoint_map s"
  "lp_current_sequence (rm_record_nak_sent seq s) = lp_current_sequence s"
  "lp_message_callback (rm_record_nak_sent seq s) = lp_message_callback s"
  "lp_running (rm_record_nak_sent seq s) = lp_running s"
  "lp_session_active (rm_record_nak_sent seq s) = lp_session_active s"
  "lp_check_counter (rm_record_nak_sent seq s) = lp_check_counter s"
  by (simp_all add: rm_record_nak_sent_def)

lemma rm_process_ack_keeps [simp]:
  "server (rm_process_ack seq s) = server s"
  "client (rm_process_ack seq s) = client s"
  "steady_now (rm_process_ack seq s) = steady_now s"
  "system_now (rm_process_ack seq s) = system_now s"
  "rm_acked_sequences (rm_process_ack seq s) = rm_acked_sequences s"
  "rm_received_sequences (rm_process_ack seq s) = rm_received_sequences s"
  "rm_recent_naks (rm_process_ack seq s) = rm_recent_naks s"
  "rm_retransmit_callback (rm_process_ack seq s) = rm_retransmit_callback s"
  "rm_timeout_callback (rm_process_ack seq s) = rm_timeout_callback s"
  "rm_running (rm_process_ack seq s) = rm_running s"
  "rm_role (rm_process_ack seq s) = rm_role s"
  "lp_mode (rm_process_ack seq s) = lp_mode s"
  "lp_frame_buffers (rm_process_ack seq s) = lp_frame_buffers s"
  "lp_endpoint_map (rm_process_ack seq s) = lp_endpoint_map s"
  "lp_current_sequence (rm_process_ack seq s) = lp_current_sequence s"
  "lp_message_callback (rm_process_ack seq s) = lp_message_callback s"
  "lp_running (rm_process_ack seq s) = lp_running s"
  "lp_session_active (rm_process_ack seq s) = lp_session_active s"
  "lp_check_counter (rm_process_ack seq s) = lp_check_counter s"
  by (simp_all add: rm_process_ack_def split: option.splits)

lemma rm_process_nak_keeps [simp]:
  "steady_now (rm_process_nak lp_send_packet seq s) = steady_now s"
  "system_now (rm_process_nak lp_send_packet seq s) = system_now s"
  "rm_sent_packets (rm_process_nak lp_send_packet seq s) = rm_sent_packets s"
  "rm_acked_sequences (rm_process_nak lp_send_packet seq s) = rm_acked_sequences s"
  "rm_received_sequences (rm_process_nak lp_send_packet seq s) = rm_received_sequences s"
  "rm_recent_naks (rm_process_nak lp_send_packet seq s) = rm_recent_naks s"
  "rm_retransmit_callback (rm_process_nak lp_send_packet seq s) = rm_retransmit_callback s"
  "rm_timeout_callback (rm_process_nak lp_send_packet seq s) = rm_timeout_callback s"
  "rm_running (rm_process_nak lp_send_packet seq s) = rm_running s"
  "rm_role (rm_process_nak lp_send_packet seq s) = rm_role s"
  "lp_mode (rm_process_nak lp_send_packet seq s) = lp_mode s"
  "lp_frame_buffers (rm_process_nak lp_send_packet seq s) = lp_frame_buffers s"
  "lp_endpoint_map (rm_process_nak lp_send_packet seq s) = lp_endpoint_map s"
  "lp_current_sequence (rm_process_nak lp_send_packet seq s) = lp_current_sequence s"
  "lp_message_callback (rm_process_nak lp_send_packet seq s) = lp_message_callback s"
  "lp_running (rm_process_nak lp_send_packet seq s) = lp_running s"
  "lp_session_active (rm_process_nak lp_send_packet seq s) = lp_session_active s"
  "lp_check_counter (rm_process_nak lp_send_packet seq s) = lp_check_counter s"
  by (simp_all add: rm_process_nak_def split: option.splits)

lemma lp_send_ack_keeps [simp]:
  "steady_now (lp_send_ack L seq ep s) = steady_now s"
  "system_now (lp_send_ack L seq ep s) = system_now s"
  "rm_sent_packets (lp_send_ack L seq ep s) = rm_sent_packets s"
  "rm_received_sequences (lp_send_ack L seq ep s) = rm_received_sequences s"
  "rm_recent_naks (lp_send_ack L seq ep s) = rm_recent_naks s"
  "rm_retransmit_callback (lp_send_ack L seq ep s) = rm_retransmit_callback s"
  "rm_timeout_callback (lp_send_ack L seq ep s) = rm_timeout_callback s"
  "rm_running (lp_send_ack L seq ep s) = rm_running s"
  "rm_role (lp_send_ack L seq ep s) = rm_role s"
  "lp_mode (lp_send_ack L seq ep s) = lp_mode s"
  "lp_frame_buffers (lp_send_ack L seq ep s) = lp_frame_buffers s"
  "lp_endpoint_map (lp_send_ack L seq ep s) = lp_endpoint_map s"
  "lp_message_callback (lp_send_ack L seq ep s) = lp_message_callback s"
  "lp_running (lp_send_ack L seq ep s) = lp_running s"
  "lp_session_active (lp_send_ack L seq ep s) = lp_session_active s"
  "lp_check_counter (lp_send_ack L seq ep s) = lp_check_counter s"
  by (simp_all add: lp_send_ack_def Let_def)

lemma lp_send_nak_keeps [simp]:
  "steady_now (lp_send_nak seq s) = steady_now s"
  "system_now (lp_send_nak seq s) = system_now s"
  "rm_sent_packets (lp_send_nak seq s) = rm_sent_packets s"
  "rm_acked_sequences (lp_send_nak seq s) = rm_acked_sequences s"
  "rm_received_sequences (lp_send_nak seq s) = rm_received_sequences s"
  "rm_recent_naks (lp_send_nak seq s) = rm_recent_naks s"
  "rm_retransmit_callback (lp_send_nak seq s) = rm_retransmit_callback s"
  "rm_timeout_callback (lp_send_nak seq s) = rm_timeout_callback s"
  "rm_running (lp_send_nak seq s) = rm_running s"
  "rm_role (lp_send_nak seq s) = rm_role s"
  "lp_mode (lp_send_nak seq s) = lp_mode s"
  "lp_frame_buffers (lp_send_nak seq s) = lp_frame_buffers s"
  "lp_endpoint_map (lp_send_nak seq s) = lp_endpoint_map s"
  "lp_message_callback (lp_send_nak seq s) = lp_message_callback s"
  "lp_running (lp_send_nak seq s) = lp_running s"
  "lp_session_active (lp_send_nak seq s) = lp_session_active s"
  "lp_check_counter (lp_send_nak seq s) = lp_check_counter s"
  by (simp_all add: lp_send_nak_def Let_def split: sum.splits)

lemma nak_loop_keeps [simp]:
  "steady_now (nak_loop qs n s) = steady_now s"
  "system_now (nak_loop qs n s) = system_now s"
  "rm_sent_packets (nak_loop qs n s) = rm_sent_packets s"
  "rm_acked_sequences (nak_loop qs n s) = rm_acked_sequences s"
  "rm_received_sequences (nak_loop qs n s) = rm_received_sequences s"
  "rm_retransmit_callback (nak_loop qs n s) = rm_retransmit_callback s"
  "rm_timeout_callback (nak_loop qs n s) = rm_timeout_callback s"
  "rm_running (nak_loop qs n s) = rm_running s"
  "rm_role (nak_loop qs n s) = rm_role s"
  "lp_mode (nak_loop qs n s) = lp_mode s"
  "lp_frame_buffers (nak_loop qs n s) = lp_frame_buffers s"
  "lp_endpoint_map (nak_loop qs n s) = lp_endpoint_map s"
  "lp_message_callback (nak_loop qs n s) = lp_message_callback s"
  "lp_running (nak_loop qs n s) = lp_running s"
  "lp_session_active (nak_loop qs n s) = lp_session_active s"
  "lp_check_counter (nak_loop qs n s) = lp_check_counter s"
  by (induction qs n s rule: nak_loop.induct) (simp_all add: Let_def)

lemma lp_check_sequence_gaps_keeps [simp]:
  "steady_now (lp_check_sequence_gaps L ep s) = steady_now s"
  "system_now (lp_check_sequence_gaps L ep s) = system_now s"
  "rm_sent_packets (lp_check_sequence_gaps L ep s) = rm_sent_packets s"
  "rm_acked_sequences (lp_check_sequence_gaps L ep s) = rm_acked_sequences s"
  "rm_received_sequences (lp_check_sequence_gaps L ep s) = rm_received_sequences s"
  "rm_retransmit_callback (lp_check_sequence_gaps L ep s) = rm_retransmit_callback s"
  "rm_timeout_callback (lp_check_sequence_gaps L ep s) = rm_timeout_callback s"
  "rm_running (lp_check_sequence_gaps L ep s) = rm_running s"
  "rm_role (lp_check_sequence_gaps L ep s) = rm_role s"
  "lp_mode (lp_check_sequence_gaps L ep s) = lp_mode s"
  "lp_frame_buffers (lp_check_sequence_gaps L ep s) = lp_frame_buffers s"
  "lp_endpoint_map (lp_check_sequence_gaps L ep s) = lp_endpoint_map s"
  "lp_message_callback (lp_check_sequence_gaps L ep s) = lp_message_callback s"
  "lp_running (lp_check_sequence_gaps L ep s) = lp_running s"
  "lp_session_active (lp_check_sequence_gaps L ep s) = lp_session_active s"
  "lp_check_counter (lp_check_sequence_gaps L ep s) = lp_check_counter s"
  by (simp_all add: lp_check_sequence_gaps_def)

subsection \<open>Framing\<close>

text \<open>
  The specification of the framing loop: which packets a buffer yields and which bytes stay behind,
  with no reference to the state. The loop refines it.
\<close>

function deframe :: "bytes \<Rightarrow> lumen_packet list \<times> bytes" where
  "deframe buffer =
     (if buffer = [] then ([], [])
      else case packet_from_bytes buffer of
        Some packet \<Rightarrow> apfst (Cons packet) (deframe (drop (total_size packet) buffer))
      | None \<Rightarrow>
          (case header_from_bytes buffer of
             Some header \<Rightarrow>
               if length buffer \<ge> LUMEN_HEADER_SIZE + unat (hdr_payload_length header) + 2
               then deframe (drop (LUMEN_HEADER_SIZE + unat (hdr_payload_length header) + 2) buffer)
               else ([], buffer)
           | None \<Rightarrow>
               (case next_stx_pos buffer of
                  Some next_stx \<Rightarrow> deframe (drop next_stx buffer)
                | None \<Rightarrow>
                    ([], if length buffer > MAX_FRAME_BUFFER_SIZE div 2 then [] else buffer))))"
  by pat_completeness auto
termination
  by (relation "measure length") (auto dest: next_stx_pos_pos simp: LUMEN_HEADER_SIZE_def total_size_def)

declare deframe.simps [simp del]

lemma frame_loop_deframe:
  "frame_loop L cb ep buffer s =
     (snd (deframe buffer),
      foldl (\<lambda>s p. lp_process_complete_packet L cb p ep s) s (fst (deframe buffer)))"
proof (induction L cb ep buffer s rule: frame_loop.induct)
  case (1 L cb ep buffer s)
  show ?case
    by (subst frame_loop.simps, subst (1 2) deframe.simps)
      (use 1 packet_from_bytes_sound(4) in \<open>auto simp: Let_def split: option.splits\<close>)
qed

lemma deframe_Nil [simp]: "deframe [] = ([], [])"
  by (simp add: deframe.simps)

lemma deframe_packet:
  "packet_ok p \<Longrightarrow> deframe (packet_to_bytes p @ rest) = apfst (Cons p) (deframe rest)"
  by (subst deframe.simps) (simp add: packet_from_to_bytes)

text \<open>A damaged packet whose header still announces the right length is skipped as a whole.\<close>

definition damage :: "lumen_packet \<Rightarrow> nat \<Rightarrow> u8 \<Rightarrow> bool" where
  "damage p i b \<longleftrightarrow> 3 \<le> i \<and> i < total_size p \<and> i \<noteq> 8 \<and> i \<noteq> 9 \<and> b \<noteq> packet_to_bytes p ! i"

lemma deframe_damaged:
  assumes "packet_ok p" and "damage p i b"
  shows "deframe ((packet_to_bytes p)[i := b] @ rest) = deframe rest"
proof -
  let ?d = "(packet_to_bytes p)[i := b] @ rest"
  have none: "packet_from_bytes ?d = None"
    using assms by (intro corrupted_byte_rejected) (auto simp: damage_def)
  obtain h where h: "header_from_bytes ?d = Some h"
    and len: "hdr_payload_length h = hdr_payload_length (pkt_header p)"
    using damaged_header [of i p b rest] assms by (auto simp: damage_def)
  have size: "LUMEN_HEADER_SIZE + unat (hdr_payload_length h) + 2 = total_size p"
    using assms(1) by (simp add: len packet_ok_def total_size_def)
  have "?d \<noteq> []" by simp
  then show ?thesis
    by (subst deframe.simps) (simp only: none h size option.case if_False, simp)
qed

text \<open>
  A stream of packets, some of them with one damaged byte: the intact ones come out, in order.
\<close>

definition on_wire :: "lumen_packet \<times> (nat \<times> u8) option \<Rightarrow> bytes" where
  "on_wire item =
     (case snd item of
        None \<Rightarrow> packet_to_bytes (fst item)
      | Some (i, b) \<Rightarrow> (packet_to_bytes (fst item))[i := b])"

definition wire_ok :: "lumen_packet \<times> (nat \<times> u8) option \<Rightarrow> bool" where
  "wire_ok item \<longleftrightarrow>
     packet_ok (fst item) \<and> (case snd item of None \<Rightarrow> True | Some (i, b) \<Rightarrow> damage (fst item) i b)"

definition intact :: "(lumen_packet \<times> (nat \<times> u8) option) list \<Rightarrow> lumen_packet list" where
  "intact items = map fst (filter (\<lambda>item. snd item = None) items)"

lemma deframe_stream:
  assumes "\<forall>item \<in> set items. wire_ok item"
  shows "deframe (concat (map on_wire items) @ rest)
         = (intact items @ fst (deframe rest), snd (deframe rest))"
  using assms
proof (induction items)
  case (Cons item items)
  obtain p d where item: "item = (p, d)" by fastforce
  from Cons show ?case
    by (cases d) (auto simp: item on_wire_def wire_ok_def intact_def deframe_packet deframe_damaged)
qed (simp add: intact_def)

lemma deframe_cases:
  obtains (packet) p where "packet_from_bytes buffer = Some p" "buffer \<noteq> []"
      "deframe buffer = apfst (Cons p) (deframe (drop (total_size p) buffer))"
  | (skip) n where "0 < n" "n \<le> length buffer" "deframe buffer = deframe (drop n buffer)"
  | (wait) "packet_from_bytes buffer = None" "deframe buffer = ([], buffer)"
  | (clear) "deframe buffer = ([], [])"
proof (cases "buffer = []")
  case True
  then show ?thesis using clear by simp
next
  case ne: False
  note unfold = deframe.simps [of buffer]
  show ?thesis
  proof (cases "packet_from_bytes buffer")
    case (Some p)
    then show ?thesis using packet [of p] ne by (simp add: unfold)
  next
    case none: None
    show ?thesis
    proof (cases "header_from_bytes buffer")
      case (Some h)
      then show ?thesis
        using skip [of "LUMEN_HEADER_SIZE + unat (hdr_payload_length h) + 2"] wait none ne
        by (cases "LUMEN_HEADER_SIZE + unat (hdr_payload_length h) + 2 \<le> length buffer")
          (auto simp: unfold)
    next
      case None
      then show ?thesis
        using skip wait clear none ne
        by (cases "next_stx_pos buffer"; cases "MAX_FRAME_BUFFER_SIZE div 2 < length buffer")
          (auto simp: unfold dest: next_stx_pos_pos)
    qed
  qed
qed

text \<open>What stays behind holds no complete packet, is no longer than the input, and is stable.\<close>

lemma deframe_rest:
  "packet_from_bytes (snd (deframe buffer)) = None \<and>
   length (snd (deframe buffer)) \<le> length buffer \<and>
   deframe (snd (deframe buffer)) = ([], snd (deframe buffer))"
proof (induction buffer rule: measure_induct_rule [of length])
  case (less buffer)
  show ?case
  proof (cases buffer rule: deframe_cases)
    case (packet p)
    then have "length (drop (total_size p) buffer) < length buffer"
      by (simp add: total_size_def)
    from less [OF this] show ?thesis using packet by auto
  next
    case (skip n)
    then have "length (drop n buffer) < length buffer" by simp
    from less [OF this] show ?thesis using skip by auto
  qed (simp_all add: packet_from_bytes_def header_from_bytes_def wire_simps)
qed

lemma deframe_ok: "p \<in> set (fst (deframe buffer)) \<Longrightarrow> packet_ok p"
proof (induction buffer rule: measure_induct_rule [of length])
  case (less buffer)
  show ?case
  proof (cases buffer rule: deframe_cases)
    case (packet q)
    then have "length (drop (total_size q) buffer) < length buffer"
      by (simp add: total_size_def)
    from less.IH [OF this] show ?thesis
      using packet less.prems packet_from_bytes_sound(1) [of buffer q] by auto
  next
    case (skip n)
    then have "length (drop n buffer) < length buffer" by simp
    from less.IH [OF this] show ?thesis using skip less.prems by simp
  qed (use less.prems in simp_all)
qed

end
