(* ===== verification/Lumen_Reliable.thy ===== *)
theory Lumen_Reliable
  imports Lumen_Protocol
begin

text \<open>
  What the protocol layer guarantees whatever its callback does: what reaches the transport
  (\<open>outbox\<close>), which packets of a datagram are processed, what a base station does with one packet,
  gap reports on the rover, and the repair by NAK.
\<close>

subsection \<open>The outbox of a node\<close>

definition outbox :: "'a net_scheme \<Rightarrow> datagram list" where
  "outbox s = (case server s of Some srv \<Rightarrow> srv_out srv
               | None \<Rightarrow> (case client s of Some c \<Rightarrow> cl_out c | None \<Rightarrow> []))"

text \<open>
  The transport pointers a constructor leaves: the base station has a server and no client, the
  rover a client and no server; the reliability manager has the matching role.
\<close>

definition node_ok :: "'a lumen_protocol_scheme \<Rightarrow> bool" where
  "node_ok s \<longleftrightarrow>
     (case lp_mode s of
        MODE_BASE_STATION \<Rightarrow> rm_role s = BASE_STATION \<and> server s \<noteq> None \<and> client s = None
      | MODE_ROVER \<Rightarrow> rm_role s = ROVER \<and> server s = None \<and> client s \<noteq> None)"

definition can_reach :: "'a lumen_protocol_scheme \<Rightarrow> endpoint \<Rightarrow> bool" where
  "can_reach s ep \<longleftrightarrow> node_ok s \<and>
     (case lp_mode s of
        MODE_BASE_STATION \<Rightarrow> srv_running (the (server s)) \<and> valid_recipient ep
      | MODE_ROVER \<Rightarrow> valid_recipient ep \<or> (ep = cl_base (the (client s)) \<and> \<not> is_unspecified ep))"

lemma outbox_cong: "server s = server t \<Longrightarrow> client s = client t \<Longrightarrow> outbox s = outbox t"
  by (simp add: outbox_def split: option.splits)

lemma outbox_simps [simp]:
  "outbox (s\<lparr>lp_current_sequence := q\<rparr>) = outbox s"
  "outbox (s\<lparr>lp_check_counter := c\<rparr>) = outbox s"
  "outbox (rm_record_acked_sequence L seq ep s) = outbox s"
  "outbox (rm_record_received_sequence L seq ep s) = outbox s"
  "outbox (rm_record_nak_sent seq s) = outbox s"
  "outbox (rm_add_send_packet seq p ep s) = outbox s"
  "outbox (rm_process_ack seq s) = outbox s"
  by (rule outbox_cong; simp)+

lemma node_ok_simps [simp]:
  "node_ok (s\<lparr>lp_current_sequence := q\<rparr>) = node_ok s"
  "node_ok (s\<lparr>lp_check_counter := c\<rparr>) = node_ok s"
  "node_ok (rm_record_acked_sequence L seq ep s) = node_ok s"
  "node_ok (rm_record_received_sequence L seq ep s) = node_ok s"
  "node_ok (rm_record_nak_sent seq s) = node_ok s"
  "node_ok (rm_add_send_packet seq p ep s) = node_ok s"
  "node_ok (rm_process_ack seq s) = node_ok s"
  by (simp_all add: node_ok_def cong: ProtocolMode.case_cong)

lemma can_reach_simps [simp]:
  "can_reach (s\<lparr>lp_current_sequence := q\<rparr>) ep' = can_reach s ep'"
  "can_reach (s\<lparr>lp_check_counter := c\<rparr>) ep' = can_reach s ep'"
  "can_reach (rm_record_acked_sequence L seq ep s) ep' = can_reach s ep'"
  "can_reach (rm_record_received_sequence L seq ep s) ep' = can_reach s ep'"
  "can_reach (rm_record_nak_sent seq s) ep' = can_reach s ep'"
  "can_reach (rm_add_send_packet seq p ep s) ep' = can_reach s ep'"
  "can_reach (rm_process_ack seq s) ep' = can_reach s ep'"
  by (simp_all add: can_reach_def cong: ProtocolMode.case_cong)

lemma node_ok_send_packet [simp]: "node_ok (lp_send_packet p ep s) = node_ok s"
  by (auto simp: node_ok_def lp_send_packet_def Let_def split: ProtocolMode.splits option.splits)

lemma lp_send_packet_reach:
  assumes "can_reach s ep"
  shows "outbox (lp_send_packet p ep s) = outbox s @ [(packet_to_bytes p, ep)]"
  using assms
  by (cases "lp_mode s")
    (auto simp: can_reach_def node_ok_def outbox_def lp_send_packet_def Let_def srv_send_data_def
      cl_send_data_to_def cl_send_data_def cl_get_base_endpoint_def valid_recipient_def)

lemma lp_send_packet_no_reach:
  assumes "\<not> can_reach s ep" and "node_ok s"
  shows "lp_send_packet p ep s = s"
  using assms
  by (cases "lp_mode s")
    (auto simp: can_reach_def node_ok_def lp_send_packet_def Let_def srv_send_data_def
      cl_send_data_to_def cl_send_data_def cl_get_base_endpoint_def valid_recipient_def)

lemma can_reach_send_packet [simp]: "can_reach (lp_send_packet p ep s) ep' = can_reach s ep'"
proof (cases "node_ok s")
  case True
  then show ?thesis
    by (cases "lp_mode s")
      (auto simp: can_reach_def node_ok_def lp_send_packet_def Let_def srv_send_data_def
        cl_send_data_to_def cl_send_data_def cl_get_base_endpoint_def split: if_splits)
qed (simp add: can_reach_def)

text \<open>On a well-formed node the protocol layer is a datagram sender itself.\<close>

interpretation lp: datagram_sender lp_send_packet packet_to_bytes outbox node_ok can_reach
  by unfold_locales (simp_all add: lp_send_packet_reach lp_send_packet_no_reach)

subsection \<open>Sending a message\<close>

text \<open>The packet \<open>send_message\<close> builds in a given state.\<close>

definition message_packet ::
  "bytes \<Rightarrow> MessageType \<Rightarrow> Priority \<Rightarrow> 'a lumen_protocol_scheme \<Rightarrow> lumen_packet" where
  "message_packet payload type priority s =
     LumenPacket \<lparr>hdr_type = type, hdr_priority = priority, hdr_sequence = lp_current_sequence s,
       hdr_timestamp = generate_timestamp s, hdr_payload_length = word_of_nat (length payload)\<rparr> payload"

lemma generate_timestamp_cong: "system_now s = system_now t \<Longrightarrow> generate_timestamp s = generate_timestamp t"
  by (simp add: generate_timestamp_def)

lemma lp_send_message_to:
  assumes "lp_running s" and "\<not> is_unspecified recipient"
  shows "lp_send_message payload type priority recipient s =
    Inr (lp_send_packet (message_packet payload type priority s) recipient
      (if type \<noteq> ACK \<and> type \<noteq> NAK
       then rm_add_send_packet (lp_current_sequence s) (message_packet payload type priority s) recipient
              (s\<lparr>lp_current_sequence := lp_current_sequence s + 1\<rparr>)
       else s\<lparr>lp_current_sequence := lp_current_sequence s + 1\<rparr>))"
  using assms
  by (simp add: lp_send_message_def Let_def message_packet_def generate_timestamp_def
      split: ProtocolMode.splits)

lemma message_packet_ok: "length payload < 2 ^ 16 \<Longrightarrow> packet_ok (message_packet payload t pr s)"
  by (simp add: message_packet_def)

lemma message_packet_fields [simp]:
  "pkt_payload (message_packet payload t pr s) = payload"
  "hdr_type (pkt_header (message_packet payload t pr s)) = t"
  "hdr_priority (pkt_header (message_packet payload t pr s)) = pr"
  "hdr_sequence (pkt_header (message_packet payload t pr s)) = lp_current_sequence s"
  by (simp_all add: message_packet_def)

lemma control_packet_fields [simp]:
  "pkt_payload (control_packet t q seq ts) = [q]"
  "hdr_type (pkt_header (control_packet t q seq ts)) = t"
  "hdr_priority (pkt_header (control_packet t q seq ts)) = HIGH"
  "hdr_sequence (pkt_header (control_packet t q seq ts)) = seq"
  "packet_ok (control_packet t q seq ts)"
  by (simp_all add: control_packet_def)

subsection \<open>Acknowledgement and duplicate suppression on the base station\<close>

lemma rm_record_acked_twice [simp]:
  "rm_record_acked_sequence L seq ep (rm_record_acked_sequence L seq ep s)
   = rm_record_acked_sequence L seq ep s"
  by (simp add: rm_record_acked_sequence_def Let_def split: option.splits)

lemma lp_send_ack_out:
  assumes "can_reach s ep" and "lp_mode s = MODE_BASE_STATION"
  shows "outbox (lp_send_ack L seq ep s) =
    outbox s @ [(packet_to_bytes (control_packet ACK seq (lp_current_sequence s) (generate_timestamp s)), ep)]"
  using assms by (simp add: lp_send_ack_def Let_def lp_send_packet_reach generate_timestamp_def)

lemma lp_send_ack_state:
  assumes "lp_mode s = MODE_BASE_STATION"
  shows "lp_current_sequence (lp_send_ack L seq ep s) = lp_current_sequence s + 1"
    and "can_reach (lp_send_ack L seq ep s) ep' = can_reach s ep'"
    and "node_ok (lp_send_ack L seq ep s) = node_ok s"
    and "rm_has_acked_sequence L q ep' (lp_send_ack L seq ep s)
         = rm_has_acked_sequence L q ep' (rm_record_acked_sequence L seq ep s)"
  using assms by (simp_all add: lp_send_ack_def Let_def rm_has_acked_sequence_def)

lemma process_base_active:
  assumes "lp_mode s = MODE_BASE_STATION" and "lp_session_active s"
    and "hdr_type (pkt_header p) \<noteq> ACK" "hdr_type (pkt_header p) \<noteq> NAK"
  shows "lp_process_complete_packet L cb p ep s =
    (let seq = hdr_sequence (pkt_header p);
         s1 = lp_send_ack L seq ep (rm_record_received_sequence L seq ep s)
     in if \<not> rm_has_acked_sequence L seq ep s \<and> lp_message_callback s
        then cb (pkt_payload p) (pkt_header p) ep s1 else s1)"
proof -
  have twice: "lp_send_ack L q ep (rm_record_acked_sequence L q ep t) = lp_send_ack L q ep t"
    if "lp_mode t = MODE_BASE_STATION" for q and t :: "'a lumen_protocol_scheme"
    using that by (simp add: lp_send_ack_def Let_def)
  have acked: "rm_has_acked_sequence L q ep (rm_record_received_sequence L q' ep s)
               = rm_has_acked_sequence L q ep s" for q q'
    by (simp add: rm_has_acked_sequence_def)
  show ?thesis
    using assms by (simp add: lp_process_complete_packet_def Let_def twice acked)
qed

lemma enumerate_Suc_map: "enumerate (Suc 0) xs = map (\<lambda>(i, x). (Suc i, x)) (enumerate 0 xs)"
  by (simp add: enumerate_eq_zip zip_map1 case_prod_unfold del: upt_Suc flip: map_Suc_upt)

subsection \<open>Gap reports of the rover\<close>

lemma client_base_endpoint_keeps [simp]:
  "client_base_endpoint (lp_send_packet p ep s) = client_base_endpoint s"
  "client_base_endpoint (s\<lparr>lp_current_sequence := q\<rparr>) = client_base_endpoint s"
  "client_base_endpoint (rm_record_nak_sent q s) = client_base_endpoint s"
  by (auto simp: client_base_endpoint_def lp_send_packet_def cl_get_base_endpoint_def Let_def
      cl_send_data_def cl_send_data_to_def rm_record_nak_sent_def
      split: ProtocolMode.splits option.splits)

definition report_gap :: "u8 \<Rightarrow> 'a lumen_protocol_scheme \<Rightarrow> 'a lumen_protocol_scheme" where
  "report_gap q s = rm_record_nak_sent q (lp_send_nak q s)"

lemma report_gap_naked:
  "rm_is_recently_naked q' (report_gap q s) \<longleftrightarrow> q' = q \<or> rm_is_recently_naked q' s"
proof (cases "q' = q")
  case True
  then show ?thesis
    by (simp add: report_gap_def rm_is_recently_naked_def rm_record_nak_sent_def to_ms_def
        NAK_DEBOUNCE_TIME_def)
next
  case False
  then show ?thesis
    by (simp add: report_gap_def rm_is_recently_naked_def rm_record_nak_sent_def split: option.splits)
qed

lemma nak_loop_spec:
  assumes "distinct qs" and "n < MAX_NAKS_PER_CHECK"
  shows "nak_loop qs n s = foldl (\<lambda>s q. report_gap q s) s
           (take (MAX_NAKS_PER_CHECK - n) (filter (\<lambda>q. \<not> rm_is_recently_naked q s) qs))"
  using assms
proof (induction qs arbitrary: n s)
  case (Cons q qs)
  have later: "filter (\<lambda>q'. \<not> rm_is_recently_naked q' (report_gap q s)) qs
               = filter (\<lambda>q'. \<not> rm_is_recently_naked q' s) qs"
    using Cons.prems by (auto simp: report_gap_naked intro: filter_cong)
  show ?case
  proof (cases "rm_is_recently_naked q s")
    case True
    then show ?thesis using Cons by simp
  next
    case False
    have "nak_loop (q # qs) n s =
        (if n + 1 \<ge> MAX_NAKS_PER_CHECK then report_gap q s else nak_loop qs (n + 1) (report_gap q s))"
      using False by (simp add: report_gap_def Let_def)
    also have "\<dots> = foldl (\<lambda>s q. report_gap q s) (report_gap q s)
           (take (MAX_NAKS_PER_CHECK - (n + 1)) (filter (\<lambda>q. \<not> rm_is_recently_naked q s) qs))"
      using Cons.prems by (auto simp: Cons.IH later)
    finally show ?thesis
      using False Cons.prems by (simp add: take_Cons' del: nak_loop.simps)
  qed
qed simp

definition nak_datagrams :: "endpoint \<Rightarrow> u32 \<Rightarrow> u8 \<Rightarrow> u8 list \<Rightarrow> datagram list" where
  "nak_datagrams ep ts seq qs =
     map (\<lambda>(i, q). (packet_to_bytes (control_packet NAK q (seq + word_of_nat i) ts), ep)) (enumerate 0 qs)"

lemma nak_datagrams_Cons:
  "nak_datagrams ep ts seq (q # qs) =
     (packet_to_bytes (control_packet NAK q seq ts), ep) # nak_datagrams ep ts (seq + 1) qs"
  by (simp add: nak_datagrams_def enumerate_Suc_map case_prod_unfold o_def add.assoc)

lemma report_gap_out:
  assumes "lp_mode s = MODE_ROVER" "client_base_endpoint s = Inr base" "can_reach s base"
  shows "outbox (report_gap q s) = outbox s @
           [(packet_to_bytes (control_packet NAK q (lp_current_sequence s) (generate_timestamp s)), base)]"
    and "lp_mode (report_gap q s) = MODE_ROVER" "can_reach (report_gap q s) base"
    and "client_base_endpoint (report_gap q s) = Inr base"
    and "lp_current_sequence (report_gap q s) = lp_current_sequence s + 1"
    and "generate_timestamp (report_gap q s) = generate_timestamp s"
  using assms
  by (simp_all add: report_gap_def lp_send_nak_def Let_def lp_send_packet_reach generate_timestamp_def)

lemma report_gaps_out:
  assumes "lp_mode s = MODE_ROVER" "client_base_endpoint s = Inr base" "can_reach s base"
  shows "outbox (foldl (\<lambda>s q. report_gap q s) s qs) =
           outbox s @ nak_datagrams base (generate_timestamp s) (lp_current_sequence s) qs"
  using assms
proof (induction qs arbitrary: s)
  case Nil
  then show ?case by (simp add: nak_datagrams_def)
next
  case (Cons q qs)
  then show ?case by (simp add: report_gap_out [OF Cons.prems] nak_datagrams_Cons)
qed

lemma report_gaps_naked:
  "rm_is_recently_naked q' (foldl (\<lambda>s q. report_gap q s) s qs) \<longleftrightarrow>
     q' \<in> set qs \<or> rm_is_recently_naked q' s"
  by (induction qs arbitrary: s) (auto simp: report_gap_naked)

subsection \<open>A datagram with LUMEN packets\<close>

text \<open>The state in which the packets of a datagram are processed: the datagram is in the buffer.\<close>

definition buffered ::
  "lib \<Rightarrow> bytes \<Rightarrow> endpoint \<Rightarrow> 'a lumen_protocol_scheme \<Rightarrow> 'a lumen_protocol_scheme" where
  "buffered L data ep s =
     s\<lparr>lp_endpoint_map := (lp_endpoint_map s)(get_endpoint_key L ep \<mapsto> ep),
       lp_frame_buffers := (lp_frame_buffers s)(get_endpoint_key L ep \<mapsto>
         (case lp_frame_buffers s (get_endpoint_key L ep) of Some b \<Rightarrow> b | None \<Rightarrow> []) @ data)\<rparr>"

definition store_rest ::
  "lib \<Rightarrow> bytes \<Rightarrow> endpoint \<Rightarrow> 'a lumen_protocol_scheme \<Rightarrow> 'a lumen_protocol_scheme" where
  "store_rest L r ep s =
     s\<lparr>lp_frame_buffers := (lp_frame_buffers s)(get_endpoint_key L ep \<mapsto>
         (if length r > MAX_FRAME_BUFFER_SIZE then [] else r))\<rparr>"

lemma handle_udp_data_lumen:
  assumes "lp_running s" and "data \<noteq> []" and "data ! 0 = LUMEN_STX"
    and old: "(case lp_frame_buffers s (get_endpoint_key L ep) of Some b \<Rightarrow> b | None \<Rightarrow> []) = old"
  shows "lp_handle_udp_data L cb data ep s =
    store_rest L (snd (deframe (old @ data))) ep
      (foldl (\<lambda>s p. lp_process_complete_packet L cb p ep s) (buffered L data ep s)
        (fst (deframe (old @ data))))"
  using assms(1-3) old [symmetric]
  by (simp add: lp_handle_udp_data_def Let_def lp_process_frame_buffer_def frame_loop_deframe
      buffered_def store_rest_def)

text \<open>A peer with nothing pending sends a datagram of packets, some of them damaged.\<close>

lemma handle_udp_data_stream:
  assumes "lp_running s" and "items \<noteq> []" and ok: "\<forall>item \<in> set items. wire_ok item"
    and "lp_frame_buffers s (get_endpoint_key L ep) \<in> {None, Some []}"
  shows "lp_handle_udp_data L cb (concat (map on_wire items)) ep s =
    store_rest L [] ep
      (foldl (\<lambda>s p. lp_process_complete_packet L cb p ep s)
        (buffered L (concat (map on_wire items)) ep s) (intact items))"
proof -
  obtain item items' where items: "items = item # items'" using assms(2) by (cases items) auto
  have "on_wire item \<noteq> [] \<and> on_wire item ! 0 = LUMEN_STX"
    using ok by (auto simp: items on_wire_def wire_ok_def damage_def total_size_def
        split: option.splits prod.splits)
  then have first: "concat (map on_wire items) \<noteq> []" "concat (map on_wire items) ! 0 = LUMEN_STX"
    by (simp_all add: items nth_append)
  have empty: "(case lp_frame_buffers s (get_endpoint_key L ep) of Some b \<Rightarrow> b | None \<Rightarrow> []) = []"
    using assms(4) by auto
  show ?thesis
    using handle_udp_data_lumen [OF assms(1) first empty] deframe_stream [OF ok, of "[]"] by simp
qed

lemma buffered_keeps [simp]:
  "outbox (buffered L d ep s) = outbox s" "can_reach (buffered L d ep s) ep' = can_reach s ep'"
  "node_ok (buffered L d ep s) = node_ok s"
  "lp_mode (buffered L d ep s) = lp_mode s"
  "lp_session_active (buffered L d ep s) = lp_session_active s"
  "lp_message_callback (buffered L d ep s) = lp_message_callback s"
  "lp_current_sequence (buffered L d ep s) = lp_current_sequence s"
  "lp_running (buffered L d ep s) = lp_running s"
  "system_now (buffered L d ep s) = system_now s" "steady_now (buffered L d ep s) = steady_now s"
  "rm_role (buffered L d ep s) = rm_role s" "rm_running (buffered L d ep s) = rm_running s"
  "rm_sent_packets (buffered L d ep s) = rm_sent_packets s"
  "rm_retransmit_callback (buffered L d ep s) = rm_retransmit_callback s"
  "rm_has_acked_sequence L q ep' (buffered L d ep s) = rm_has_acked_sequence L q ep' s"
  by (simp_all add: buffered_def outbox_def can_reach_def node_ok_def rm_has_acked_sequence_def
      cong: ProtocolMode.case_cong split: option.splits)

lemma store_rest_keeps [simp]:
  "outbox (store_rest L r ep s) = outbox s" "can_reach (store_rest L r ep s) ep' = can_reach s ep'"
  "node_ok (store_rest L r ep s) = node_ok s"
  "lp_mode (store_rest L r ep s) = lp_mode s"
  "lp_session_active (store_rest L r ep s) = lp_session_active s"
  "lp_message_callback (store_rest L r ep s) = lp_message_callback s"
  "lp_current_sequence (store_rest L r ep s) = lp_current_sequence s"
  "lp_running (store_rest L r ep s) = lp_running s"
  "system_now (store_rest L r ep s) = system_now s" "steady_now (store_rest L r ep s) = steady_now s"
  "rm_role (store_rest L r ep s) = rm_role s" "rm_running (store_rest L r ep s) = rm_running s"
  "rm_sent_packets (store_rest L r ep s) = rm_sent_packets s"
  "rm_retransmit_callback (store_rest L r ep s) = rm_retransmit_callback s"
  "rm_has_acked_sequence L q ep' (store_rest L r ep s) = rm_has_acked_sequence L q ep' s"
  by (simp_all add: store_rest_def outbox_def can_reach_def node_ok_def rm_has_acked_sequence_def
      cong: ProtocolMode.case_cong split: option.splits)

text \<open>One intact packet in a datagram of its own.\<close>

lemma handle_udp_data_packet:
  assumes "lp_running s" and "packet_ok p"
    and "lp_frame_buffers s (get_endpoint_key L ep) \<in> {None, Some []}"
  shows "lp_handle_udp_data L cb (packet_to_bytes p) ep s =
    store_rest L [] ep (lp_process_complete_packet L cb p ep (buffered L (packet_to_bytes p) ep s))"
  using handle_udp_data_stream [of s "[(p, None)]" L ep cb] assms
  by (simp add: wire_ok_def on_wire_def intact_def)

subsection \<open>ACKs and NAKs as received\<close>

lemma process_ack_packet:
  assumes "hdr_type (pkt_header p) = ACK" and "pkt_payload p = [q]" and "lp_mode s = MODE_ROVER"
  shows "lp_process_complete_packet L cb p ep s
         = rm_process_ack q (rm_record_received_sequence L (hdr_sequence (pkt_header p)) ep s)"
  using assms by (simp add: lp_process_complete_packet_def Let_def)

lemma process_nak_packet:
  assumes "hdr_type (pkt_header p) = NAK" and "pkt_payload p = [q]" and "lp_mode s = MODE_BASE_STATION"
  shows "lp_process_complete_packet L cb p ep s
         = rm_process_nak lp_send_packet q (rm_record_received_sequence L (hdr_sequence (pkt_header p)) ep s)"
  using assms by (simp add: lp_process_complete_packet_def Let_def)

lemma rm_process_ack_sent:
  assumes "rm_running s" "rm_role s = ROVER"
  shows "map_of (rm_sent_packets (rm_process_ack q s)) = (map_of (rm_sent_packets s))(q := None)"
  using assms
  by (auto simp: rm_process_ack_def sm.find_erase fun_upd_idem split: option.splits)

subsection \<open>Properties of the protocol layer\<close>

text \<open>C4: a datagram made of LUMEN packets, some of which were damaged in one byte behind the type and
  priority (the length bytes apart), from a peer with nothing pending: \<open>handle_udp_data\<close> processes
  exactly the intact packets, in the order they were sent, and leaves the peer's buffer empty.\<close>

theorem framing_delivers_intact_packets:
  assumes "lp_running s" and "items \<noteq> []" and "\<forall>item \<in> set items. wire_ok item"
    and "lp_frame_buffers s (get_endpoint_key L ep) \<in> {None, Some []}"
  shows "lp_handle_udp_data L cb (concat (map on_wire items)) ep s =
           store_rest L [] ep
             (foldl (\<lambda>s p. lp_process_complete_packet L cb p ep s)
               (buffered L (concat (map on_wire items)) ep s) (intact items))
         \<and> lp_frame_buffers (lp_handle_udp_data L cb (concat (map on_wire items)) ep s)
             (get_endpoint_key L ep) = Some []"
  using handle_udp_data_stream [OF assms, of cb] by (simp add: store_rest_def)

text \<open>Concrete nodes for the examples, with a callback that records what it is given.\<close>

record delivery_log = lumen_protocol +
  delivered :: "(bytes \<times> lumen_header \<times> endpoint) list"

definition log_cb ::
  "bytes \<Rightarrow> lumen_header \<Rightarrow> endpoint \<Rightarrow> 'a delivery_log_scheme \<Rightarrow> 'a delivery_log_scheme" where
  "log_cb payload header ep s = s\<lparr>delivered := delivered s @ [(payload, header, ep)]\<rparr>"

definition sample_ep :: endpoint where
  "sample_ep = \<lparr>ep_address = 1, ep_port = 9000\<rparr>"

definition sample_lib0 :: lib where
  "sample_lib0 = sample_lib (\<lambda>_. None) (\<lambda>_. None)"

definition sample_node :: "ProtocolMode \<Rightarrow> delivery_log" where
  "sample_node mode =
     \<lparr>steady_now = 0, system_now = 0,
      server = (if mode = MODE_BASE_STATION then Some (UdpServer\<lparr>srv_running := True\<rparr>) else None),
      client = (if mode = MODE_ROVER then Some (UdpClient\<lparr>cl_base := sample_ep\<rparr>) else None),
      rm_sent_packets = [], rm_acked_sequences = Map.empty, rm_received_sequences = Map.empty,
      rm_recent_naks = [], rm_retransmit_timer = \<lparr>tm_expiry = 0, tm_waiting = True\<rparr>,
      rm_cleanup_timer = \<lparr>tm_expiry = 0, tm_waiting = True\<rparr>, rm_retransmit_callback = True,
      rm_timeout_callback = True, rm_running = True,
      rm_role = (if mode = MODE_BASE_STATION then BASE_STATION else ROVER),
      rm_last_ack_cleanup_time = 0, rm_consecutive_timeouts_to_base = 0,
      lp_mode = mode, lp_frame_buffers = Map.empty, lp_endpoint_map = Map.empty,
      lp_current_sequence = 0, lp_message_callback = True, lp_running = True,
      lp_session_active = True, lp_check_counter = 0, delivered = []\<rparr>"

lemma sample_node_simps [simp]:
  "lp_running (sample_node mode)" "lp_mode (sample_node mode) = mode" "rm_running (sample_node mode)"
  "lp_frame_buffers (sample_node mode) = Map.empty" "lp_session_active (sample_node mode)"
  "lp_message_callback (sample_node mode)" "rm_retransmit_callback (sample_node mode)"
  "delivered (sample_node mode) = []" "rm_sent_packets (sample_node mode) = []"
  "rm_has_acked_sequence L q ep (sample_node mode) = False"
  "lp_current_sequence (sample_node mode) = 0"
  "node_ok (sample_node mode)"
  by (cases mode; simp add: sample_node_def rm_has_acked_sequence_def node_ok_def)+

lemma sample_role [simp]:
  "rm_role (sample_node MODE_BASE_STATION) = BASE_STATION" "rm_role (sample_node MODE_ROVER) = ROVER"
  by (simp_all add: sample_node_def)

lemma sample_reach [simp]: "can_reach (sample_node mode) sample_ep"
  by (cases mode)
    (simp_all add: can_reach_def valid_recipient_def is_unspecified_def sample_ep_def,
     simp_all add: sample_node_def)

lemma sample_damage: "wire_ok (sample_packet, None)" "wire_ok (sample_packet, Some (10, 0x42))"
proof -
  have "packet_to_bytes sample_packet ! 10 = 0x41"
    by (simp add: packet_to_bytes_def nth_append sample_packet_def wire_simps)
  then show "wire_ok (sample_packet, Some (10, 0x42))" by (simp add: wire_ok_def damage_def)
qed (simp add: wire_ok_def)

theorem framing_delivers_intact_packets_witness:
  "lp_frame_buffers (lp_handle_udp_data sample_lib0 log_cb
       (concat (map on_wire [(sample_packet, Some (10, 0x42)), (sample_packet, None)])) sample_ep
       (sample_node MODE_BASE_STATION)) (get_endpoint_key sample_lib0 sample_ep) = Some []"
  by (rule framing_delivers_intact_packets [THEN conjunct2]) (use sample_damage in simp_all)

text \<open>C28: a gap check of a rover with a registered base station sends one NAK to the base station for each
  of the first three missing numbers that were not reported within the debounce time, in order, and
  exactly those become recently reported: no number is reported twice within the debounce time, and
  no check sends more than three NAKs.\<close>

theorem gap_check_sends_naks:
  assumes "lp_mode s = MODE_ROVER" and "client_base_endpoint s = Inr base" and "can_reach s base"
    and "qs = take MAX_NAKS_PER_CHECK
                (filter (\<lambda>q. \<not> rm_is_recently_naked q s) (rm_get_missing_sequences L ep s))"
  shows "outbox (lp_check_sequence_gaps L ep s) =
           outbox s @ nak_datagrams base (generate_timestamp s) (lp_current_sequence s) qs
         \<and> (\<forall>q. rm_is_recently_naked q (lp_check_sequence_gaps L ep s) \<longleftrightarrow>
                q \<in> set qs \<or> rm_is_recently_naked q s)
         \<and> length qs \<le> 3"
proof -
  have "lp_check_sequence_gaps L ep s = foldl (\<lambda>s q. report_gap q s) s qs"
    using nak_loop_spec [OF rm_get_missing_distinct [of L ep s], of 0 s] assms(4)
    by (simp add: lp_check_sequence_gaps_def MAX_NAKS_PER_CHECK_def)
  then show ?thesis
    using report_gaps_out [OF assms(1-3)] assms(4)
    by (simp add: report_gaps_naked MAX_NAKS_PER_CHECK_def)
qed

theorem gap_check_sends_naks_witness:
  "outbox (lp_check_sequence_gaps sample_lib0 sample_ep
     ((sample_node MODE_ROVER)\<lparr>rm_received_sequences := (\<lambda>_. Some [(0, 0), (2, 0)])\<rparr>)) \<noteq> []"
proof -
  let ?s = "(sample_node MODE_ROVER)\<lparr>rm_received_sequences := (\<lambda>_. Some [(0, 0), (2, 0)])\<rparr>"
  have base: "client_base_endpoint ?s = Inr sample_ep"
    by (simp add: sample_node_def client_base_endpoint_def cl_get_base_endpoint_def sample_ep_def
        is_unspecified_def)
  have reach: "can_reach ?s sample_ep" and mode: "lp_mode ?s = MODE_ROVER"
    by (simp_all add: sample_node_def can_reach_def node_ok_def valid_recipient_def is_unspecified_def
        sample_ep_def)
  have missing: "\<exists>qs. rm_get_missing_sequences sample_lib0 sample_ep ?s = 1 # qs"
    by (simp add: rm_get_missing_sequences_def sample_node_def WINDOW_SIZE_def upt_conv_Cons [of "Suc 0" 17])
  have fresh: "\<not> rm_is_recently_naked 1 ?s" by (simp add: rm_is_recently_naked_def sample_node_def)
  show ?thesis
    using gap_check_sends_naks [OF mode base reach refl, of sample_lib0 sample_ep] missing fresh
    by (auto simp: nak_datagrams_Cons MAX_NAKS_PER_CHECK_def)
qed

text \<open>C17: a NAK received by a running base station makes it send again, byte for byte, the packet it
  keeps under the requested sequence number, to that packet's own recipient, and nothing else; a
  NAK for a number it does not keep sends nothing. No bookkeeping of sent packets changes.\<close>

theorem nak_repairs_loss:
  assumes "lp_running s" and "rm_running s" and "lp_mode s = MODE_BASE_STATION"
    and "rm_role s = BASE_STATION" and "rm_retransmit_callback s"
    and "lp_frame_buffers s (get_endpoint_key L ep) \<in> {None, Some []}"
    and "\<forall>info. map_of (rm_sent_packets s) q = Some info \<longrightarrow> can_reach s (sp_recipient info)"
    and "s' = lp_handle_udp_data L cb (packet_to_bytes (control_packet NAK q seq ts)) ep s"
  shows "outbox s' = outbox s @
           (case map_of (rm_sent_packets s) q of
              None \<Rightarrow> []
            | Some info \<Rightarrow> [(packet_to_bytes (sp_packet info), sp_recipient info)])
         \<and> rm_sent_packets s' = rm_sent_packets s"
proof -
  let ?p = "control_packet NAK q seq ts"
  let ?b = "rm_record_received_sequence L seq ep (buffered L (packet_to_bytes ?p) ep s)"
  have "s' = store_rest L [] ep (rm_process_nak lp_send_packet q ?b)"
    using handle_udp_data_packet [of s ?p L ep cb] assms by (simp add: process_nak_packet)
  then show ?thesis
    using assms(2-5,7) by (auto simp: rm_process_nak_def lp_send_packet_reach split: option.splits)
qed

definition sample_info :: sent_packet_info where
  "sample_info = \<lparr>sp_packet = sample_packet, sp_sent_time = 0, sp_retry_count = 0, sp_recipient = sample_ep\<rparr>"

lemma sample_node_sent [simp]:
  "can_reach (sample_node mode\<lparr>rm_sent_packets := m\<rparr>) ep = can_reach (sample_node mode) ep"
  "outbox (sample_node mode\<lparr>rm_sent_packets := m\<rparr>) = outbox (sample_node mode)"
  by (simp_all add: can_reach_def node_ok_def outbox_def cong: ProtocolMode.case_cong option.case_cong)

theorem nak_repairs_loss_witness:
  "last (outbox (lp_handle_udp_data sample_lib0 log_cb (packet_to_bytes (control_packet NAK 7 0 0)) sample_ep
     ((sample_node MODE_BASE_STATION)\<lparr>rm_sent_packets := [(7, sample_info)]\<rparr>)))
   = (packet_to_bytes sample_packet, sample_ep)"
  using nak_repairs_loss [of "(sample_node MODE_BASE_STATION)\<lparr>rm_sent_packets := [(7, sample_info)]\<rparr>"
      sample_lib0 sample_ep 7 _ log_cb 0 0]
  by (simp add: sample_info_def)

end
