(* ===== verification/Lumen_Invariant.thy ===== *)
theory Lumen_Invariant
  imports Lumen_Reliable
begin

text \<open>
  The invariant of the protocol layer and the contracts between it and the code it calls back. The
  message callback may do anything that keeps the core invariant and leaves the frame buffers
  alone; the timeout callback in addition keeps the role. Under these contracts every entry point of
  the layer keeps the full invariant, in which the buffers are bounded.
\<close>

text \<open>
  A tracked packet is stored under its own sequence number, is neither an ACK nor a NAK, and has a
  recipient.
\<close>

definition sent_ok :: "(u8, sent_packet_info) smap \<Rightarrow> bool" where
  "sent_ok m \<longleftrightarrow>
     (\<forall>(seq, info) \<in> set m. hdr_sequence (pkt_header (sp_packet info)) = seq \<and>
        hdr_type (pkt_header (sp_packet info)) \<noteq> ACK \<and> hdr_type (pkt_header (sp_packet info)) \<noteq> NAK \<and>
        \<not> is_unspecified (sp_recipient info))"

definition lp_core :: "lib \<Rightarrow> 'a lumen_protocol_scheme \<Rightarrow> bool" where
  "lp_core L s \<longleftrightarrow> node_ok s \<and> rm_inv s \<and> sent_ok (rm_sent_packets s) \<and>
     (\<forall>k ep. lp_endpoint_map s k = Some ep \<longrightarrow> k = get_endpoint_key L ep)"

definition lp_inv :: "lib \<Rightarrow> 'a lumen_protocol_scheme \<Rightarrow> bool" where
  "lp_inv L s \<longleftrightarrow> lp_core L s \<and>
     (\<forall>k b. lp_frame_buffers s k = Some b \<longrightarrow> length b \<le> MAX_FRAME_BUFFER_SIZE)"

lemma lp_coreD [dest]:
  "lp_core L s \<Longrightarrow> node_ok s" "lp_core L s \<Longrightarrow> rm_inv s" "lp_core L s \<Longrightarrow> sent_ok (rm_sent_packets s)"
  by (simp_all add: lp_core_def)

lemma rm_inv_cong:
  assumes "rm_inv s" and "rm_sent_packets t = rm_sent_packets s" "rm_recent_naks t = rm_recent_naks s"
    and "rm_received_sequences t = rm_received_sequences s"
    and "rm_acked_sequences t = rm_acked_sequences s" "rm_role t = rm_role s"
  shows "rm_inv t"
  using assms by (simp add: rm_inv_def)

lemma lp_core_cong:
  assumes "lp_core L s" and "rm_sent_packets t = rm_sent_packets s" "rm_recent_naks t = rm_recent_naks s"
    and "rm_received_sequences t = rm_received_sequences s"
    and "rm_acked_sequences t = rm_acked_sequences s" "rm_role t = rm_role s"
    and "lp_endpoint_map t = lp_endpoint_map s" and "node_ok t"
  shows "lp_core L t"
  using assms rm_inv_cong [of s t] by (auto simp: lp_core_def)

lemma sent_ok_erase: "sent_ok m \<Longrightarrow> sent_ok (smap_erase q m)"
  by (auto simp: sent_ok_def smap_erase_def)

lemma sent_ok_emplace:
  assumes "sent_ok m" and "hdr_sequence (pkt_header (sp_packet info)) = q"
    and "hdr_type (pkt_header (sp_packet info)) \<noteq> ACK" "hdr_type (pkt_header (sp_packet info)) \<noteq> NAK"
    and "\<not> is_unspecified (sp_recipient info)"
  shows "sent_ok (smap_emplace q info m)"
  using assms unfolding sent_ok_def by (intro smap_emplace_ball) auto

lemma sent_ok_pass:
  "sent_ok m \<Longrightarrow> sent_ok (map (\<lambda>(seq, info). (seq, bumped now info))
                        (filter (\<lambda>(seq, info). \<not> given_up now info) m))"
  by (auto simp: sent_ok_def bumped_def)

subsection \<open>The operations that do not call back\<close>

lemma lp_core_send_packet: "lp_core L s \<Longrightarrow> lp_core L (lp_send_packet p ep s)"
  by (rule lp_core_cong) auto

lemma lp_core_seq: "lp_core L s \<Longrightarrow> lp_core L (s\<lparr>lp_current_sequence := q\<rparr>)"
  by (rule lp_core_cong) auto

lemma lp_core_counter: "lp_core L s \<Longrightarrow> lp_core L (s\<lparr>lp_check_counter := q\<rparr>)"
  by (rule lp_core_cong) auto

lemma lp_core_record_received: "lp_core L s \<Longrightarrow> lp_core L (rm_record_received_sequence L' q ep s)"
  by (simp add: lp_core_def rm_inv_record_received)

lemma lp_core_record_acked: "lp_core L s \<Longrightarrow> lp_core L (rm_record_acked_sequence L' q ep s)"
  by (simp add: lp_core_def rm_inv_record_acked)

lemma lp_core_record_nak: "lp_core L s \<Longrightarrow> lp_core L (rm_record_nak_sent q s)"
  by (simp add: lp_core_def rm_inv_record_nak_sent)

lemma lp_core_process_ack: "lp_core L s \<Longrightarrow> lp_core L (rm_process_ack q s)"
proof -
  assume core: "lp_core L s"
  have "rm_sent_packets (rm_process_ack q s) \<in> {rm_sent_packets s, smap_erase q (rm_sent_packets s)}"
    by (simp add: rm_process_ack_def split: option.splits)
  then have "sent_ok (rm_sent_packets (rm_process_ack q s))"
    using core by (auto simp: sent_ok_erase)
  then show ?thesis using core by (simp add: lp_core_def rm_inv_process_ack)
qed

lemma lp_core_process_nak: "lp_core L s \<Longrightarrow> lp_core L (rm_process_nak lp_send_packet q s)"
  by (simp add: rm_process_nak_def lp_core_send_packet split: option.splits)

lemma lp_core_send_ack: "lp_core L s \<Longrightarrow> lp_core L (lp_send_ack L' q ep s)"
  by (simp add: lp_send_ack_def Let_def lp_core_send_packet lp_core_seq lp_core_record_acked)

lemma lp_core_send_nak: "lp_core L s \<Longrightarrow> lp_core L (lp_send_nak q s)"
  by (simp add: lp_send_nak_def Let_def lp_core_send_packet lp_core_seq split: sum.splits)

lemma lp_core_nak_loop: "lp_core L s \<Longrightarrow> lp_core L (nak_loop qs n s)"
  by (induction qs n s rule: nak_loop.induct)
    (simp_all add: Let_def lp_core_send_nak lp_core_record_nak)

lemma lp_core_add_send_packet:
  assumes "lp_core L s" and "hdr_sequence (pkt_header p) = q"
    and "hdr_type (pkt_header p) \<noteq> ACK" "hdr_type (pkt_header p) \<noteq> NAK" "\<not> is_unspecified ep"
  shows "lp_core L (rm_add_send_packet q p ep s)"
proof -
  have "sent_ok (rm_sent_packets (rm_add_send_packet q p ep s))"
    using assms by (auto simp: rm_add_send_packet_def intro: sent_ok_emplace)
  then show ?thesis using assms(1) by (simp add: lp_core_def rm_inv_add_send_packet)
qed

lemma client_base_specified: "client_base_endpoint s = Inr base \<Longrightarrow> \<not> is_unspecified base"
  by (auto simp: client_base_endpoint_def cl_get_base_endpoint_def split: option.splits if_splits)

lemma lp_core_send_message:
  assumes "lp_core L s"
  shows "lp_core L (state_of (lp_send_message payload type priority recipient s))"
proof -
  have sent: "lp_core L (state_of (lp_send_message payload type priority ep s))"
    if "\<not> is_unspecified ep" "lp_running s" for ep
    using that assms
    by (auto simp: lp_send_message_to intro!: lp_core_send_packet lp_core_add_send_packet lp_core_seq)
  show ?thesis
  proof (cases "lp_running s \<and> is_unspecified recipient")
    case True
    then have eq: "client_base_endpoint s = Inr base \<Longrightarrow> lp_mode s = MODE_ROVER \<Longrightarrow>
        lp_send_message payload type priority recipient s = lp_send_message payload type priority base s"
      for base
      using client_base_specified [of s base] by (simp add: lp_send_message_def Let_def)
    show ?thesis
    proof (cases "lp_mode s = MODE_ROVER \<and> (\<exists>base. client_base_endpoint s = Inr base)")
      case r: True
      then obtain base where "client_base_endpoint s = Inr base" by auto
      then show ?thesis using eq sent [of base] r True client_base_specified [of s base] by simp
    next
      case False
      then show ?thesis
        using True assms
        by (auto simp: lp_send_message_def Let_def lp_core_seq split: ProtocolMode.splits sum.splits)
    qed
  next
    case False
    then show ?thesis using sent [of recipient] assms by (auto simp: lp_send_message_def)
  qed
qed

lemma lp_send_message_keeps [simp]:
  "lp_frame_buffers (state_of (lp_send_message payload type priority recipient s)) = lp_frame_buffers s"
  "lp_mode (state_of (lp_send_message payload type priority recipient s)) = lp_mode s"
  "lp_running (state_of (lp_send_message payload type priority recipient s)) = lp_running s"
  "lp_session_active (state_of (lp_send_message payload type priority recipient s)) = lp_session_active s"
  "lp_message_callback (state_of (lp_send_message payload type priority recipient s)) = lp_message_callback s"
  "rm_role (state_of (lp_send_message payload type priority recipient s)) = rm_role s"
  "rm_running (state_of (lp_send_message payload type priority recipient s)) = rm_running s"
  by (simp_all add: lp_send_message_def Let_def split: ProtocolMode.splits sum.splits)

subsection \<open>The contract of the message callback\<close>

lemma lp_core_store_rest: "lp_core L s \<Longrightarrow> lp_core L (store_rest L' r ep s)"
  by (rule lp_core_cong) (auto simp: store_rest_def node_ok_def cong: ProtocolMode.case_cong)

lemma lp_core_buffered: "lp_core L s \<Longrightarrow> lp_core L (buffered L d ep s)"
  by (auto simp: lp_core_def buffered_def node_ok_def rm_inv_def cong: ProtocolMode.case_cong)

lemma store_rest_buffers:
  "lp_frame_buffers (store_rest L r ep s) =
     (lp_frame_buffers s)(get_endpoint_key L ep \<mapsto> (if length r > MAX_FRAME_BUFFER_SIZE then [] else r))"
  by (simp add: store_rest_def)

lemma buffered_buffers:
  "k \<noteq> get_endpoint_key L ep \<Longrightarrow> lp_frame_buffers (buffered L d ep s) k = lp_frame_buffers s k"
  by (simp add: buffered_def)

locale protocol_client =
  fixes L :: lib and cb :: "'a message_callback"
  assumes cb_core: "lp_core L s \<Longrightarrow> lp_core L (cb payload header ep s)"
    and cb_buffers: "lp_frame_buffers (cb payload header ep s) = lp_frame_buffers s"
begin

lemma process_core: "lp_core L s \<Longrightarrow> lp_core L (lp_process_complete_packet L cb p ep s)"
  by (auto simp: lp_process_complete_packet_def Let_def lp_check_sequence_gaps_def case_prod_beta
      intro!: cb_core lp_core_process_ack lp_core_process_nak lp_core_record_received lp_core_counter
        lp_core_send_ack lp_core_record_acked lp_core_nak_loop)

lemma process_buffers:
  "lp_frame_buffers (lp_process_complete_packet L cb p ep s) = lp_frame_buffers s"
  by (auto simp: lp_process_complete_packet_def Let_def cb_buffers case_prod_beta)

lemma process_all:
  "lp_core L s \<Longrightarrow>
   lp_core L (foldl (\<lambda>s p. lp_process_complete_packet L cb p ep s) s ps) \<and>
   lp_frame_buffers (foldl (\<lambda>s p. lp_process_complete_packet L cb p ep s) s ps) = lp_frame_buffers s"
  by (induction ps arbitrary: s) (simp_all add: process_core process_buffers)

lemma wrap_inv: "lp_inv L s \<Longrightarrow> lp_inv L (lp_wrap_raw_data L cb d ep s)"
  by (simp add: lp_wrap_raw_data_def Let_def lp_inv_def cb_core cb_buffers split: sum.splits)

lemma lumen_inv:
  assumes "lp_inv L s" "lp_running s" "data \<noteq> []" "data ! 0 = LUMEN_STX"
  shows "lp_inv L (lp_handle_udp_data L cb data ep s)"
proof -
  let ?old = "case lp_frame_buffers s (get_endpoint_key L ep) of Some b \<Rightarrow> b | None \<Rightarrow> []"
  let ?s = "foldl (\<lambda>s p. lp_process_complete_packet L cb p ep s) (buffered L data ep s)
              (fst (deframe (?old @ data)))"
  have core: "lp_core L (buffered L data ep s)"
    using assms(1) by (simp add: lp_inv_def lp_core_buffered)
  note all = process_all [OF core, of ep "fst (deframe (?old @ data))"]
  have "lp_frame_buffers (lp_handle_udp_data L cb data ep s) k = Some b \<Longrightarrow>
      length b \<le> MAX_FRAME_BUFFER_SIZE" for k b
    using all assms(1) unfolding handle_udp_data_lumen [OF assms(2-4) refl]
    by (cases "k = get_endpoint_key L ep")
      (auto simp: store_rest_buffers buffered_buffers lp_inv_def split: if_splits)
  then show ?thesis
    using all unfolding lp_inv_def handle_udp_data_lumen [OF assms(2-4) refl]
    by (simp add: lp_core_store_rest)
qed

lemma handle_udp_inv: "lp_inv L s \<Longrightarrow> lp_inv L (lp_handle_udp_data L cb data ep s)"
proof (cases "lp_running s \<and> data \<noteq> [] \<and> data ! 0 = LUMEN_STX")
  case True
  then show "lp_inv L s \<Longrightarrow> ?thesis" by (simp add: lumen_inv)
next
  case False
  then show "lp_inv L s \<Longrightarrow> ?thesis"
    by (auto simp: lp_handle_udp_data_def Let_def lp_inv_def cb_core cb_buffers
        intro: wrap_inv [unfolded lp_inv_def, THEN conjunct1]
          wrap_inv [unfolded lp_inv_def, THEN conjunct2, rule_format] split: sum.splits)
qed

text \<open>Any sequence of datagrams from any peers.\<close>

lemma handle_udp_run_inv:
  "lp_inv L s \<Longrightarrow> lp_inv L (foldl (\<lambda>s (data, ep). lp_handle_udp_data L cb data ep s) s ds)"
  by (induction ds arbitrary: s) (auto simp: handle_udp_inv)

end

subsection \<open>Timers, clocks and life cycle\<close>

lemma lp_inv_cong:
  assumes "lp_inv L s" and "rm_sent_packets t = rm_sent_packets s" "rm_recent_naks t = rm_recent_naks s"
    and "rm_received_sequences t = rm_received_sequences s"
    and "rm_acked_sequences t = rm_acked_sequences s" "rm_role t = rm_role s"
    and "lp_endpoint_map t = lp_endpoint_map s" "lp_frame_buffers t = lp_frame_buffers s" and "node_ok t"
  shows "lp_inv L t"
  using assms lp_core_cong [of L s t] by (auto simp: lp_inv_def)

lemma lp_inv_server:
  "lp_inv L s \<Longrightarrow> lp_mode s = MODE_BASE_STATION \<Longrightarrow> lp_inv L (s\<lparr>server := Some srv\<rparr>)"
  by (rule lp_inv_cong) (auto simp: lp_inv_def lp_core_def node_ok_def)

lemma lp_inv_client:
  "lp_inv L s \<Longrightarrow> lp_mode s = MODE_ROVER \<Longrightarrow> lp_inv L (s\<lparr>client := Some c\<rparr>)"
  by (rule lp_inv_cong) (auto simp: lp_inv_def lp_core_def node_ok_def)

lemma lp_inv_clock: "lp_inv L s \<Longrightarrow> lp_inv L (s\<lparr>steady_now := t, system_now := u\<rparr>)"
  by (rule lp_inv_cong)
    (auto simp: lp_inv_def lp_core_def node_ok_def split: ProtocolMode.splits)

lemma lp_inv_node: "lp_inv L s \<Longrightarrow> node_ok s"
  by (auto simp: lp_inv_def)

lemma node_ok_cong:
  assumes "node_ok s" "lp_mode t = lp_mode s" "rm_role t = rm_role s" "server t = server s" "client t = client s"
  shows "node_ok t"
  using assms by (simp add: node_ok_def cong: ProtocolMode.case_cong)

lemma lp_inv_cleanup_timer: "lp_inv L s \<Longrightarrow> lp_inv L (rm_handle_cleanup_timer s)"
proof -
  assume inv: "lp_inv L s"
  let ?c = "rm_cleanup_old_entries s"
  have keeps: "rm_sent_packets ?c = rm_sent_packets s" "lp_endpoint_map ?c = lp_endpoint_map s"
    "lp_frame_buffers ?c = lp_frame_buffers s" "lp_mode ?c = lp_mode s" "rm_role ?c = rm_role s"
    "server ?c = server s" "client ?c = client s"
    by (simp_all add: rm_cleanup_old_entries_def Let_def)
  have "node_ok ?c" using lp_inv_node [OF inv] keeps by (intro node_ok_cong [of s ?c]) simp_all
  then have c: "lp_inv L ?c" using inv keeps by (simp add: lp_inv_def lp_core_def rm_inv_cleanup)
  have "lp_inv L (?c\<lparr>rm_cleanup_timer := tm\<rparr>)" for tm
    using c by (rule lp_inv_cong) (use lp_inv_node [OF c] in \<open>auto intro: node_ok_cong\<close>)
  then show ?thesis using c inv by (simp add: rm_handle_cleanup_timer_def Let_def)
qed

lemma lp_inv_stop: "lp_inv L s \<Longrightarrow> lp_inv L (lp_stop s)"
  by (auto simp: lp_stop_def rm_stop_def node_ok_def lp_inv_def lp_core_def rm_inv_def
      split: ProtocolMode.splits)

lemma lp_inv_reset: "lp_inv L s \<Longrightarrow> lp_inv L (lp_reset_sequence_number s)"
  by (auto simp: lp_inv_def lp_core_def lp_reset_sequence_number_def rm_reset_state_def rm_inv_def
      sent_ok_def node_ok_def split: ProtocolMode.splits)

subsection \<open>The contract of the timeout callback\<close>

locale timeout_client =
  fixes L :: lib and on_timeout :: "'a timeout_callback"
  assumes timeout_core: "lp_core L s \<Longrightarrow> lp_core L (on_timeout ep s)"
    and timeout_buffers: "lp_frame_buffers (on_timeout ep s) = lp_frame_buffers s"
    and timeout_role: "rm_role (on_timeout ep s) = rm_role s"
begin

definition notified :: "time_point \<Rightarrow> 'a lumen_protocol_scheme \<Rightarrow> 'a lumen_protocol_scheme" where
  "notified now s =
     foldl (\<lambda>s (seq, info). if ep_port (sp_recipient info) = 9000 \<and> rm_timeout_callback s
                            then on_timeout (sp_recipient info) s else s)
       s (filter (\<lambda>(seq, info). given_up now info) (rm_sent_packets s))"

lemma notified_core:
  assumes "lp_core L s"
  shows "lp_core L (notified now s) \<and> lp_frame_buffers (notified now s) = lp_frame_buffers s
         \<and> rm_role (notified now s) = rm_role s"
  unfolding notified_def
  by (rule foldl_preserves [where P = "\<lambda>t. lp_core L t \<and> lp_frame_buffers t = lp_frame_buffers s
        \<and> rm_role t = rm_role s"])
    (use assms in \<open>auto simp: timeout_core timeout_buffers timeout_role split: prod.splits\<close>)

lemma get_packets_state:
  assumes "rm_role s = ROVER"
  shows "snd (rm_get_packets_to_retransmit on_timeout s) =
    (notified (steady_now s) s)\<lparr>rm_sent_packets :=
       map (\<lambda>(seq, info). (seq, bumped (steady_now s) info))
         (filter (\<lambda>(seq, info). \<not> given_up (steady_now s) info) (rm_sent_packets s))\<rparr>"
  using retransmit_loop_rover [OF assms timeout_role]
  by (simp add: rm_get_packets_to_retransmit_def notified_def)

lemma get_packets_core:
  assumes "lp_core L s" "rm_role s = ROVER"
  shows "lp_core L (snd (rm_get_packets_to_retransmit on_timeout s))
       \<and> lp_frame_buffers (snd (rm_get_packets_to_retransmit on_timeout s)) = lp_frame_buffers s"
proof -
  let ?m = "map (\<lambda>(seq, info). (seq, bumped (steady_now s) info))
         (filter (\<lambda>(seq, info). \<not> given_up (steady_now s) info) (rm_sent_packets s))"
  let ?n = "notified (steady_now s) s"
  have n: "lp_core L ?n" "lp_frame_buffers ?n = lp_frame_buffers s" "rm_role ?n = ROVER"
    using notified_core [OF assms(1)] assms(2) by simp_all
  have inv: "smap_inv ?m"
    using assms(1) smap_inv_map_filter [of "rm_sent_packets s" "bumped (steady_now s)"]
    by (auto simp: lp_core_def rm_inv_def)
  have retries: "\<forall>(seq, info) \<in> set ?m. 0 \<le> sp_retry_count info \<and> sp_retry_count info \<le> RELIABILITY_MAX_RETRIES"
    using assms(1) by (intro rm_inv_kept) (simp add: lp_core_def rm_inv_def)
  have "sent_ok ?m" using assms(1) by (auto intro: sent_ok_pass)
  then have "lp_core L (?n\<lparr>rm_sent_packets := ?m\<rparr>)"
    using n(1) inv retries by (auto simp: lp_core_def rm_inv_def node_ok_def split: ProtocolMode.splits)
  then show ?thesis by (simp add: get_packets_state [OF assms(2)] n)
qed

lemma retransmissions_core:
  "lp_core L s \<Longrightarrow>
   lp_core L (foldl (\<lambda>s (packet, ep). lp_send_packet packet ep s) s ps) \<and>
   lp_frame_buffers (foldl (\<lambda>s (packet, ep). lp_send_packet packet ep s) s ps) = lp_frame_buffers s"
  by (induction ps arbitrary: s) (auto simp: lp_core_send_packet)

lemma lp_core_timer: "lp_core L s \<Longrightarrow> lp_core L (s\<lparr>rm_retransmit_timer := tm\<rparr>)"
  by (rule lp_core_cong) (auto simp: node_ok_def split: ProtocolMode.splits)

lemma retransmission_timer_inv:
  assumes "lp_inv L s"
  shows "lp_inv L (rm_handle_retransmission_timer lp_send_packet on_timeout s)"
proof -
  let ?r = "rm_get_packets_to_retransmit on_timeout s"
  define s1 where "s1 = (if rm_role s = ROVER then
        if fst ?r \<noteq> [] \<and> rm_retransmit_callback (snd ?r)
        then foldl (\<lambda>s (packet, ep). lp_send_packet packet ep s) (snd ?r) (fst ?r) else snd ?r
      else s)"
  have s1: "lp_core L s1" "lp_frame_buffers s1 = lp_frame_buffers s"
    using assms get_packets_core [of s] retransmissions_core [of "snd ?r" "fst ?r"]
    by (auto simp: s1_def lp_inv_def)
  have "rm_handle_retransmission_timer lp_send_packet on_timeout s =
      (if \<not> rm_running s then s else if rm_running s1 then
         s1\<lparr>rm_retransmit_timer := async_wait (expires_at (tm_expiry (rm_retransmit_timer s1)
              + ms RELIABILITY_CHECK_INTERVAL) (rm_retransmit_timer s1))\<rparr> else s1)"
    by (simp add: rm_handle_retransmission_timer_def s1_def Let_def case_prod_beta)
  then show ?thesis
    using assms s1 lp_core_timer [OF s1(1)] by (simp add: lp_inv_def)
qed

lemma start_inv:
  assumes "lp_inv L s"
  shows "lp_inv L (lp_start on_timeout s)"
proof -
  let ?s = "s\<lparr>lp_running := True, lp_frame_buffers := Map.empty, lp_endpoint_map := Map.empty\<rparr>"
  let ?r = "?s\<lparr>rm_running := True, rm_sent_packets := [], rm_consecutive_timeouts_to_base := 0,
      rm_received_sequences := Map.empty, rm_recent_naks := [], rm_acked_sequences := Map.empty\<rparr>"
  have "lp_inv L ?s" "lp_inv L ?r"
    using assms by (auto simp: lp_inv_def lp_core_def rm_inv_def sent_ok_def node_ok_def
        split: ProtocolMode.splits)
  then have "lp_inv L (rm_start lp_send_packet on_timeout ?s)"
    by (simp add: rm_start_def Let_def lp_inv_cleanup_timer retransmission_timer_inv)
  then show ?thesis using assms by (simp add: lp_start_def)
qed

end

subsection \<open>Invariants of the layers above\<close>

text \<open>
  The protocol layer only touches its own fields. \<open>upper\<close> blanks the fields the layer's operations
  write: what remains, the layers above included, changes only through the callbacks.
\<close>

definition upper :: "'a lumen_protocol_scheme \<Rightarrow> 'a lumen_protocol_scheme" where
  "upper s =
     s\<lparr>server := None, client := None, rm_sent_packets := [], rm_acked_sequences := Map.empty,
       rm_received_sequences := Map.empty, rm_recent_naks := [],
       rm_retransmit_timer := \<lparr>tm_expiry = 0, tm_waiting = False\<rparr>,
       rm_cleanup_timer := \<lparr>tm_expiry = 0, tm_waiting = False\<rparr>, rm_last_ack_cleanup_time := 0,
       rm_consecutive_timeouts_to_base := 0, lp_frame_buffers := Map.empty,
       lp_endpoint_map := Map.empty, lp_current_sequence := 0, lp_check_counter := 0\<rparr>"

lemma lower_of_upper:
  "lp_mode (upper s) = lp_mode s" "lp_running (upper s) = lp_running s" "rm_running (upper s) = rm_running s"
  "lp_session_active (upper s) = lp_session_active s" "lp_message_callback (upper s) = lp_message_callback s"
  "system_now (upper s) = system_now s" "steady_now (upper s) = steady_now s" "rm_role (upper s) = rm_role s"
  by (simp_all add: upper_def)

lemma same_upper:
  assumes "upper t = upper s"
  shows "lp_mode t = lp_mode s" "lp_running t = lp_running s" "rm_running t = rm_running s"
    "lp_session_active t = lp_session_active s" "lp_message_callback t = lp_message_callback s"
    "system_now t = system_now s" "steady_now t = steady_now s" "rm_role t = rm_role s"
  using assms by (metis lower_of_upper)+

lemma upper_keeps [simp]:
  "upper (lp_send_packet p ep s) = upper s"
  "upper (rm_record_received_sequence L q ep s) = upper s"
  "upper (rm_record_acked_sequence L q ep s) = upper s"
  "upper (rm_record_nak_sent q s) = upper s"
  "upper (rm_add_send_packet q p ep s) = upper s"
  "upper (rm_process_ack q s) = upper s"
  "upper (s\<lparr>lp_current_sequence := n\<rparr>) = upper s"
  "upper (s\<lparr>lp_check_counter := n\<rparr>) = upper s"
  "upper (s\<lparr>rm_sent_packets := m\<rparr>) = upper s"
  "upper (s\<lparr>rm_retransmit_timer := tm\<rparr>) = upper s"
  "upper (s\<lparr>server := srv\<rparr>) = upper s"
  "upper (s\<lparr>client := cl\<rparr>) = upper s"
  "upper (buffered L d ep s) = upper s"
  "upper (store_rest L d ep s) = upper s"
  "upper (rm_handle_cleanup_timer s) = upper s"
  by (simp_all add: upper_def lp_send_packet_def rm_record_received_sequence_def buffered_def
      rm_record_acked_sequence_def rm_record_nak_sent_def rm_add_send_packet_def rm_process_ack_def
      rm_handle_cleanup_timer_def rm_cleanup_old_entries_def store_rest_def Let_def
      split: ProtocolMode.splits option.splits)

lemma upper_keeps2 [simp]:
  "upper (rm_process_nak lp_send_packet q s) = upper s"
  "upper (lp_send_ack L q ep s) = upper s"
  "upper (lp_send_nak q s) = upper s"
  by (simp_all add: rm_process_nak_def lp_send_ack_def lp_send_nak_def Let_def
      split: option.splits sum.splits)

lemma upper_nak_loop [simp]: "upper (nak_loop qs n s) = upper s"
  by (induction qs n s rule: nak_loop.induct) (simp_all add: Let_def)

lemma upper_send_message [simp]:
  "upper (state_of (lp_send_message payload type priority recipient s)) = upper s"
  by (simp add: lp_send_message_def Let_def split: ProtocolMode.splits sum.splits)

locale upper_invariant =
  fixes P :: "'a lumen_protocol_scheme \<Rightarrow> bool"
    and cb :: "'a message_callback" and on_timeout :: "'a timeout_callback"
  assumes P_upper: "P s \<Longrightarrow> upper t = upper s \<Longrightarrow> P t"
    and P_cb: "P s \<Longrightarrow> P (cb payload header ep s)"
    and P_timeout: "P s \<Longrightarrow> P (on_timeout ep s)"
begin

lemma P_process: "P s \<Longrightarrow> P (lp_process_complete_packet L cb p ep s)"
proof -
  assume P: "P s"
  define seq where "seq = hdr_sequence (pkt_header p)"
  define s0 where "s0 = rm_record_received_sequence L seq ep s"
  have s0: "P s0" using P by (rule P_upper) (simp add: s0_def)
  have cbs: "P (cb x y z t)" if "upper t = upper s0" for x y z t
    using P_cb P_upper [OF s0 that] by blast
  show ?thesis
    unfolding lp_process_complete_packet_def Let_def seq_def [symmetric] s0_def [symmetric]
      lp_check_sequence_gaps_def
    by (auto intro: P_upper [OF s0] cbs)
qed

lemma P_foldl: "P s \<Longrightarrow> P (foldl (\<lambda>s p. lp_process_complete_packet L cb p ep s) s ps)"
  by (rule foldl_preserves [where P = P]) (auto intro: P_process)

lemma P_wrap: "P s \<Longrightarrow> P (lp_wrap_raw_data L cb d ep s)"
  by (simp add: lp_wrap_raw_data_def Let_def P_cb split: sum.splits)

lemma P_handle_udp_data: "P s \<Longrightarrow> P (lp_handle_udp_data L cb data ep s)"
proof (cases "lp_running s \<and> data \<noteq> [] \<and> data ! 0 = LUMEN_STX")
  case True
  assume "P s"
  then have "P (buffered L data ep s)" by (rule P_upper) simp
  then have P: "P (foldl (\<lambda>s p. lp_process_complete_packet L cb p ep s) (buffered L data ep s) ps)" for ps
    by (rule P_foldl)
  show ?thesis
    using True by (auto simp: handle_udp_data_lumen [OF _ _ _ refl] intro: P_upper [OF P])
next
  case False
  then show "P s \<Longrightarrow> ?thesis"
    by (auto simp: lp_handle_udp_data_def Let_def P_cb P_wrap split: sum.splits)
qed

lemma P_retransmit_loop: "P s \<Longrightarrow> P (snd (snd (retransmit_loop on_timeout now m s)))"
proof (induction m arbitrary: s)
  case (Cons e m)
  obtain q info where e: "e = (q, info)" by fastforce
  show ?case
    using Cons by (auto simp: e Let_def P_timeout case_prod_beta)
qed simp

lemma P_retransmission_timer:
  assumes "P s"
  shows "P (rm_handle_retransmission_timer lp_send_packet on_timeout s)"
proof -
  define r where "r = rm_get_packets_to_retransmit on_timeout s"
  have r: "P (snd r)"
    using P_retransmit_loop [OF assms, of "steady_now s" "rm_sent_packets s"]
    by (auto simp: r_def rm_get_packets_to_retransmit_def case_prod_beta Let_def intro: P_upper)
  have "upper (foldl (\<lambda>s (packet, ep). lp_send_packet packet ep s) t ps) = upper t" for t ps
    by (induction ps arbitrary: t) (auto split: prod.splits)
  then show ?thesis
    using r assms unfolding rm_handle_retransmission_timer_def r_def [symmetric]
    by (auto simp: Let_def case_prod_beta intro: P_upper [OF r] P_upper [OF assms])
qed

lemma P_start:
  assumes "P s" and "P (s\<lparr>lp_running := True\<rparr>)" and "P (s\<lparr>lp_running := True, rm_running := True\<rparr>)"
  shows "P (lp_start on_timeout s)"
proof -
  let ?r = "s\<lparr>lp_running := True, lp_frame_buffers := Map.empty, lp_endpoint_map := Map.empty,
      rm_running := True, rm_sent_packets := [], rm_consecutive_timeouts_to_base := 0,
      rm_received_sequences := Map.empty, rm_recent_naks := [], rm_acked_sequences := Map.empty\<rparr>"
  have "P (rm_handle_retransmission_timer lp_send_packet on_timeout ?r)"
    by (intro P_retransmission_timer P_upper [OF assms(3)]) (simp add: upper_def)
  then have "P (rm_handle_cleanup_timer (rm_handle_retransmission_timer lp_send_packet on_timeout ?r))"
    by (rule P_upper) simp
  moreover have "P (s\<lparr>lp_running := True, lp_frame_buffers := Map.empty, lp_endpoint_map := Map.empty\<rparr>)"
    by (rule P_upper [OF assms(2)]) (simp add: upper_def)
  ultimately show ?thesis
    using assms(1) by (simp add: lp_start_def rm_start_def Let_def)
qed

end

end
