(* ===== verification/Message_Manager.thy ===== *)
theory Message_Manager
  imports Lumen_Invariant
begin

text \<open>
  The class \<open>MessageManager\<close> (\<open>include/common/message_manager.hpp\<close>,
  \<open>src/common/message_manager.cpp\<close>): it serialises application messages for the protocol layer or,
  bypassing it, for the transport, and turns received payloads back into messages for the
  application. The application callback may throw; the handler that the protocol layer calls
  catches everything, so it honours the contract of a protocol client whenever the application
  keeps the layers below intact.
\<close>

record message_manager = lumen_protocol +
  mm_sender_id :: string
  mm_message_callback :: bool
  mm_running :: bool

type_synonym 'a app_callback =
  "message \<Rightarrow> endpoint \<Rightarrow> 'a message_manager_scheme \<Rightarrow> 'a message_manager_scheme result"

definition MessageManager ::
  "string \<Rightarrow> 'a message_manager_scheme \<Rightarrow> 'a message_manager_scheme" where
  "MessageManager sender_id s =
     s\<lparr>mm_sender_id := sender_id, mm_message_callback := False, mm_running := False\<rparr>"

definition mm_start :: "'a message_manager_scheme \<Rightarrow> 'a message_manager_scheme" where
  "mm_start s = (if mm_running s then s else lp_set_message_callback (s\<lparr>mm_running := True\<rparr>))"

definition mm_stop :: "'a message_manager_scheme \<Rightarrow> 'a message_manager_scheme" where
  "mm_stop s = (if \<not> mm_running s then s else s\<lparr>mm_running := False\<rparr>)"

definition mm_set_message_callback :: "'a message_manager_scheme \<Rightarrow> 'a message_manager_scheme" where
  "mm_set_message_callback s = s\<lparr>mm_message_callback := True\<rparr>"

definition mm_send_message ::
  "lib \<Rightarrow> message \<Rightarrow> endpoint \<Rightarrow> 'a message_manager_scheme \<Rightarrow> 'a message_manager_scheme" where
  "mm_send_message L message recipient s =
     (if \<not> mm_running s then s
      else case serialise L message of
             Inl e \<Rightarrow> s
           | Inr json_str \<Rightarrow>
               state_of (lp_send_message (string_to_binary json_str) (get_lumen_type message)
                           (get_lumen_priority message) recipient s))"

definition mm_handle_lumen_message ::
  "lib \<Rightarrow> 'a app_callback \<Rightarrow> bytes \<Rightarrow> lumen_header \<Rightarrow> endpoint \<Rightarrow> 'a message_manager_scheme \<Rightarrow>
   'a message_manager_scheme" where
  "mm_handle_lumen_message L app payload header sender s =
     (if \<not> mm_running s then s
      else
        let json_str = binary_to_string payload
        in if \<not> is_valid_json L json_str then s
           else case deserialise L (system_now s) json_str of
                  Inl e \<Rightarrow> s
                | Inr message \<Rightarrow>
                    if mm_message_callback s then state_of (app message sender s) else s)"

definition mm_send_raw_message ::
  "lib \<Rightarrow> message \<Rightarrow> endpoint \<Rightarrow> 'a message_manager_scheme \<Rightarrow> 'a message_manager_scheme" where
  "mm_send_raw_message L message recipient s =
     (if \<not> mm_running s then s
      else case serialise L message of
             Inl e \<Rightarrow> s
           | Inr json_str \<Rightarrow>
               let data = string_to_binary json_str
               in case server s of
                    Some srv \<Rightarrow> s\<lparr>server := Some (srv_send_data data recipient srv)\<rparr>
                  | None \<Rightarrow>
                      (case client s of
                         None \<Rightarrow> s
                       | Some c \<Rightarrow>
                           let sending_to_base =
                                 (is_unspecified recipient \<or>
                                  (case cl_get_base_endpoint c of
                                     Inr base \<Rightarrow> recipient = base
                                   | Inl e \<Rightarrow> is_unspecified recipient))
                           in s\<lparr>client := Some (if sending_to_base then state_of (cl_send_data data c)
                                                else cl_send_data_to data recipient c)\<rparr>))"

definition mm_process_raw_json_message ::
  "'a app_callback \<Rightarrow> message option \<Rightarrow> endpoint \<Rightarrow> 'a message_manager_scheme \<Rightarrow>
   'a message_manager_scheme result" where
  "mm_process_raw_json_message app message sender s =
     (case message of
        None \<Rightarrow> Inr s
      | Some m \<Rightarrow> if \<not> mm_running s then Inr s
                  else if mm_message_callback s then app m sender s else Inr s)"

subsection \<open>The contract of the application\<close>

locale application =
  fixes L :: lib and app :: "'a app_callback"
  assumes app_core: "lp_core L s \<Longrightarrow> lp_core L (state_of (app m ep s))"
    and app_buffers: "lp_frame_buffers (state_of (app m ep s)) = lp_frame_buffers s"

sublocale application \<subseteq> protocol_client L "mm_handle_lumen_message L app"
  by unfold_locales
    (auto simp: mm_handle_lumen_message_def Let_def app_core app_buffers split: sum.splits)

subsection \<open>What sending leaves alone\<close>

lemma lp_core_mm_send_message: "lp_core L s \<Longrightarrow> lp_core L (mm_send_message L' m ep s)"
  by (simp add: mm_send_message_def lp_core_send_message split: sum.splits)

lemma mm_send_message_keeps [simp]:
  "lp_frame_buffers (mm_send_message L m ep s) = lp_frame_buffers s"
  "lp_mode (mm_send_message L m ep s) = lp_mode s"
  "lp_running (mm_send_message L m ep s) = lp_running s"
  "lp_session_active (mm_send_message L m ep s) = lp_session_active s"
  "lp_message_callback (mm_send_message L m ep s) = lp_message_callback s"
  "rm_role (mm_send_message L m ep s) = rm_role s"
  "rm_running (mm_send_message L m ep s) = rm_running s"
  by (simp_all add: mm_send_message_def split: sum.splits)

lemma mm_running_send_packet [simp]:
  "mm_running (lp_send_packet p ep s) = mm_running s"
  "mm_message_callback (lp_send_packet p ep s) = mm_message_callback s"
  by (simp_all add: lp_send_packet_def Let_def split: ProtocolMode.splits option.splits)

lemma node_ok_mm_send_raw [simp]: "node_ok (mm_send_raw_message L m ep s) = node_ok s"
  by (auto simp: mm_send_raw_message_def node_ok_def Let_def
      split: sum.splits option.splits ProtocolMode.splits)

lemma mm_send_raw_keeps [simp]:
  "lp_frame_buffers (mm_send_raw_message L m ep s) = lp_frame_buffers s"
  "lp_endpoint_map (mm_send_raw_message L m ep s) = lp_endpoint_map s"
  "lp_mode (mm_send_raw_message L m ep s) = lp_mode s"
  "lp_running (mm_send_raw_message L m ep s) = lp_running s"
  "lp_session_active (mm_send_raw_message L m ep s) = lp_session_active s"
  "lp_current_sequence (mm_send_raw_message L m ep s) = lp_current_sequence s"
  "rm_role (mm_send_raw_message L m ep s) = rm_role s"
  "rm_sent_packets (mm_send_raw_message L m ep s) = rm_sent_packets s"
  "rm_recent_naks (mm_send_raw_message L m ep s) = rm_recent_naks s"
  "rm_received_sequences (mm_send_raw_message L m ep s) = rm_received_sequences s"
  "rm_acked_sequences (mm_send_raw_message L m ep s) = rm_acked_sequences s"
  by (simp_all add: mm_send_raw_message_def Let_def split: sum.splits option.splits)

lemma lp_core_mm_send_raw: "lp_core L s \<Longrightarrow> lp_core L (mm_send_raw_message L' m ep s)"
  by (rule lp_core_cong) auto

subsection \<open>What sending puts on the wire\<close>

lemma mm_send_message_eq:
  assumes "mm_running s" "lp_running s" "\<not> is_unspecified ep" "serialise L m = Inr json"
  shows "mm_send_message L m ep s =
    (let p = message_packet (string_to_binary json) (get_lumen_type m) (get_lumen_priority m) s;
         s1 = s\<lparr>lp_current_sequence := lp_current_sequence s + 1\<rparr>
     in lp_send_packet p ep (rm_add_send_packet (lp_current_sequence s) p ep s1))"
proof -
  have "get_lumen_type m \<noteq> ACK" "get_lumen_type m \<noteq> NAK" by (cases m; simp)+
  then show ?thesis using assms by (simp add: mm_send_message_def lp_send_message_to Let_def)
qed

lemma mm_send_message_out:
  assumes "mm_running s" "lp_running s" "\<not> is_unspecified ep" "serialise L m = Inr json"
    and "can_reach s ep"
  shows "outbox (mm_send_message L m ep s) = outbox s @
    [(packet_to_bytes (message_packet (string_to_binary json) (get_lumen_type m)
        (get_lumen_priority m) s), ep)]"
  using assms by (simp add: mm_send_message_eq Let_def lp_send_packet_reach)

lemma mm_send_message_seq:
  assumes "mm_running s" "lp_running s" "\<not> is_unspecified ep" "serialise L m = Inr json"
  shows "lp_current_sequence (mm_send_message L m ep s) = lp_current_sequence s + 1"
  using assms by (simp add: mm_send_message_eq Let_def)

lemma mm_keeps_send [simp]:
  "mm_running (mm_send_message L m ep s) = mm_running s"
  "mm_message_callback (mm_send_message L m ep s) = mm_message_callback s"
  "system_now (mm_send_message L m ep s) = system_now s"
  "steady_now (mm_send_message L m ep s) = steady_now s"
  by (simp_all add: mm_send_message_def lp_send_message_def Let_def rm_add_send_packet_def
      split: sum.splits ProtocolMode.splits)

lemma can_reach_mm_send [simp]: "can_reach (mm_send_message L m ep s) ep' = can_reach s ep'"
  by (simp add: mm_send_message_def lp_send_message_def Let_def
      split: sum.splits ProtocolMode.splits)

text \<open>The datagram that carries a command.\<close>

definition command_datagram ::
  "string \<Rightarrow> endpoint \<Rightarrow> 'a lumen_protocol_scheme \<Rightarrow> datagram" where
  "command_datagram json ep s = (packet_to_bytes (message_packet (string_to_binary json) CMD HIGH s), ep)"

lemma command_datagram_cong:
  "lp_current_sequence t = lp_current_sequence s \<Longrightarrow> system_now t = system_now s \<Longrightarrow>
   command_datagram json ep t = command_datagram json ep s"
  by (simp add: command_datagram_def message_packet_def generate_timestamp_def)

lemma mm_of_upper: "mm_running (upper s) = mm_running s" "mm_message_callback (upper s) = mm_message_callback s"
  by (simp_all add: upper_def)

lemma upper_mm_send [simp]:
  "upper (mm_send_message L m ep s) = upper s" "upper (mm_send_raw_message L m ep s) = upper s"
  by (simp_all add: mm_send_message_def mm_send_raw_message_def Let_def split: sum.splits option.splits)

end
