(* ===== verification/Base_Station.thy ===== *)
theory Base_Station
  imports Message_Manager
begin

text \<open>
  The class \<open>BaseStation\<close> (\<open>include/base/base_station.hpp\<close>, \<open>src/base/base_station.cpp\<close>): the
  session state machine of the base station, the routing of received messages to the application,
  and the commands it sends. Handlers posted to the \<open>io_context\<close> are the list \<open>bs_posted\<close>, in order.
  The step relation collects everything that can happen to a base station; its invariant is proved
  by rule induction.
\<close>

datatype BaseSessionState = B_INACTIVE | B_HANDSHAKE_INIT | B_HANDSHAKE_ACCEPT | B_ACTIVE

text \<open>The two kinds of task the base station posts: a call of the application or the status callback.\<close>

datatype base_task =
    BaseAppMessage message endpoint
  | BaseStatusUpdate string "(string, real) smap"

record base_station = message_manager +
  bs_session_state :: BaseSessionState
  bs_connected_rover_id :: string
  bs_rover_endpoint :: endpoint
  bs_station_id :: string
  bs_application_message_handler :: bool
  bs_status_callback :: bool
  bs_posted :: "base_task list"

subsection \<open>Sending\<close>

definition bs_send_command ::
  "lib \<Rightarrow> string \<Rightarrow> string \<Rightarrow> 'a base_station_scheme \<Rightarrow> 'a base_station_scheme" where
  "bs_send_command L command params s =
     (let is_session_command = (command = ''SESSION_ACCEPT'' \<or> command = ''SESSION_ESTABLISHED'');
          can_send =
            ((bs_session_state s = B_ACTIVE \<or>
              (bs_session_state s = B_HANDSHAKE_ACCEPT \<and> command = ''SESSION_ACCEPT'') \<or>
              (bs_session_state s = B_ACTIVE \<and> command = ''SESSION_ESTABLISHED'')) \<and>
             \<not> is_unspecified (bs_rover_endpoint s) \<and>
             \<not> (\<not> is_session_command \<and> bs_session_state s \<noteq> B_ACTIVE))
      in if can_send
         then mm_send_message L (CommandMessage command params (bs_station_id s) (system_now s))
                (bs_rover_endpoint s) s
         else s)"

definition bs_send_raw_message ::
  "lib \<Rightarrow> message \<Rightarrow> endpoint \<Rightarrow> 'a base_station_scheme \<Rightarrow> 'a base_station_scheme" where
  "bs_send_raw_message L message recipient s =
     (if is_unspecified recipient \<or> ep_port recipient = 0 then s
      else mm_send_raw_message L message recipient s)"

definition bs_set_low_power_mode ::
  "lib \<Rightarrow> bool \<Rightarrow> 'a base_station_scheme \<Rightarrow> 'a base_station_scheme" where
  "bs_set_low_power_mode L enable s =
     bs_send_command L ''SET_LOW_POWER'' (if enable then ''1'' else ''0'') s"

definition bs_set_rover_target ::
  "lib \<Rightarrow> real \<Rightarrow> real \<Rightarrow> 'a base_station_scheme \<Rightarrow> 'a base_station_scheme" where
  "bs_set_rover_target L latitude longitude s =
     bs_send_command L ''SET_TARGET_COORD'' (fixed6 L latitude @ '','' @ fixed6 L longitude) s"

definition bs_send_message ::
  "lib \<Rightarrow> message \<Rightarrow> endpoint \<Rightarrow> 'a base_station_scheme \<Rightarrow> 'a base_station_scheme" where
  "bs_send_message L message recipient s =
     (if is_unspecified recipient \<or> ep_port recipient = 0 then s
      else mm_send_message L message recipient s)"

subsection \<open>The session handshake\<close>

text \<open>
  \<open>handle_session_init\<close>. The state is read twice in the code, first to recognise a repeated request
  of the connected rover, then to decide; nothing runs in between.
\<close>

definition bs_handle_session_init ::
  "lib \<Rightarrow> string \<Rightarrow> endpoint \<Rightarrow> 'a base_station_scheme \<Rightarrow> 'a base_station_scheme" where
  "bs_handle_session_init L rover_id sender s =
     (if bs_session_state s = B_ACTIVE \<and> bs_connected_rover_id s = rover_id \<and>
         bs_rover_endpoint s = sender
      then bs_send_command L ''SESSION_ESTABLISHED'' (bs_station_id s) s
      else
        let (send_accept, reset_session, s1) =
              (if bs_session_state s \<noteq> B_INACTIVE \<and> bs_connected_rover_id s \<noteq> rover_id
               then (False, bs_session_state s = B_ACTIVE, s)
               else if bs_connected_rover_id s = rover_id \<or> bs_connected_rover_id s = ''''
               then
                 (let reset =
                        (if bs_session_state s = B_ACTIVE \<and> bs_connected_rover_id s = rover_id
                         then True
                         else if bs_connected_rover_id s = rover_id \<and> bs_rover_endpoint s \<noteq> sender
                         then bs_session_state s = B_ACTIVE
                         else if bs_session_state s = B_INACTIVE then False
                         else bs_session_state s = B_ACTIVE)
                  in (True, reset,
                      s\<lparr>bs_session_state := B_HANDSHAKE_ACCEPT, bs_connected_rover_id := rover_id,
                        bs_rover_endpoint := sender\<rparr>))
               else (False, bs_session_state s = B_ACTIVE, s));
            s2 = (if reset_session then lp_set_session_active False s1 else s1)
        in if send_accept then bs_send_command L ''SESSION_ACCEPT'' (bs_station_id s2) s2 else s2)"

definition bs_handle_session_confirm ::
  "lib \<Rightarrow> string \<Rightarrow> endpoint \<Rightarrow> 'a base_station_scheme \<Rightarrow> 'a base_station_scheme" where
  "bs_handle_session_confirm L rover_id sender s =
     (if bs_session_state s \<noteq> B_HANDSHAKE_ACCEPT \<or> bs_connected_rover_id s \<noteq> rover_id \<or>
         bs_rover_endpoint s \<noteq> sender
      then s
      else
        let s1 = lp_set_session_active True (s\<lparr>bs_session_state := B_ACTIVE\<rparr>)
        in bs_send_command L ''SESSION_ESTABLISHED'' (bs_station_id s1) s1)"

definition bs_handle_internal_command ::
  "lib \<Rightarrow> string \<Rightarrow> string \<Rightarrow> endpoint \<Rightarrow> 'a base_station_scheme \<Rightarrow> 'a base_station_scheme" where
  "bs_handle_internal_command L command sender_id sender s =
     (if command = ''SESSION_INIT'' then bs_handle_session_init L sender_id sender s
      else if command = ''SESSION_CONFIRM'' then bs_handle_session_confirm L sender_id sender s
      else s)"

subsection \<open>Routing\<close>

text \<open>\<open>static_cast<double>\<close> of the status level.\<close>

fun level_number :: "StatusLevel \<Rightarrow> real" where
  "level_number OK = 0"
| "level_number WARNING = 1"
| "level_number ERROR = 2"
| "level_number CRITICAL = 3"

definition bs_handle_internal_status ::
  "StatusLevel \<Rightarrow> string \<Rightarrow> 'a base_station_scheme \<Rightarrow> 'a base_station_scheme" where
  "bs_handle_internal_status level sender_id s =
     s\<lparr>bs_posted := bs_posted s @ [BaseStatusUpdate sender_id
         (smap_assign ''status_level'' (level_number level) [])]\<rparr>"

definition bs_handle_internal_telemetry ::
  "(string, real) smap \<Rightarrow> string \<Rightarrow> 'a base_station_scheme \<Rightarrow> 'a base_station_scheme" where
  "bs_handle_internal_telemetry readings sender_id s =
     s\<lparr>bs_posted := bs_posted s @ [BaseStatusUpdate sender_id readings]\<rparr>"

definition bs_allow_message :: "message \<Rightarrow> endpoint \<Rightarrow> 'a base_station_scheme \<Rightarrow> bool" where
  "bs_allow_message message sender s =
     (if bs_session_state s = B_ACTIVE
      then bs_connected_rover_id s = msg_sender message \<and> bs_rover_endpoint s = sender
      else if bs_session_state s = B_HANDSHAKE_ACCEPT
      then (case message of
              CommandMessage command params sender_id ts \<Rightarrow>
                command = ''SESSION_CONFIRM'' \<and> bs_connected_rover_id s = sender_id \<and>
                bs_rover_endpoint s = sender
            | _ \<Rightarrow> False)
      else False)"

definition bs_route_message ::
  "lib \<Rightarrow> message \<Rightarrow> endpoint \<Rightarrow> 'a base_station_scheme \<Rightarrow> 'a base_station_scheme" where
  "bs_route_message L message sender s =
     (case message of
        CommandMessage command params sender_id ts \<Rightarrow>
          if command = ''SESSION_INIT'' \<or> command = ''SESSION_CONFIRM''
          then bs_handle_internal_command L command sender_id sender s
          else if \<not> bs_allow_message message sender s then s
          else if bs_application_message_handler s
          then s\<lparr>bs_posted := bs_posted s @ [BaseAppMessage message sender]\<rparr> else s
      | _ \<Rightarrow>
          if \<not> bs_allow_message message sender s then s
          else
            let s1 = (if bs_status_callback s then
                        (case message of
                           StatusMessage level description sender_id ts \<Rightarrow>
                             bs_handle_internal_status level sender_id s
                         | TelemetryMessage readings sender_id ts \<Rightarrow>
                             bs_handle_internal_telemetry readings sender_id s
                         | _ \<Rightarrow> s)
                      else s)
            in if bs_application_message_handler s1
               then s1\<lparr>bs_posted := bs_posted s1 @ [BaseAppMessage message sender]\<rparr> else s1)"

subsection \<open>Construction, life cycle and events\<close>

definition BaseStation :: "string \<Rightarrow> base_station \<Rightarrow> base_station" where
  "BaseStation station_id s =
     (MessageManager station_id (LumenProtocol_base UdpServer s))
       \<lparr>bs_session_state := B_INACTIVE, bs_connected_rover_id := '''', bs_rover_endpoint := no_endpoint,
        bs_station_id := station_id, bs_application_message_handler := False,
        bs_status_callback := False, bs_posted := []\<rparr>"

text \<open>The base station sets no timeout callback; the reliability manager never calls one.\<close>

definition no_timeout :: "endpoint \<Rightarrow> 's \<Rightarrow> 's" where
  "no_timeout ep s = s"

definition bs_start :: "'a base_station_scheme \<Rightarrow> 'a base_station_scheme" where
  "bs_start s =
     (let s1 = mm_start s;
          s2 = lp_set_session_active False (lp_start no_timeout s1);
          s3 = s2\<lparr>server := map_option srv_start (server s2)\<rparr>
      in mm_set_message_callback s3)"

definition bs_stop :: "'a base_station_scheme \<Rightarrow> 'a base_station_scheme" where
  "bs_stop s =
     (let s1 = lp_set_session_active False s;
          s2 = s1\<lparr>server := map_option srv_stop (server s1)\<rparr>;
          s3 = mm_stop (lp_stop s2)
      in s3\<lparr>bs_session_state := B_INACTIVE, bs_connected_rover_id := '''',
            bs_rover_endpoint := no_endpoint\<rparr>)"

definition bs_set_status_callback :: "'a base_station_scheme \<Rightarrow> 'a base_station_scheme" where
  "bs_set_status_callback s = s\<lparr>bs_status_callback := True\<rparr>"

definition bs_set_application_message_handler ::
  "'a base_station_scheme \<Rightarrow> 'a base_station_scheme" where
  "bs_set_application_message_handler s = s\<lparr>bs_application_message_handler := True\<rparr>"

definition bs_get_session_state :: "'a base_station_scheme \<Rightarrow> BaseSessionState" where
  "bs_get_session_state s = bs_session_state s"

definition bs_get_connected_rover_id :: "'a base_station_scheme \<Rightarrow> string" where
  "bs_get_connected_rover_id s = bs_connected_rover_id s"

definition bs_get_rover_endpoint :: "'a base_station_scheme \<Rightarrow> endpoint" where
  "bs_get_rover_endpoint s = bs_rover_endpoint s"

text \<open>The callback chain: transport, protocol, message manager, router.\<close>

definition bs_app :: "lib \<Rightarrow> message \<Rightarrow> endpoint \<Rightarrow> 'a base_station_scheme \<Rightarrow> 'a base_station_scheme result"
  where "bs_app L message sender s = Inr (bs_route_message L message sender s)"

definition bs_receive ::
  "lib \<Rightarrow> receive_result \<Rightarrow> 'a base_station_scheme \<Rightarrow> 'a base_station_scheme" where
  "bs_receive L r s =
     srv_handle_receive (lp_handle_udp_data L (mm_handle_lumen_message L (bs_app L))) r s"

subsection \<open>The router honours the contract of an application\<close>

lemma lp_core_bs [simp]:
  "lp_core L (s\<lparr>bs_session_state := x0\<rparr>) = lp_core L s"
  "lp_core L (s\<lparr>bs_connected_rover_id := x1\<rparr>) = lp_core L s"
  "lp_core L (s\<lparr>bs_rover_endpoint := x2\<rparr>) = lp_core L s"
  "lp_core L (s\<lparr>bs_station_id := x3\<rparr>) = lp_core L s"
  "lp_core L (s\<lparr>bs_application_message_handler := x4\<rparr>) = lp_core L s"
  "lp_core L (s\<lparr>bs_status_callback := x5\<rparr>) = lp_core L s"
  "lp_core L (s\<lparr>bs_posted := x6\<rparr>) = lp_core L s"
  by (simp_all add: lp_core_def rm_inv_def node_ok_def cong: ProtocolMode.case_cong)

lemma lp_core_session [simp]: "lp_core L (lp_set_session_active b s) = lp_core L s"
  by (simp add: lp_core_def rm_inv_def node_ok_def lp_set_session_active_def cong: ProtocolMode.case_cong)

lemma bs_keeps_send_message [simp]:
  "bs_session_state (mm_send_message L m ep s) = bs_session_state s"
  "bs_connected_rover_id (mm_send_message L m ep s) = bs_connected_rover_id s"
  "bs_rover_endpoint (mm_send_message L m ep s) = bs_rover_endpoint s"
  "bs_station_id (mm_send_message L m ep s) = bs_station_id s"
  "bs_application_message_handler (mm_send_message L m ep s) = bs_application_message_handler s"
  "bs_status_callback (mm_send_message L m ep s) = bs_status_callback s"
  "bs_posted (mm_send_message L m ep s) = bs_posted s"
  by (simp_all add: mm_send_message_def lp_send_message_def Let_def lp_send_packet_def
      rm_add_send_packet_def split: sum.splits ProtocolMode.splits option.splits)

lemma bs_send_command_keeps [simp]:
  "bs_session_state (bs_send_command L c p s) = bs_session_state s"
  "bs_connected_rover_id (bs_send_command L c p s) = bs_connected_rover_id s"
  "bs_rover_endpoint (bs_send_command L c p s) = bs_rover_endpoint s"
  "bs_station_id (bs_send_command L c p s) = bs_station_id s"
  "bs_application_message_handler (bs_send_command L c p s) = bs_application_message_handler s"
  "bs_status_callback (bs_send_command L c p s) = bs_status_callback s"
  "bs_posted (bs_send_command L c p s) = bs_posted s"
  "lp_frame_buffers (bs_send_command L c p s) = lp_frame_buffers s"
  "lp_mode (bs_send_command L c p s) = lp_mode s"
  "lp_running (bs_send_command L c p s) = lp_running s"
  "lp_session_active (bs_send_command L c p s) = lp_session_active s"
  "lp_message_callback (bs_send_command L c p s) = lp_message_callback s"
  "rm_role (bs_send_command L c p s) = rm_role s"
  "rm_running (bs_send_command L c p s) = rm_running s"
  by (simp_all add: bs_send_command_def Let_def)

lemma lp_core_bs_send_command: "lp_core L s \<Longrightarrow> lp_core L (bs_send_command L' c p s)"
  by (simp add: bs_send_command_def Let_def lp_core_mm_send_message)

lemma lp_set_session_active_keeps [simp]:
  "server (lp_set_session_active b s) = server s"
  "client (lp_set_session_active b s) = client s"
  "lp_frame_buffers (lp_set_session_active b s) = lp_frame_buffers s"
  "lp_mode (lp_set_session_active b s) = lp_mode s"
  "lp_running (lp_set_session_active b s) = lp_running s"
  "lp_message_callback (lp_set_session_active b s) = lp_message_callback s"
  "rm_role (lp_set_session_active b s) = rm_role s"
  "rm_running (lp_set_session_active b s) = rm_running s"
  "system_now (lp_set_session_active b s) = system_now s"
  "bs_session_state (lp_set_session_active b s) = bs_session_state s"
  "bs_connected_rover_id (lp_set_session_active b s) = bs_connected_rover_id s"
  "bs_rover_endpoint (lp_set_session_active b s) = bs_rover_endpoint s"
  "bs_station_id (lp_set_session_active b s) = bs_station_id s"
  "bs_application_message_handler (lp_set_session_active b s) = bs_application_message_handler s"
  "bs_status_callback (lp_set_session_active b s) = bs_status_callback s"
  "bs_posted (lp_set_session_active b s) = bs_posted s"
  "lp_session_active (lp_set_session_active b s) = b"
  by (simp_all add: lp_set_session_active_def)

lemma lp_core_session_init: "lp_core L s \<Longrightarrow> lp_core L (bs_handle_session_init L' i ep s)"
  by (auto simp: bs_handle_session_init_def Let_def intro!: lp_core_bs_send_command)

lemma lp_core_session_confirm: "lp_core L s \<Longrightarrow> lp_core L (bs_handle_session_confirm L' i ep s)"
  by (auto simp: bs_handle_session_confirm_def Let_def intro!: lp_core_bs_send_command)

lemma lp_core_route_message: "lp_core L s \<Longrightarrow> lp_core L (bs_route_message L' m ep s)"
  by (auto simp: bs_route_message_def bs_handle_internal_command_def bs_handle_internal_status_def
      bs_handle_internal_telemetry_def Let_def lp_core_session_init lp_core_session_confirm
      split: message.splits)

lemma route_message_buffers: "lp_frame_buffers (bs_route_message L m ep s) = lp_frame_buffers s"
  by (auto simp: bs_route_message_def bs_handle_internal_command_def bs_handle_internal_status_def
      bs_handle_internal_telemetry_def bs_handle_session_init_def bs_handle_session_confirm_def Let_def
      split: message.splits)

interpretation base_app: application L "bs_app L" for L
  by unfold_locales (simp_all add: bs_app_def lp_core_route_message route_message_buffers)

subsection \<open>What can happen to a base station\<close>

inductive base_step :: "lib \<Rightarrow> base_station \<Rightarrow> base_station \<Rightarrow> bool" for L where
  receive: "base_step L s (bs_receive L r s)"
| retransmission_timer:
    "tm_waiting (rm_retransmit_timer s) \<Longrightarrow>
     base_step L s (rm_handle_retransmission_timer lp_send_packet no_timeout s)"
| cleanup_timer: "tm_waiting (rm_cleanup_timer s) \<Longrightarrow> base_step L s (rm_handle_cleanup_timer s)"
| run_task: "bs_posted s = task # tasks \<Longrightarrow> base_step L s (s\<lparr>bs_posted := tasks\<rparr>)"
| clock: "steady_now s \<le> t \<Longrightarrow> base_step L s (s\<lparr>steady_now := t, system_now := u\<rparr>)"
| send_command: "base_step L s (bs_send_command L command params s)"
| send_message: "base_step L s (bs_send_message L m ep s)"
| send_raw_message: "base_step L s (bs_send_raw_message L m ep s)"
| start: "base_step L s (bs_start s)"
| stop: "base_step L s (bs_stop s)"
| set_status_callback: "base_step L s (bs_set_status_callback s)"
| set_application_message_handler: "base_step L s (bs_set_application_message_handler s)"

text \<open>
  The session: the node runs in base-station mode, the state \<open>HANDSHAKE_INIT\<close> is never entered, the protocol layer acknowledges only in an
  active session, and an inactive base station knows no rover.
\<close>

definition session_ok :: "base_station \<Rightarrow> bool" where
  "session_ok s \<longleftrightarrow> lp_mode s = MODE_BASE_STATION \<and>
     bs_session_state s \<noteq> B_HANDSHAKE_INIT \<and>
     (lp_session_active s \<longrightarrow> bs_session_state s = B_ACTIVE) \<and>
     (bs_session_state s = B_INACTIVE \<longrightarrow>
        bs_connected_rover_id s = '''' \<and> bs_rover_endpoint s = no_endpoint)"

lemma session_ok_of_upper: "session_ok (upper s) = session_ok s"
  by (simp add: session_ok_def upper_def)

lemma session_ok_upper: "session_ok s \<Longrightarrow> upper t = upper s \<Longrightarrow> session_ok t"
  by (metis session_ok_of_upper)

text \<open>The four outcomes of a session request.\<close>

lemma bs_handle_session_init_eq:
  "bs_handle_session_init L i ep s =
     (if bs_session_state s = B_ACTIVE \<and> bs_connected_rover_id s = i \<and> bs_rover_endpoint s = ep
      then bs_send_command L ''SESSION_ESTABLISHED'' (bs_station_id s) s
      else if bs_session_state s \<noteq> B_INACTIVE \<and> bs_connected_rover_id s \<noteq> i
      then (if bs_session_state s = B_ACTIVE then lp_set_session_active False s else s)
      else if bs_connected_rover_id s = i \<or> bs_connected_rover_id s = []
      then bs_send_command L ''SESSION_ACCEPT'' (bs_station_id s)
             (let s1 = s\<lparr>bs_session_state := B_HANDSHAKE_ACCEPT, bs_connected_rover_id := i,
                         bs_rover_endpoint := ep\<rparr>
              in if bs_session_state s = B_ACTIVE then lp_set_session_active False s1 else s1)
      else s)"
proof -
  consider "bs_session_state s = B_ACTIVE" | "bs_session_state s = B_INACTIVE"
    | "bs_session_state s \<noteq> B_ACTIVE" "bs_session_state s \<noteq> B_INACTIVE" by blast
  then show ?thesis
    by cases (simp_all add: bs_handle_session_init_def Let_def)
qed

lemma session_ok_session_init: "session_ok s \<Longrightarrow> session_ok (bs_handle_session_init L i ep s)"
  by (simp add: bs_handle_session_init_eq session_ok_def Let_def) auto

lemma session_ok_session_confirm: "session_ok s \<Longrightarrow> session_ok (bs_handle_session_confirm L i ep s)"
  by (auto simp: bs_handle_session_confirm_def session_ok_def Let_def)

lemma session_ok_posted: "session_ok s \<Longrightarrow> session_ok (s\<lparr>bs_posted := x\<rparr>)"
  by (simp add: session_ok_def)

lemma session_ok_route: "session_ok s \<Longrightarrow> session_ok (bs_route_message L m ep s)"
  by (auto simp: bs_route_message_def bs_handle_internal_command_def bs_handle_internal_status_def
      bs_handle_internal_telemetry_def Let_def session_ok_session_init session_ok_session_confirm
      session_ok_posted split: message.splits)

interpretation base_session: upper_invariant session_ok "mm_handle_lumen_message L (bs_app L)" no_timeout
  for L
  by unfold_locales
    (auto simp: session_ok_upper no_timeout_def mm_handle_lumen_message_def Let_def bs_app_def
      session_ok_route split: sum.splits)

interpretation base_timeout: timeout_client L no_timeout for L
  by unfold_locales (simp_all add: no_timeout_def)

text \<open>The invariant of a base station.\<close>

definition bs_inv :: "lib \<Rightarrow> base_station \<Rightarrow> bool" where
  "bs_inv L s \<longleftrightarrow> lp_inv L s \<and> session_ok s"

lemma bs_inv_init: "bs_inv L (BaseStation station_id s)"
  by (simp add: bs_inv_def BaseStation_def MessageManager_def LumenProtocol_base_def Let_def lp_init_def
      ReliabilityManager_def rm_set_retransmit_callback_def lp_inv_def lp_core_def node_ok_def rm_inv_def
      sent_ok_def session_ok_def)

lemma lp_core_mm [simp]:
  "lp_core L (s\<lparr>mm_running := b\<rparr>) = lp_core L s"
  "lp_core L (s\<lparr>mm_message_callback := b\<rparr>) = lp_core L s"
  "lp_core L (lp_set_message_callback s) = lp_core L s"
  by (simp_all add: lp_core_def rm_inv_def node_ok_def lp_set_message_callback_def
      cong: ProtocolMode.case_cong)

lemma session_ok_mode: "session_ok s \<Longrightarrow> lp_mode s = MODE_BASE_STATION"
  by (simp add: session_ok_def)

lemma bs_inv_server: "bs_inv L t \<Longrightarrow> bs_inv L (t\<lparr>server := Some srv\<rparr>)"
  by (simp add: bs_inv_def lp_inv_server session_ok_mode session_ok_upper [of t])

lemma bs_inv_receive:
  assumes "bs_inv L s"
  shows "bs_inv L (bs_receive L r s)"
proof -
  let ?h = "lp_handle_udp_data L (mm_handle_lumen_message L (bs_app L))"
  have h: "bs_inv L t \<Longrightarrow> bs_inv L (?h d ep t)" for d ep t
    by (simp add: bs_inv_def base_app.handle_udp_inv base_session.P_handle_udp_data)
  have some: "server t \<noteq> None" if "bs_inv L t" for t
    using that by (auto simp: bs_inv_def lp_inv_def lp_core_def node_ok_def session_ok_def)
  have again: "bs_inv L (t\<lparr>server := map_option srv_receive_data (server t)\<rparr>)" if "bs_inv L t" for t
    using some [OF that] bs_inv_server [OF that] by auto
  show ?thesis
    using assms some [OF assms]
    by (cases r) (auto simp: bs_receive_def srv_handle_receive_def Let_def intro!: again h bs_inv_server)
qed

lemma bs_inv_send:
  assumes "bs_inv L s"
  shows "bs_inv L (mm_send_message L m ep s)" "bs_inv L (mm_send_raw_message L m ep s)"
proof -
  have "lp_inv L (mm_send_message L m ep s)" "lp_inv L (mm_send_raw_message L m ep s)"
    using assms by (simp_all add: bs_inv_def lp_inv_def lp_core_mm_send_message lp_core_mm_send_raw)
  moreover have "upper (mm_send_message L m ep s) = upper s"
    by (simp add: mm_send_message_def split: sum.splits)
  moreover have "upper (mm_send_raw_message L m ep s) = upper s"
    by (simp add: mm_send_raw_message_def Let_def split: sum.splits option.splits)
  ultimately show "bs_inv L (mm_send_message L m ep s)" "bs_inv L (mm_send_raw_message L m ep s)"
    using assms session_ok_upper [of s] by (simp_all add: bs_inv_def)
qed

lemma session_ok_lp_start: "session_ok s \<Longrightarrow> session_ok (lp_start no_timeout s)"
  by (rule base_session.P_start) (simp_all add: session_ok_def)

lemma bs_inv_cong:
  assumes "bs_inv L s" and "upper t = upper s" and "lp_inv L t"
  shows "bs_inv L t"
  using assms session_ok_upper [of s t] by (simp add: bs_inv_def)

lemma bs_inv_start: "bs_inv L s \<Longrightarrow> bs_inv L (bs_start s)"
proof -
  assume inv: "bs_inv L s"
  let ?a = "mm_start s"
  let ?b = "lp_start no_timeout ?a"
  let ?c = "lp_set_session_active False ?b"
  have a: "bs_inv L ?a"
    using inv by (auto simp: mm_start_def bs_inv_def lp_inv_def session_ok_def lp_set_message_callback_def
        lp_core_mm [unfolded lp_set_message_callback_def])
  then have b: "bs_inv L ?b"
    using base_timeout.start_inv [of L ?a] session_ok_lp_start [of ?a] by (simp add: bs_inv_def)
  have c: "bs_inv L ?c"
    using b by (auto simp: bs_inv_def lp_inv_def session_ok_def)
  then have "server ?c \<noteq> None"
    by (auto simp: bs_inv_def lp_inv_def lp_core_def node_ok_def session_ok_def)
  then have "bs_inv L (?c\<lparr>server := map_option srv_start (server ?c)\<rparr>)"
    using bs_inv_server [OF c] by auto
  then show ?thesis
    by (auto simp: bs_start_def Let_def mm_set_message_callback_def bs_inv_def lp_inv_def session_ok_def)
qed

lemma bs_inv_stop: "bs_inv L s \<Longrightarrow> bs_inv L (bs_stop s)"
proof -
  assume inv: "bs_inv L s"
  let ?a = "lp_set_session_active False s"
  let ?b = "?a\<lparr>server := map_option srv_stop (server ?a)\<rparr>"
  have a: "bs_inv L ?a" using inv by (auto simp: bs_inv_def lp_inv_def session_ok_def)
  then have "server ?a \<noteq> None"
    by (auto simp: bs_inv_def lp_inv_def lp_core_def node_ok_def session_ok_def)
  then have b: "bs_inv L ?b" using bs_inv_server [OF a] by auto
  have "lp_inv L (mm_stop (lp_stop ?b))"
    using lp_inv_stop [of L ?b] b by (auto simp: mm_stop_def bs_inv_def lp_inv_def)
  moreover have "lp_mode (mm_stop (lp_stop ?b)) = MODE_BASE_STATION"
    "\<not> lp_session_active (mm_stop (lp_stop ?b))"
    using b by (simp_all add: mm_stop_def lp_stop_def rm_stop_def bs_inv_def session_ok_def)
  ultimately show ?thesis
    by (auto simp: bs_stop_def Let_def bs_inv_def lp_inv_def session_ok_def)
qed

lemma bs_inv_step: "base_step L s t \<Longrightarrow> bs_inv L s \<Longrightarrow> bs_inv L t"
proof (induction rule: base_step.induct)
  case (retransmission_timer s)
  then show ?case
    by (simp add: bs_inv_def base_timeout.retransmission_timer_inv base_session.P_retransmission_timer)
next
  case (cleanup_timer s)
  then show ?case
    using lp_inv_cleanup_timer [of L s] by (auto simp: bs_inv_def intro: session_ok_upper)
next
  case (clock s t u)
  then show ?case by (auto simp: bs_inv_def lp_inv_clock session_ok_def)
qed (auto simp: bs_inv_receive bs_inv_start bs_inv_stop bs_send_command_def bs_send_message_def
      bs_send_raw_message_def bs_set_status_callback_def bs_set_application_message_handler_def Let_def
      bs_inv_send, auto simp: bs_inv_def lp_inv_def session_ok_def)

inductive base_run :: "lib \<Rightarrow> base_station \<Rightarrow> bool" for L where
  created: "base_run L (BaseStation station_id s)"
| step: "base_run L s \<Longrightarrow> base_step L s t \<Longrightarrow> base_run L t"

lemma base_run_inv: "base_run L s \<Longrightarrow> bs_inv L s"
  by (induction rule: base_run.induct) (auto simp: bs_inv_init intro: bs_inv_step)

subsection \<open>The handshake\<close>

text \<open>Every layer of the base station is started.\<close>

definition bs_up :: "'a base_station_scheme \<Rightarrow> bool" where
  "bs_up s \<longleftrightarrow> node_ok s \<and> lp_mode s = MODE_BASE_STATION \<and> mm_running s \<and> lp_running s \<and>
     rm_running s \<and> srv_running (the (server s))"

lemma bs_up_reach: "bs_up s \<Longrightarrow> valid_recipient ep \<Longrightarrow> can_reach s ep"
  by (simp add: bs_up_def can_reach_def)

lemma bs_send_command_out:
  assumes "bs_up s" "valid_recipient (bs_rover_endpoint s)"
    and "bs_session_state s = B_ACTIVE \<or> bs_session_state s = B_HANDSHAKE_ACCEPT \<and> command = ''SESSION_ACCEPT''"
    and "serialise L (CommandMessage command params (bs_station_id s) (system_now s)) = Inr json"
  shows "outbox (bs_send_command L command params s)
           = outbox s @ [command_datagram json (bs_rover_endpoint s) s]"
    and "lp_current_sequence (bs_send_command L command params s) = lp_current_sequence s + 1"
proof -
  have "bs_send_command L command params s =
      mm_send_message L (CommandMessage command params (bs_station_id s) (system_now s))
        (bs_rover_endpoint s) s"
    using assms(2,3) by (auto simp: bs_send_command_def Let_def valid_recipient_def)
  then show "outbox (bs_send_command L command params s)
           = outbox s @ [command_datagram json (bs_rover_endpoint s) s]"
    and "lp_current_sequence (bs_send_command L command params s) = lp_current_sequence s + 1"
    using assms bs_up_reach [OF assms(1,2)]
    by (simp_all add: mm_send_message_out mm_send_message_seq command_datagram_def bs_up_def
        valid_recipient_def)
qed

lemma bs_send_command_refused:
  assumes "bs_session_state s \<noteq> B_ACTIVE"
    and "\<not> (bs_session_state s = B_HANDSHAKE_ACCEPT \<and> command = ''SESSION_ACCEPT'')"
  shows "bs_send_command L command params s = s"
  using assms by (auto simp: bs_send_command_def Let_def)

lemma bs_up_iff:
  "bs_up s \<longleftrightarrow> lp_mode s = MODE_BASE_STATION \<and> mm_running s \<and> lp_running s \<and> rm_running s \<and>
     can_reach s \<lparr>ep_address = 1, ep_port = 1\<rparr>"
  by (auto simp: bs_up_def can_reach_def valid_recipient_def is_unspecified_def)

lemma bs_up_send_command: "bs_up s \<Longrightarrow> bs_up (bs_send_command L c p s)"
  by (simp add: bs_send_command_def Let_def bs_up_iff)

lemma bs_up_session [simp]:
  "bs_up (lp_set_session_active b s) = bs_up s"
  "bs_up (s\<lparr>bs_session_state := x, bs_connected_rover_id := i, bs_rover_endpoint := ep\<rparr>) = bs_up s"
  "bs_up (s\<lparr>bs_session_state := x\<rparr>) = bs_up s"
  by (simp_all add: bs_up_def node_ok_def lp_set_session_active_def
      cong: ProtocolMode.case_cong)

lemma outbox_bs [simp]:
  "outbox (lp_set_session_active b s) = outbox s"
  "outbox (s\<lparr>bs_session_state := x\<rparr>) = outbox s"
  "outbox (s\<lparr>bs_session_state := x, bs_connected_rover_id := i, bs_rover_endpoint := ep\<rparr>) = outbox s"
  by (rule outbox_cong; simp add: lp_set_session_active_def)+

lemma lp_current_sequence_session [simp]:
  "lp_current_sequence (lp_set_session_active b s) = lp_current_sequence s"
  by (simp add: lp_set_session_active_def)

lemma bs_session_init_new:
  assumes up: "bs_up s" and ep: "valid_recipient ep"
    and free: "bs_session_state s = B_INACTIVE" "bs_connected_rover_id s = []"
    and ser: "serialise L (CommandMessage ''SESSION_ACCEPT'' (bs_station_id s) (bs_station_id s)
               (system_now s)) = Inr json"
    and s1: "s1 = bs_handle_session_init L rid ep s"
  shows "bs_session_state s1 = B_HANDSHAKE_ACCEPT" "bs_connected_rover_id s1 = rid"
    "bs_rover_endpoint s1 = ep" "bs_up s1" "bs_station_id s1 = bs_station_id s"
    "lp_session_active s1 = lp_session_active s" "system_now s1 = system_now s"
    "outbox s1 = outbox s @ [command_datagram json ep s]"
    "lp_current_sequence s1 = lp_current_sequence s + 1"
proof -
  let ?t = "s\<lparr>bs_session_state := B_HANDSHAKE_ACCEPT, bs_connected_rover_id := rid,
              bs_rover_endpoint := ep\<rparr>"
  have eq: "s1 = bs_send_command L ''SESSION_ACCEPT'' (bs_station_id s) ?t"
    using free by (simp add: s1 bs_handle_session_init_eq)
  have t: "bs_up ?t" using up by simp
  note out = bs_send_command_out [where s = ?t and command = "''SESSION_ACCEPT''" and L = L
      and params = "bs_station_id s" and json = json]
  show "bs_session_state s1 = B_HANDSHAKE_ACCEPT" "bs_connected_rover_id s1 = rid"
    "bs_rover_endpoint s1 = ep" "bs_station_id s1 = bs_station_id s"
    "lp_session_active s1 = lp_session_active s" "system_now s1 = system_now s"
    by (simp_all add: eq bs_send_command_def Let_def)
  show "bs_up s1" using t by (simp add: eq bs_up_send_command)
  show "outbox s1 = outbox s @ [command_datagram json ep s]"
    "lp_current_sequence s1 = lp_current_sequence s + 1"
    using out t ep ser by (simp_all add: eq command_datagram_cong [of ?t s])
qed

lemma bs_session_confirm_ok:
  assumes up: "bs_up s" and ep: "valid_recipient ep"
    and hs: "bs_session_state s = B_HANDSHAKE_ACCEPT" "bs_connected_rover_id s = rid"
      "bs_rover_endpoint s = ep"
    and ser: "serialise L (CommandMessage ''SESSION_ESTABLISHED'' (bs_station_id s) (bs_station_id s)
               (system_now s)) = Inr json"
    and s1: "s1 = bs_handle_session_confirm L rid ep s"
  shows "bs_session_state s1 = B_ACTIVE" "bs_connected_rover_id s1 = rid" "bs_rover_endpoint s1 = ep"
    "bs_up s1" "lp_session_active s1" "outbox s1 = outbox s @ [command_datagram json ep s]"
proof -
  let ?t = "lp_set_session_active True (s\<lparr>bs_session_state := B_ACTIVE\<rparr>)"
  have eq: "s1 = bs_send_command L ''SESSION_ESTABLISHED'' (bs_station_id s) ?t"
    using hs by (simp add: s1 bs_handle_session_confirm_def Let_def)
  have t: "bs_up ?t" using up by simp
  note out = bs_send_command_out [where s = ?t and command = "''SESSION_ESTABLISHED''" and L = L
      and params = "bs_station_id s" and json = json]
  show "bs_session_state s1 = B_ACTIVE" "bs_connected_rover_id s1 = rid" "bs_rover_endpoint s1 = ep"
    "lp_session_active s1"
    using hs by (simp_all add: eq)
  show "bs_up s1" using t by (simp add: eq bs_up_send_command)
  show "outbox s1 = outbox s @ [command_datagram json ep s]"
    using out t ep ser hs by (simp add: eq command_datagram_cong [of ?t s])
qed

subsection \<open>Properties of the base station\<close>

text \<open>A base station as constructed and started on a node with cleared memory.\<close>

definition blank_base :: base_station where
  "blank_base =
     \<lparr>steady_now = 0, system_now = 0, server = None, client = None, rm_sent_packets = [],
      rm_acked_sequences = Map.empty, rm_received_sequences = Map.empty, rm_recent_naks = [],
      rm_retransmit_timer = \<lparr>tm_expiry = 0, tm_waiting = False\<rparr>,
      rm_cleanup_timer = \<lparr>tm_expiry = 0, tm_waiting = False\<rparr>, rm_retransmit_callback = False,
      rm_timeout_callback = False, rm_running = False, rm_role = BASE_STATION,
      rm_last_ack_cleanup_time = 0, rm_consecutive_timeouts_to_base = 0,
      lp_mode = MODE_BASE_STATION, lp_frame_buffers = Map.empty, lp_endpoint_map = Map.empty,
      lp_current_sequence = 0, lp_message_callback = False, lp_running = False,
      lp_session_active = False, lp_check_counter = 0, mm_sender_id = [], mm_message_callback = False,
      mm_running = False, bs_session_state = B_INACTIVE, bs_connected_rover_id = [],
      bs_rover_endpoint = no_endpoint, bs_station_id = [], bs_application_message_handler = False,
      bs_status_callback = False, bs_posted = []\<rparr>"

definition sample_base :: base_station where
  "sample_base = bs_set_application_message_handler (bs_start (BaseStation ''base'' blank_base))"

lemmas sample_base_defs =
  sample_base_def bs_set_application_message_handler_def bs_start_def Let_def mm_start_def
  lp_set_message_callback_def BaseStation_def MessageManager_def LumenProtocol_base_def lp_init_def
  ReliabilityManager_def rm_set_retransmit_callback_def lp_start_def rm_start_def
  rm_handle_retransmission_timer_def rm_handle_cleanup_timer_def rm_cleanup_old_entries_def
  lp_set_session_active_def mm_set_message_callback_def UdpServer_def srv_set_receive_callback_def
  srv_start_def srv_receive_data_def

lemma sample_base_simps [simp]:
  "bs_session_state sample_base = B_INACTIVE" "bs_connected_rover_id sample_base = []"
  "bs_station_id sample_base = ''base''" "mm_running sample_base" "lp_running sample_base"
  "rm_running sample_base" "lp_mode sample_base = MODE_BASE_STATION" "\<not> lp_session_active sample_base"
  "bs_application_message_handler sample_base" "bs_posted sample_base = []"
  by (simp_all add: sample_base_defs)

lemma sample_base_up [simp]: "bs_up sample_base"
  by (simp add: bs_up_def node_ok_def) (simp add: sample_base_defs)

lemma sample_base_run: "base_run L sample_base"
proof -
  have "base_run L (bs_start (BaseStation ''base'' blank_base))"
    by (rule base_run.step [OF base_run.created base_step.start])
  then show ?thesis
    unfolding sample_base_def by (rule base_run.step) (rule base_step.set_application_message_handler)
qed

text \<open>C6: in every state a base station can reach, whatever datagrams, timers and calls occur in whatever
  order: the protocol layer acknowledges only while the session is active, the session never
  enters \<open>HANDSHAKE_INIT\<close>, an inactive base station knows no rover, no frame buffer exceeds
  \<open>MAX_FRAME_BUFFER_SIZE\<close> bytes, and every packet kept for retransmission is stored under its own
  sequence number, is neither an ACK nor a NAK, and has a recipient.\<close>

theorem base_station_invariant:
  assumes "base_run L s"
  shows "(lp_session_active s \<longrightarrow> bs_session_state s = B_ACTIVE)
    \<and> bs_session_state s \<noteq> B_HANDSHAKE_INIT
    \<and> (bs_session_state s = B_INACTIVE \<longrightarrow>
         bs_connected_rover_id s = [] \<and> bs_rover_endpoint s = no_endpoint)
    \<and> (\<forall>k b. lp_frame_buffers s k = Some b \<longrightarrow> length b \<le> MAX_FRAME_BUFFER_SIZE)
    \<and> (\<forall>seq info. map_of (rm_sent_packets s) seq = Some info \<longrightarrow>
         hdr_sequence (pkt_header (sp_packet info)) = seq
         \<and> hdr_type (pkt_header (sp_packet info)) \<noteq> ACK \<and> hdr_type (pkt_header (sp_packet info)) \<noteq> NAK
         \<and> \<not> is_unspecified (sp_recipient info))"
proof -
  have inv: "bs_inv L s" using assms by (rule base_run_inv)
  have sent: "hdr_sequence (pkt_header (sp_packet info)) = seq
         \<and> hdr_type (pkt_header (sp_packet info)) \<noteq> ACK \<and> hdr_type (pkt_header (sp_packet info)) \<noteq> NAK
         \<and> \<not> is_unspecified (sp_recipient info)"
    if "map_of (rm_sent_packets s) seq = Some info" for seq info
    using inv map_of_SomeD [OF that] by (fastforce simp: bs_inv_def lp_inv_def lp_core_def sent_ok_def)
  show ?thesis
    using inv sent by (auto simp: bs_inv_def lp_inv_def session_ok_def)
qed

theorem base_station_invariant_witness: "bs_session_state sample_base \<noteq> B_HANDSHAKE_INIT"
  using base_station_invariant [OF sample_base_run] by blast

text \<open>C15: the base station's side of the handshake: a \<open>SESSION_INIT\<close> from a rover that finds it free makes
  it answer with one \<open>SESSION_ACCEPT\<close> and wait; the \<open>SESSION_CONFIRM\<close> of the same rover from the
  same endpoint makes the session active, turns acknowledgements on, and is answered with one
  \<open>SESSION_ESTABLISHED\<close>, under consecutive sequence numbers.\<close>

theorem base_handshake:
  assumes "bs_up s" and "valid_recipient ep" and "bs_session_state s = B_INACTIVE"
    and "bs_connected_rover_id s = []" and "\<not> lp_session_active s"
    and "serialise L (CommandMessage ''SESSION_ACCEPT'' (bs_station_id s) (bs_station_id s)
           (system_now s)) = Inr accept"
    and "serialise L (CommandMessage ''SESSION_ESTABLISHED'' (bs_station_id s) (bs_station_id s)
           (system_now s)) = Inr established"
    and "s1 = bs_route_message L (CommandMessage ''SESSION_INIT'' p rover t) ep s"
    and "s2 = bs_route_message L (CommandMessage ''SESSION_CONFIRM'' p' rover t') ep s1"
  shows "bs_session_state s1 = B_HANDSHAKE_ACCEPT \<and> \<not> lp_session_active s1
    \<and> bs_session_state s2 = B_ACTIVE \<and> lp_session_active s2
    \<and> bs_connected_rover_id s2 = rover \<and> bs_rover_endpoint s2 = ep
    \<and> outbox s2 = outbox s @ [command_datagram accept ep s,
         command_datagram established ep (s\<lparr>lp_current_sequence := lp_current_sequence s + 1\<rparr>)]"
proof -
  have s1: "s1 = bs_handle_session_init L rover ep s"
    using assms(8) by (simp add: bs_route_message_def bs_handle_internal_command_def)
  have s2: "s2 = bs_handle_session_confirm L rover ep s1"
    using assms(9) by (simp add: bs_route_message_def bs_handle_internal_command_def)
  note init = bs_session_init_new [OF assms(1-4,6) s1]
  have ser: "serialise L (CommandMessage ''SESSION_ESTABLISHED'' (bs_station_id s1) (bs_station_id s1)
               (system_now s1)) = Inr established"
    using assms(7) init by simp
  note confirm = bs_session_confirm_ok [OF init(4) assms(2) init(1-3) ser s2]
  have "command_datagram established ep s1 =
      command_datagram established ep (s\<lparr>lp_current_sequence := lp_current_sequence s + 1\<rparr>)"
    using init by (intro command_datagram_cong) simp_all
  then show ?thesis using init confirm assms(5) by simp
qed

definition json_lib :: lib where
  "json_lib = sample_lib (\<lambda>_. None) (\<lambda>_. Some ''{}'')"

theorem base_handshake_witness:
  "bs_session_state (bs_route_message json_lib (CommandMessage ''SESSION_CONFIRM'' [] ''r1'' 0) sample_ep
     (bs_route_message json_lib (CommandMessage ''SESSION_INIT'' [] ''r1'' 0) sample_ep sample_base)) = B_ACTIVE"
proof -
  have ep: "valid_recipient sample_ep"
    by (simp add: valid_recipient_def sample_ep_def is_unspecified_def)
  have ser: "serialise json_lib m = Inr ''{}''" for m
    by (simp add: serialise_def json_lib_def sample_lib_def)
  show ?thesis
    using base_handshake [OF sample_base_up ep _ _ _ ser ser refl refl, of "[]" "''r1''" 0 "[]" 0]
    by (simp only: sample_base_simps simp_thms)
qed

text \<open>C18: nothing reaches the application of a base station except from the rover in session: a message
  is handed to the application or the status callback only if the session is active and both the
  sender's name and its endpoint are those of the connected rover; session commands never are.\<close>

theorem application_sees_only_connected_rover:
  assumes "bs_posted (bs_route_message L m ep s) \<noteq> bs_posted s"
  shows "bs_session_state s = B_ACTIVE \<and> msg_sender m = bs_connected_rover_id s
    \<and> ep = bs_rover_endpoint s
    \<and> (\<forall>c p i t. m = CommandMessage c p i t \<longrightarrow> c \<noteq> ''SESSION_INIT'' \<and> c \<noteq> ''SESSION_CONFIRM'')"
proof -
  have init: "bs_posted (bs_handle_session_init L i ep s) = bs_posted s" for i
    by (simp add: bs_handle_session_init_eq Let_def)
  have confirm: "bs_posted (bs_handle_session_confirm L i ep s) = bs_posted s" for i
    by (simp add: bs_handle_session_confirm_def Let_def)
  show ?thesis
    using assms
    by (cases m)
      (auto simp: bs_route_message_def bs_handle_internal_command_def init confirm bs_allow_message_def
        split: if_splits)
qed

theorem application_sees_only_connected_rover_witness:
  "let s = sample_base\<lparr>bs_session_state := B_ACTIVE, bs_connected_rover_id := ''r1'',
             bs_rover_endpoint := sample_ep\<rparr>
   in bs_posted (bs_route_message json_lib (BasicMessage ''hi'' ''r1'' 0) sample_ep s)
        = [BaseAppMessage (BasicMessage ''hi'' ''r1'' 0) sample_ep] \<and> bs_session_state s = B_ACTIVE"
  using application_sees_only_connected_rover [of json_lib "BasicMessage ''hi'' ''r1'' 0" sample_ep
      "sample_base\<lparr>bs_session_state := B_ACTIVE, bs_connected_rover_id := ''r1'', bs_rover_endpoint := sample_ep\<rparr>"]
  by (simp add: bs_route_message_def bs_allow_message_def Let_def)

text \<open>C38: a stranger can switch acknowledgements off for good: a \<open>SESSION_INIT\<close> of another rover during
  an active session is rejected, but it clears the protocol layer's session flag while the session
  stays active; from then on neither a repeated \<open>SESSION_INIT\<close> nor a \<open>SESSION_CONFIRM\<close> of the
  connected rover from its endpoint turns acknowledgements on again.\<close>

theorem stranger_disables_acknowledgements:
  assumes "bs_session_state s = B_ACTIVE" and "other \<noteq> bs_connected_rover_id s"
    and "s1 = bs_route_message L (CommandMessage ''SESSION_INIT'' p other t) ep' s"
    and "\<forall>m \<in> set msgs. \<exists>c p t. m = CommandMessage c p (bs_connected_rover_id s) t
           \<and> (c = ''SESSION_INIT'' \<or> c = ''SESSION_CONFIRM'')"
    and "s2 = foldl (\<lambda>s m. bs_route_message L m (bs_rover_endpoint s) s) s1 msgs"
  shows "bs_session_state s2 = B_ACTIVE \<and> bs_connected_rover_id s2 = bs_connected_rover_id s
    \<and> bs_rover_endpoint s2 = bs_rover_endpoint s \<and> \<not> lp_session_active s2"
proof -
  have s1: "s1 = lp_set_session_active False s"
    using assms(1-3) by (simp add: bs_route_message_def bs_handle_internal_command_def bs_handle_session_init_eq)
  have "\<forall>m \<in> set msgs. \<exists>c p t. m = CommandMessage c p (bs_connected_rover_id s1) t
           \<and> (c = ''SESSION_INIT'' \<or> c = ''SESSION_CONFIRM'')"
    using assms(4) s1 by simp
  moreover have "bs_session_state s1 = B_ACTIVE" "\<not> lp_session_active s1"
    using assms(1) s1 by simp_all
  ultimately have "bs_session_state s2 = B_ACTIVE \<and> bs_connected_rover_id s2 = bs_connected_rover_id s1
    \<and> bs_rover_endpoint s2 = bs_rover_endpoint s1 \<and> \<not> lp_session_active s2"
    using assms(5)
  proof (induction msgs arbitrary: s1)
    case (Cons m msgs)
    let ?t = "bs_route_message L m (bs_rover_endpoint s1) s1"
    obtain c p t where m: "m = CommandMessage c p (bs_connected_rover_id s1) t"
      and c: "c = ''SESSION_INIT'' \<or> c = ''SESSION_CONFIRM''" using Cons.prems(1) by auto
    have "?t = bs_send_command L ''SESSION_ESTABLISHED'' (bs_station_id s1) s1 \<or> ?t = s1"
      using c Cons.prems(2)
      by (elim disjE) (simp_all add: m bs_route_message_def bs_handle_internal_command_def
          bs_handle_session_init_eq bs_handle_session_confirm_def)
    then have "bs_session_state ?t = B_ACTIVE \<and> bs_connected_rover_id ?t = bs_connected_rover_id s1
      \<and> bs_rover_endpoint ?t = bs_rover_endpoint s1 \<and> \<not> lp_session_active ?t"
      using Cons.prems(2,3) by (elim disjE) simp_all
    then show ?case using Cons.IH [of ?t] Cons.prems by simp
  qed simp
  then show ?thesis using s1 by simp
qed

theorem stranger_disables_acknowledgements_witness:
  "\<not> lp_session_active (bs_route_message json_lib (CommandMessage ''SESSION_INIT'' [] ''r2'' 0) no_endpoint
     (sample_base\<lparr>bs_session_state := B_ACTIVE, bs_connected_rover_id := ''r1'',
        bs_rover_endpoint := sample_ep, lp_session_active := True\<rparr>))"
proof -
  let ?s = "sample_base\<lparr>bs_session_state := B_ACTIVE, bs_connected_rover_id := ''r1'',
        bs_rover_endpoint := sample_ep, lp_session_active := True\<rparr>"
  have "bs_session_state ?s = B_ACTIVE" and "''r2'' \<noteq> bs_connected_rover_id ?s" by simp_all
  from stranger_disables_acknowledgements [OF this refl _ refl, where msgs = "[]" and L = json_lib
      and p = "[]" and t = 0 and ep' = no_endpoint]
  show ?thesis by (simp only: foldl.simps list.set ball_simps simp_thms)
qed

end
