(* ===== verification/Rover.thy ===== *)
theory Rover
  imports Message_Manager
begin

text \<open>
  The class \<open>Rover\<close> (\<open>include/rover/rover.hpp\<close>, \<open>src/rover/rover.cpp\<close>): the rover's side of the
  session handshake with its retries, the disconnected mode with probing and store-and-forward,
  low-power mode, discovery of other rovers, the periodic status and position reports, and the
  simulated movement towards a target. Handlers posted to the \<open>io_context\<close> are the list
  \<open>rv_posted\<close>, in order; \<open>rv_run_task\<close> is what each of them does.
\<close>

datatype RoverSessionState =
  R_INACTIVE | R_HANDSHAKE_INIT | R_HANDSHAKE_ACCEPT | R_ACTIVE | R_DISCONNECTED

type_synonym coordinate = "real \<times> real"

type_synonym stored_packet = "bytes \<times> MessageType \<times> Priority \<times> endpoint"

datatype rover_task =
    RoverAppMessage message endpoint
  | RoverDiscovered string endpoint
  | PacketTimeout endpoint
  | ResetSequence
  | StartProbe
  | RearmHandshake

definition MAX_HANDSHAKE_RETRIES :: int where "MAX_HANDSHAKE_RETRIES = 5"
definition STATUS_INTERVAL :: duration where "STATUS_INTERVAL = ms 15000"
definition HANDSHAKE_TIMEOUT :: duration where "HANDSHAKE_TIMEOUT = ms 5000"
definition POSITION_TELEMETRY_INTERVAL :: duration where "POSITION_TELEMETRY_INTERVAL = ms 10000"
definition PROBE_INTERVAL :: duration where "PROBE_INTERVAL = ms 5000"
definition MOVEMENT_INTERVAL :: duration where "MOVEMENT_INTERVAL = ms 1000"
definition MOVE_RATE_METERS_PER_SECOND :: real where "MOVE_RATE_METERS_PER_SECOND = 1"
definition TARGET_REACHED_THRESHOLD_METERS :: real where "TARGET_REACHED_THRESHOLD_METERS = 1"

record rover = message_manager +
  rv_session_state :: RoverSessionState
  rv_rover_id :: string
  rv_current_status_level :: StatusLevel
  rv_current_status_description :: string
  rv_handshake_retry_count :: int
  rv_discovered_rovers :: "(string, endpoint) smap"
  rv_low_power_mode :: bool
  rv_target_coordinate :: "coordinate option"
  rv_current_coordinate :: coordinate
  rv_stored_packets :: "stored_packet list"
  rv_status_timer :: timer
  rv_handshake_timer :: timer
  rv_position_telemetry_timer :: timer
  rv_probe_timer :: timer
  rv_movement_timer :: timer
  rv_application_message_handler :: bool
  rv_discovery_message_handler :: bool
  rv_posted :: "rover_task list"

definition calculate_distance :: "real \<Rightarrow> real \<Rightarrow> real \<Rightarrow> real \<Rightarrow> real" where
  "calculate_distance x1 y1 x2 y2 =
     (let dx = x2 - x1; dy = y2 - y1 in sqrt (dx * dx + dy * dy))"

text \<open>\<open>timer.expires_after(d); timer.async_wait(...)\<close>.\<close>

definition arm_after :: "duration \<Rightarrow> 'a net_scheme \<Rightarrow> timer \<Rightarrow> timer" where
  "arm_after d s tm = async_wait (expires_at (steady_now s + d) tm)"

subsection \<open>Construction\<close>

definition Rover :: "lib \<Rightarrow> string \<Rightarrow> nat \<Rightarrow> string \<Rightarrow> rover \<Rightarrow> rover result" where
  "Rover L base_host base_port rover_id s =
     (case cl_register_base L base_host base_port UdpClient of
        Inl (e, c) \<Rightarrow> Inl (e, s)
      | Inr c \<Rightarrow>
          Inr ((MessageManager rover_id (LumenProtocol_rover c s))
            \<lparr>rv_session_state := R_INACTIVE, rv_rover_id := rover_id,
             rv_current_status_level := OK, rv_current_status_description := ''System OK'',
             rv_handshake_retry_count := 0, rv_discovered_rovers := [], rv_low_power_mode := False,
             rv_target_coordinate := None, rv_current_coordinate := (0, 0), rv_stored_packets := [],
             rv_status_timer := new_timer, rv_handshake_timer := new_timer,
             rv_position_telemetry_timer := new_timer, rv_probe_timer := new_timer,
             rv_movement_timer := new_timer, rv_application_message_handler := False,
             rv_discovery_message_handler := False, rv_posted := []\<rparr>))"

definition rv_update_current_position :: "real \<Rightarrow> real \<Rightarrow> 'a rover_scheme \<Rightarrow> 'a rover_scheme" where
  "rv_update_current_position lat lon s = s\<lparr>rv_current_coordinate := (lat, lon)\<rparr>"

definition rv_is_low_power_mode :: "'a rover_scheme \<Rightarrow> bool" where
  "rv_is_low_power_mode s = rv_low_power_mode s"

definition rv_set_application_message_handler :: "'a rover_scheme \<Rightarrow> 'a rover_scheme" where
  "rv_set_application_message_handler s = s\<lparr>rv_application_message_handler := True\<rparr>"

definition rv_set_discovery_message_handler :: "'a rover_scheme \<Rightarrow> 'a rover_scheme" where
  "rv_set_discovery_message_handler s = s\<lparr>rv_discovery_message_handler := True\<rparr>"

definition rv_update_status :: "StatusLevel \<Rightarrow> string \<Rightarrow> 'a rover_scheme \<Rightarrow> 'a rover_scheme" where
  "rv_update_status level description s =
     s\<lparr>rv_current_status_level := level, rv_current_status_description := description\<rparr>"

definition rv_get_session_state :: "'a rover_scheme \<Rightarrow> RoverSessionState" where
  "rv_get_session_state s = rv_session_state s"

definition rv_get_discovered_rovers :: "'a rover_scheme \<Rightarrow> (string, endpoint) smap" where
  "rv_get_discovered_rovers s = rv_discovered_rovers s"

definition rv_get_base_endpoint :: "'a rover_scheme \<Rightarrow> exn + endpoint" where
  "rv_get_base_endpoint s = client_base_endpoint s"

subsection \<open>Sending\<close>

definition rv_store_message_for_later ::
  "lib \<Rightarrow> message \<Rightarrow> endpoint \<Rightarrow> 'a rover_scheme \<Rightarrow> 'a rover_scheme" where
  "rv_store_message_for_later L message intended_recipient s =
     (case serialise L message of
        Inl e \<Rightarrow> s
      | Inr json_str \<Rightarrow>
          s\<lparr>rv_stored_packets := rv_stored_packets s @
             [(string_to_binary json_str, get_lumen_type message, get_lumen_priority message,
               intended_recipient)]\<rparr>)"

definition rv_send_telemetry ::
  "lib \<Rightarrow> (string, real) smap \<Rightarrow> 'a rover_scheme \<Rightarrow> 'a rover_scheme" where
  "rv_send_telemetry L readings s =
     (case rv_get_base_endpoint s of
        Inl e \<Rightarrow> s
      | Inr base_ep \<Rightarrow>
          let telemetry_msg = TelemetryMessage readings (rv_rover_id s) (system_now s)
          in if rv_is_low_power_mode s \<and> get_lumen_priority telemetry_msg \<noteq> HIGH then s
             else if rv_session_state s = R_DISCONNECTED
             then rv_store_message_for_later L telemetry_msg base_ep s
             else if rv_session_state s = R_ACTIVE then mm_send_message L telemetry_msg base_ep s
             else s)"

definition rv_send_message ::
  "lib \<Rightarrow> message \<Rightarrow> endpoint \<Rightarrow> 'a rover_scheme \<Rightarrow> 'a rover_scheme" where
  "rv_send_message L message recipient s =
     (let lp = rv_is_low_power_mode s;
          deliver = (\<lambda>target_endpoint target_is_base.
            if lp \<and> get_lumen_priority message \<noteq> HIGH then s
            else if rv_session_state s = R_DISCONNECTED \<and> target_is_base
            then rv_store_message_for_later L message target_endpoint s
            else if rv_session_state s = R_ACTIVE \<or> \<not> target_is_base
            then (if lp \<and> \<not> target_is_base then s else mm_send_message L message target_endpoint s)
            else s)
      in case rv_get_base_endpoint s of
           Inr base \<Rightarrow>
             if is_unspecified recipient \<or> recipient = base then deliver base True
             else deliver recipient False
         | Inl e \<Rightarrow> if is_unspecified recipient then s else deliver recipient False)"

definition rv_send_raw_message ::
  "lib \<Rightarrow> message \<Rightarrow> endpoint \<Rightarrow> 'a rover_scheme \<Rightarrow> 'a rover_scheme" where
  "rv_send_raw_message L message recipient s =
     (if is_unspecified recipient \<or> ep_port recipient = 0 then s
      else
        let lp = rv_is_low_power_mode s
        in if lp \<and> get_lumen_priority message \<noteq> HIGH then s
           else
             let target_is_base = (case rv_get_base_endpoint s of Inr base \<Rightarrow> recipient = base | Inl e \<Rightarrow> False)
             in if lp \<and> \<not> target_is_base then s
                else mm_send_raw_message L message recipient s)"

definition rv_send_status :: "lib \<Rightarrow> 'a rover_scheme \<Rightarrow> 'a rover_scheme" where
  "rv_send_status L s =
     (case rv_get_base_endpoint s of
        Inl e \<Rightarrow> s
      | Inr base_ep \<Rightarrow>
          let status_msg = StatusMessage (rv_current_status_level s) (rv_current_status_description s)
                             (rv_rover_id s) (system_now s)
          in if rv_is_low_power_mode s \<and> get_lumen_priority status_msg \<noteq> HIGH then s
             else if rv_session_state s = R_DISCONNECTED
             then rv_store_message_for_later L status_msg base_ep s
             else if rv_session_state s = R_ACTIVE then mm_send_message L status_msg base_ep s
             else s)"

definition rv_scan_hosts :: "nat list" where
  "rv_scan_hosts = [2..<151]"

definition rv_scan_for_rovers ::
  "lib \<Rightarrow> u16 \<Rightarrow> string \<Rightarrow> 'a rover_scheme \<Rightarrow> 'a rover_scheme" where
  "rv_scan_for_rovers L discovery_port text s =
     (if rv_is_low_power_mode s then s
      else case client s of
             None \<Rightarrow> s
           | Some c \<Rightarrow>
               (case serialise L (CommandMessage ''ROVER_DISCOVER'' text (rv_rover_id s) (system_now s)) of
                  Inl e \<Rightarrow> s
                | Inr json_payload \<Rightarrow>
                    s\<lparr>client := Some
                       (foldl (\<lambda>c i. case scan_target L discovery_port i of
                                       None \<Rightarrow> c
                                     | Some ep \<Rightarrow> cl_send_data_to (string_to_binary json_payload) ep c)
                          c rv_scan_hosts)\<rparr>))"

definition rv_send_command ::
  "lib \<Rightarrow> string \<Rightarrow> string \<Rightarrow> 'a rover_scheme \<Rightarrow> 'a rover_scheme" where
  "rv_send_command L command params s =
     (let cmd_msg = CommandMessage command params (rv_rover_id s) (system_now s)
      in if rv_is_low_power_mode s \<and> get_lumen_priority cmd_msg \<noteq> HIGH then s
         else case rv_get_base_endpoint s of
                Inl e \<Rightarrow> s
              | Inr base_ep \<Rightarrow>
                  if rv_session_state s = R_DISCONNECTED \<and> command = ''SESSION_INIT''
                  then mm_send_message L cmd_msg base_ep s
                  else if rv_session_state s \<noteq> R_DISCONNECTED
                  then mm_send_message L cmd_msg base_ep s
                  else s)"

subsection \<open>Discovery\<close>

definition rv_handle_discovery_command ::
  "lib \<Rightarrow> string \<Rightarrow> string \<Rightarrow> endpoint \<Rightarrow> 'a rover_scheme \<Rightarrow> 'a rover_scheme" where
  "rv_handle_discovery_command L command sender_id sender s =
     (if sender_id = rv_rover_id s then s
      else if command = ''ROVER_ANNOUNCE'' then
        let is_new = (map_of (rv_discovered_rovers s) sender_id = None);
            s1 = s\<lparr>rv_discovered_rovers := smap_assign sender_id sender (rv_discovered_rovers s)\<rparr>
        in if is_new \<and> rv_discovery_message_handler s1
           then s1\<lparr>rv_posted := rv_posted s1 @ [RoverDiscovered sender_id sender]\<rparr> else s1
      else if command = ''ROVER_DISCOVER'' then
        (if \<not> rv_is_low_power_mode s
         then rv_send_raw_message L
                (CommandMessage ''ROVER_ANNOUNCE'' ''Responding to probe'' (rv_rover_id s) (system_now s))
                sender s
         else s)
      else s)"

subsection \<open>Handshake, disconnection and periodic reports\<close>

definition rv_initiate_handshake :: "lib \<Rightarrow> 'a rover_scheme \<Rightarrow> 'a rover_scheme" where
  "rv_initiate_handshake L s =
     (if rv_session_state s \<noteq> R_INACTIVE \<and> rv_session_state s \<noteq> R_DISCONNECTED then s
      else
        let s1 = (if rv_session_state s = R_DISCONNECTED
                  then s\<lparr>rv_probe_timer := cancel (rv_probe_timer s)\<rparr> else s);
            s2 = s1\<lparr>rv_session_state := R_HANDSHAKE_INIT, rv_handshake_retry_count := 0\<rparr>;
            s3 = rv_send_command L ''SESSION_INIT'' (rv_rover_id s2) s2
        in s3\<lparr>rv_handshake_timer := arm_after HANDSHAKE_TIMEOUT s3 (rv_handshake_timer s3)\<rparr>)"

definition rv_handle_base_disconnect :: "'a rover_scheme \<Rightarrow> 'a rover_scheme" where
  "rv_handle_base_disconnect s =
     (if rv_session_state s \<noteq> R_ACTIVE then s
      else s\<lparr>rv_session_state := R_DISCONNECTED,
             rv_handshake_timer := cancel (rv_handshake_timer s),
             rv_probe_timer := cancel (rv_probe_timer s),
             rv_posted := rv_posted s @ [ResetSequence, StartProbe]\<rparr>)"

definition rv_handle_handshake_timer :: "lib \<Rightarrow> 'a rover_scheme \<Rightarrow> 'a rover_scheme" where
  "rv_handle_handshake_timer L s =
     (if rv_session_state s = R_HANDSHAKE_INIT \<or> rv_session_state s = R_HANDSHAKE_ACCEPT then
        if rv_handshake_retry_count s < MAX_HANDSHAKE_RETRIES then
          let s1 = s\<lparr>rv_handshake_retry_count := rv_handshake_retry_count s + 1\<rparr>;
              s2 = (if rv_session_state s = R_HANDSHAKE_INIT
                    then rv_send_command L ''SESSION_INIT'' (rv_rover_id s1) s1
                    else rv_send_command L ''SESSION_CONFIRM'' (rv_rover_id s1) s1)
          in s2\<lparr>rv_handshake_timer := arm_after HANDSHAKE_TIMEOUT s2 (rv_handshake_timer s2)\<rparr>
        else rv_handle_base_disconnect s
      else s)"

definition rv_send_stored_packets :: "'a rover_scheme \<Rightarrow> 'a rover_scheme" where
  "rv_send_stored_packets s =
     foldl (\<lambda>s (payload, type, priority, recipient).
              let s1 = state_of (lp_send_message payload type priority recipient s)
              in s1\<lparr>rv_stored_packets := tl (rv_stored_packets s1)\<rparr>)
       s (rv_stored_packets s)"

definition rv_handle_position_telemetry_timer :: "lib \<Rightarrow> 'a rover_scheme \<Rightarrow> 'a rover_scheme" where
  "rv_handle_position_telemetry_timer L s =
     (let position_data = smap_assign ''longitude'' (snd (rv_current_coordinate s))
                            (smap_assign ''latitude'' (fst (rv_current_coordinate s)) []);
          s1 = rv_send_telemetry L position_data s
      in s1\<lparr>rv_position_telemetry_timer :=
              arm_after POSITION_TELEMETRY_INTERVAL s1 (rv_position_telemetry_timer s1)\<rparr>)"

definition rv_handle_status_timer :: "lib \<Rightarrow> 'a rover_scheme \<Rightarrow> 'a rover_scheme" where
  "rv_handle_status_timer L s =
     (let s1 = rv_send_status L s
      in s1\<lparr>rv_status_timer := arm_after STATUS_INTERVAL s1 (rv_status_timer s1)\<rparr>)"

definition rv_handle_session_established :: "lib \<Rightarrow> 'a rover_scheme \<Rightarrow> 'a rover_scheme" where
  "rv_handle_session_established L s =
     (if rv_session_state s = R_ACTIVE then s
      else
        let s1 = s\<lparr>rv_session_state := R_ACTIVE, rv_handshake_retry_count := 0,
                   rv_handshake_timer := cancel (rv_handshake_timer s),
                   rv_probe_timer := cancel (rv_probe_timer s)\<rparr>;
            s2 = rv_send_stored_packets s1;
            s3 = rv_handle_status_timer L s2
        in rv_handle_position_telemetry_timer L s3)"

definition rv_handle_session_accept :: "lib \<Rightarrow> 'a rover_scheme \<Rightarrow> 'a rover_scheme" where
  "rv_handle_session_accept L s =
     (if rv_session_state s = R_HANDSHAKE_INIT \<or> rv_session_state s = R_DISCONNECTED then
        let s1 = s\<lparr>rv_session_state := R_HANDSHAKE_ACCEPT,
                   rv_handshake_timer := cancel (rv_handshake_timer s)\<rparr>;
            s2 = (if rv_session_state s = R_DISCONNECTED
                  then s1\<lparr>rv_probe_timer := cancel (rv_probe_timer s1)\<rparr> else s1);
            s3 = rv_send_command L ''SESSION_CONFIRM'' (rv_rover_id s2) s2
        in s3\<lparr>rv_posted := rv_posted s3 @ [RearmHandshake]\<rparr>
      else s)"

definition rv_handle_probe_timer :: "lib \<Rightarrow> 'a rover_scheme \<Rightarrow> 'a rover_scheme" where
  "rv_handle_probe_timer L s =
     (if rv_session_state s = R_DISCONNECTED then
        let s1 = rv_send_command L ''SESSION_INIT'' (rv_rover_id s) s
        in s1\<lparr>rv_probe_timer :=
                async_wait (expires_at (tm_expiry (rv_probe_timer s1) + PROBE_INTERVAL) (rv_probe_timer s1))\<rparr>
      else s)"

definition rv_handle_packet_timeout :: "endpoint \<Rightarrow> 'a rover_scheme \<Rightarrow> 'a rover_scheme" where
  "rv_handle_packet_timeout recipient s =
     (let is_base_target = (case rv_get_base_endpoint s of Inr base_ep \<Rightarrow> recipient = base_ep | Inl e \<Rightarrow> False)
      in if rv_session_state s = R_ACTIVE \<and> is_base_target then rv_handle_base_disconnect s else s)"

subsection \<open>Movement\<close>

definition rv_handle_movement_timer :: "lib \<Rightarrow> 'a rover_scheme \<Rightarrow> 'a rover_scheme" where
  "rv_handle_movement_timer L s =
     (case rv_target_coordinate s of
        None \<Rightarrow> s
      | Some (target_x, target_y) \<Rightarrow>
          let (current_x, current_y) = rv_current_coordinate s;
              distance_to_target = calculate_distance current_x current_y target_x target_y
          in if distance_to_target \<le> TARGET_REACHED_THRESHOLD_METERS then
               let s1 = s\<lparr>rv_target_coordinate := None\<rparr>;
                   reached_msg = BasicMessage (''Rover '' @ rv_rover_id s1 @ '' reached target coordinates.'')
                                   (rv_rover_id s1) (system_now s1)
               in case rv_get_base_endpoint s1 of
                    Inl e \<Rightarrow> s1
                  | Inr base \<Rightarrow> rv_send_message L reached_msg base s1
             else
               let step_distance0 = MOVE_RATE_METERS_PER_SECOND * (real_of_int MOVEMENT_INTERVAL / 10 ^ 9);
                   step_distance = (if step_distance0 > distance_to_target then distance_to_target
                                    else step_distance0);
                   direction_x = (target_x - current_x) / distance_to_target;
                   direction_y = (target_y - current_y) / distance_to_target;
                   s1 = rv_update_current_position (current_x + direction_x * step_distance)
                          (current_y + direction_y * step_distance) s
               in s1\<lparr>rv_movement_timer :=
                       async_wait (expires_at (tm_expiry (rv_movement_timer s1) + MOVEMENT_INTERVAL)
                                     (rv_movement_timer s1))\<rparr>)"

subsection \<open>Commands of the base station\<close>

text \<open>
  The segments \<open>std::getline(ss, segment, ',')\<close> reads, with the characters of the current segment in
  the first argument; at the end of the stream there is no segment without characters.
\<close>

fun getline_loop :: "string \<Rightarrow> string \<Rightarrow> string list" where
  "getline_loop segment [] = (if segment = [] then [] else [segment])"
| "getline_loop segment (c # cs) =
     (if c = CHR '','' then segment # getline_loop [] cs else getline_loop (segment @ [c]) cs)"

definition getline_segments :: "string \<Rightarrow> string list" where
  "getline_segments str = getline_loop [] str"

text \<open>The parsing loop: \<open>coords\<close> is emptied at the first segment that \<open>stod\<close> rejects.\<close>

fun parse_coords :: "lib \<Rightarrow> string list \<Rightarrow> real list \<Rightarrow> real list" where
  "parse_coords L [] coords = coords"
| "parse_coords L (segment # segments) coords =
     (case stod L segment of
        Some v \<Rightarrow> parse_coords L segments (coords @ [v])
      | None \<Rightarrow> [])"

definition rv_set_target :: "real \<Rightarrow> real \<Rightarrow> 'a rover_scheme \<Rightarrow> 'a rover_scheme" where
  "rv_set_target target_lat target_lon s =
     (let s1 = s\<lparr>rv_target_coordinate := Some (target_lat, target_lon)\<rparr>;
          dist = calculate_distance (fst (rv_current_coordinate s1)) (snd (rv_current_coordinate s1))
                   target_lat target_lon
      in if dist > TARGET_REACHED_THRESHOLD_METERS
         then s1\<lparr>rv_movement_timer := arm_after (ms 10) s1 (cancel (rv_movement_timer s1))\<rparr>
         else s1\<lparr>rv_target_coordinate := None\<rparr>)"

text \<open>
  \<open>handle_internal_command\<close>. Both application commands first print the message with
  \<open>Message::pretty_print(cmd_msg->serialise())\<close>, whose exceptions pass to the caller.
\<close>

definition printed :: "lib \<Rightarrow> message \<Rightarrow> exn + string" where
  "printed L message = (case serialise L message of Inl e \<Rightarrow> Inl e | Inr json \<Rightarrow> pretty_print L json)"

definition rv_handle_internal_command ::
  "lib \<Rightarrow> string \<Rightarrow> string \<Rightarrow> message \<Rightarrow> 'a rover_scheme \<Rightarrow> 'a rover_scheme result" where
  "rv_handle_internal_command L command params cmd_msg s =
     (if command = ''SESSION_ACCEPT'' then Inr (rv_handle_session_accept L s)
      else if command = ''SESSION_ESTABLISHED'' then Inr (rv_handle_session_established L s)
      else if command = ''SET_LOW_POWER'' then
        (case printed L cmd_msg of
           Inl e \<Rightarrow> Inl (e, s)
         | Inr text \<Rightarrow> Inr (s\<lparr>rv_low_power_mode := (params = ''1'')\<rparr>))
      else if command = ''SET_TARGET_COORD'' then
        (case printed L cmd_msg of
           Inl e \<Rightarrow> Inl (e, s)
         | Inr text \<Rightarrow>
             (case parse_coords L (getline_segments params) [] of
                [target_lat, target_lon] \<Rightarrow> Inr (rv_set_target target_lat target_lon s)
              | _ \<Rightarrow> Inr s))
      else Inr s)"

subsection \<open>Routing\<close>

definition rv_forward :: "message \<Rightarrow> endpoint \<Rightarrow> 'a rover_scheme \<Rightarrow> 'a rover_scheme" where
  "rv_forward message sender s =
     (if rv_application_message_handler s
      then s\<lparr>rv_posted := rv_posted s @ [RoverAppMessage message sender]\<rparr> else s)"

definition rv_route_message ::
  "lib \<Rightarrow> message \<Rightarrow> endpoint \<Rightarrow> 'a rover_scheme \<Rightarrow> 'a rover_scheme result" where
  "rv_route_message L message sender s =
     (if msg_sender message = rv_rover_id s then Inr s
      else
        let from_base_station = (case client_base_endpoint s of Inr base \<Rightarrow> sender = base | Inl e \<Rightarrow> False)
        in case message of
             CommandMessage command params sender_id ts \<Rightarrow>
               if command = ''SESSION_ACCEPT'' \<or> command = ''SESSION_ESTABLISHED'' \<or>
                  command = ''SET_LOW_POWER'' \<or> command = ''SET_TARGET_COORD''
               then (if from_base_station then rv_handle_internal_command L command params message s
                     else Inr s)
               else if command = ''ROVER_ANNOUNCE'' \<or> command = ''ROVER_DISCOVER''
               then (if sender_id \<noteq> rv_rover_id s \<and> \<not> rv_is_low_power_mode s
                     then Inr (rv_handle_discovery_command L command sender_id sender s)
                     else Inr s)
               else Inr (rv_forward message sender s)
           | _ \<Rightarrow> Inr (rv_forward message sender s))"

subsection \<open>Life cycle and events\<close>

text \<open>The timeout callback \<open>start\<close> registers: it posts \<open>handle_packet_timeout\<close>.\<close>

definition rv_on_timeout :: "endpoint \<Rightarrow> 'a rover_scheme \<Rightarrow> 'a rover_scheme" where
  "rv_on_timeout recipient s = s\<lparr>rv_posted := rv_posted s @ [PacketTimeout recipient]\<rparr>"

definition rv_start :: "lib \<Rightarrow> 'a rover_scheme \<Rightarrow> 'a rover_scheme" where
  "rv_start L s =
     (let s1 = lp_start rv_on_timeout (mm_start s);
          s2 = lp_set_timeout_callback s1;
          s3 = s2\<lparr>client := map_option cl_start_receive (client s2)\<rparr>;
          s4 = mm_set_message_callback s3
      in rv_initiate_handshake L s4)"

definition rv_stop :: "'a rover_scheme \<Rightarrow> 'a rover_scheme" where
  "rv_stop s =
     (let s1 = s\<lparr>rv_status_timer := cancel (rv_status_timer s),
                 rv_handshake_timer := cancel (rv_handshake_timer s),
                 rv_position_telemetry_timer := cancel (rv_position_telemetry_timer s),
                 rv_probe_timer := cancel (rv_probe_timer s),
                 rv_movement_timer := cancel (rv_movement_timer s)\<rparr>;
          s2 = s1\<lparr>client := map_option cl_stop_receive (client s1)\<rparr>;
          s3 = mm_stop (lp_stop s2)
      in s3\<lparr>rv_session_state := R_INACTIVE, rv_discovered_rovers := [], rv_stored_packets := []\<rparr>)"

text \<open>What a posted handler does; the first two call the application.\<close>

definition rv_run_task :: "rover_task \<Rightarrow> 'a rover_scheme \<Rightarrow> 'a rover_scheme" where
  "rv_run_task task s =
     (case task of
        RoverAppMessage message sender \<Rightarrow> s
      | RoverDiscovered rover_id ep \<Rightarrow> s
      | PacketTimeout recipient \<Rightarrow> rv_handle_packet_timeout recipient s
      | ResetSequence \<Rightarrow> lp_reset_sequence_number s
      | StartProbe \<Rightarrow> s\<lparr>rv_probe_timer := arm_after 0 s (rv_probe_timer s)\<rparr>
      | RearmHandshake \<Rightarrow>
          s\<lparr>rv_handshake_timer := arm_after HANDSHAKE_TIMEOUT s (rv_handshake_timer s)\<rparr>)"

definition rv_receive :: "lib \<Rightarrow> receive_result \<Rightarrow> 'a rover_scheme \<Rightarrow> 'a rover_scheme" where
  "rv_receive L r s =
     cl_handle_receive (lp_handle_udp_data L (mm_handle_lumen_message L (rv_route_message L))) r s"

subsection \<open>What the layers below leave alone\<close>

lemma lp_core_rv [simp]:
  "lp_core L (s\<lparr>rv_session_state := x0\<rparr>) = lp_core L s"
  "lp_core L (s\<lparr>rv_rover_id := x1\<rparr>) = lp_core L s"
  "lp_core L (s\<lparr>rv_current_status_level := x2\<rparr>) = lp_core L s"
  "lp_core L (s\<lparr>rv_current_status_description := x3\<rparr>) = lp_core L s"
  "lp_core L (s\<lparr>rv_handshake_retry_count := x4\<rparr>) = lp_core L s"
  "lp_core L (s\<lparr>rv_discovered_rovers := x5\<rparr>) = lp_core L s"
  "lp_core L (s\<lparr>rv_low_power_mode := x6\<rparr>) = lp_core L s"
  "lp_core L (s\<lparr>rv_target_coordinate := x7\<rparr>) = lp_core L s"
  "lp_core L (s\<lparr>rv_current_coordinate := x8\<rparr>) = lp_core L s"
  "lp_core L (s\<lparr>rv_stored_packets := x9\<rparr>) = lp_core L s"
  "lp_core L (s\<lparr>rv_status_timer := x10\<rparr>) = lp_core L s"
  "lp_core L (s\<lparr>rv_handshake_timer := x11\<rparr>) = lp_core L s"
  "lp_core L (s\<lparr>rv_position_telemetry_timer := x12\<rparr>) = lp_core L s"
  "lp_core L (s\<lparr>rv_probe_timer := x13\<rparr>) = lp_core L s"
  "lp_core L (s\<lparr>rv_movement_timer := x14\<rparr>) = lp_core L s"
  "lp_core L (s\<lparr>rv_application_message_handler := x15\<rparr>) = lp_core L s"
  "lp_core L (s\<lparr>rv_discovery_message_handler := x16\<rparr>) = lp_core L s"
  "lp_core L (s\<lparr>rv_posted := x17\<rparr>) = lp_core L s"
  by (simp_all add: lp_core_def rm_inv_def node_ok_def cong: ProtocolMode.case_cong)

lemma rv_of_upper:
  "rv_session_state (upper s) = rv_session_state s"
  "rv_rover_id (upper s) = rv_rover_id s"
  "rv_current_status_level (upper s) = rv_current_status_level s"
  "rv_current_status_description (upper s) = rv_current_status_description s"
  "rv_handshake_retry_count (upper s) = rv_handshake_retry_count s"
  "rv_discovered_rovers (upper s) = rv_discovered_rovers s"
  "rv_low_power_mode (upper s) = rv_low_power_mode s"
  "rv_target_coordinate (upper s) = rv_target_coordinate s"
  "rv_current_coordinate (upper s) = rv_current_coordinate s"
  "rv_stored_packets (upper s) = rv_stored_packets s"
  "rv_status_timer (upper s) = rv_status_timer s"
  "rv_handshake_timer (upper s) = rv_handshake_timer s"
  "rv_position_telemetry_timer (upper s) = rv_position_telemetry_timer s"
  "rv_probe_timer (upper s) = rv_probe_timer s"
  "rv_movement_timer (upper s) = rv_movement_timer s"
  "rv_application_message_handler (upper s) = rv_application_message_handler s"
  "rv_discovery_message_handler (upper s) = rv_discovery_message_handler s"
  "rv_posted (upper s) = rv_posted s"
  by (simp_all add: upper_def)

lemma rv_same_upper:
  assumes "upper t = upper s"
  shows "mm_running t = mm_running s" "mm_message_callback t = mm_message_callback s"
    "rv_session_state t = rv_session_state s" "rv_rover_id t = rv_rover_id s"
    "rv_low_power_mode t = rv_low_power_mode s" "rv_stored_packets t = rv_stored_packets s"
    "rv_posted t = rv_posted s" "rv_target_coordinate t = rv_target_coordinate s"
    "rv_current_coordinate t = rv_current_coordinate s" "rv_movement_timer t = rv_movement_timer s"
    "rv_current_status_level t = rv_current_status_level s"
    "rv_current_status_description t = rv_current_status_description s"
    "rv_handshake_retry_count t = rv_handshake_retry_count s"
    "rv_handshake_timer t = rv_handshake_timer s" "rv_probe_timer t = rv_probe_timer s"
  using assms by (metis mm_of_upper rv_of_upper)+

lemma rv_keeps_send [simp]:
  "rv_session_state (mm_send_message L m ep s) = rv_session_state s"
  "rv_rover_id (mm_send_message L m ep s) = rv_rover_id s"
  "rv_current_status_level (mm_send_message L m ep s) = rv_current_status_level s"
  "rv_current_status_description (mm_send_message L m ep s) = rv_current_status_description s"
  "rv_handshake_retry_count (mm_send_message L m ep s) = rv_handshake_retry_count s"
  "rv_discovered_rovers (mm_send_message L m ep s) = rv_discovered_rovers s"
  "rv_low_power_mode (mm_send_message L m ep s) = rv_low_power_mode s"
  "rv_target_coordinate (mm_send_message L m ep s) = rv_target_coordinate s"
  "rv_current_coordinate (mm_send_message L m ep s) = rv_current_coordinate s"
  "rv_stored_packets (mm_send_message L m ep s) = rv_stored_packets s"
  "rv_status_timer (mm_send_message L m ep s) = rv_status_timer s"
  "rv_handshake_timer (mm_send_message L m ep s) = rv_handshake_timer s"
  "rv_position_telemetry_timer (mm_send_message L m ep s) = rv_position_telemetry_timer s"
  "rv_probe_timer (mm_send_message L m ep s) = rv_probe_timer s"
  "rv_movement_timer (mm_send_message L m ep s) = rv_movement_timer s"
  "rv_application_message_handler (mm_send_message L m ep s) = rv_application_message_handler s"
  "rv_discovery_message_handler (mm_send_message L m ep s) = rv_discovery_message_handler s"
  "rv_posted (mm_send_message L m ep s) = rv_posted s"
  "rv_session_state (mm_send_raw_message L m ep s) = rv_session_state s"
  "rv_rover_id (mm_send_raw_message L m ep s) = rv_rover_id s"
  "rv_current_status_level (mm_send_raw_message L m ep s) = rv_current_status_level s"
  "rv_current_status_description (mm_send_raw_message L m ep s) = rv_current_status_description s"
  "rv_handshake_retry_count (mm_send_raw_message L m ep s) = rv_handshake_retry_count s"
  "rv_discovered_rovers (mm_send_raw_message L m ep s) = rv_discovered_rovers s"
  "rv_low_power_mode (mm_send_raw_message L m ep s) = rv_low_power_mode s"
  "rv_target_coordinate (mm_send_raw_message L m ep s) = rv_target_coordinate s"
  "rv_current_coordinate (mm_send_raw_message L m ep s) = rv_current_coordinate s"
  "rv_stored_packets (mm_send_raw_message L m ep s) = rv_stored_packets s"
  "rv_status_timer (mm_send_raw_message L m ep s) = rv_status_timer s"
  "rv_handshake_timer (mm_send_raw_message L m ep s) = rv_handshake_timer s"
  "rv_position_telemetry_timer (mm_send_raw_message L m ep s) = rv_position_telemetry_timer s"
  "rv_probe_timer (mm_send_raw_message L m ep s) = rv_probe_timer s"
  "rv_movement_timer (mm_send_raw_message L m ep s) = rv_movement_timer s"
  "rv_application_message_handler (mm_send_raw_message L m ep s) = rv_application_message_handler s"
  "rv_discovery_message_handler (mm_send_raw_message L m ep s) = rv_discovery_message_handler s"
  "rv_posted (mm_send_raw_message L m ep s) = rv_posted s"
  "rv_session_state (state_of (lp_send_message pl ty pr ep s)) = rv_session_state s"
  "rv_rover_id (state_of (lp_send_message pl ty pr ep s)) = rv_rover_id s"
  "rv_current_status_level (state_of (lp_send_message pl ty pr ep s)) = rv_current_status_level s"
  "rv_current_status_description (state_of (lp_send_message pl ty pr ep s)) = rv_current_status_description s"
  "rv_handshake_retry_count (state_of (lp_send_message pl ty pr ep s)) = rv_handshake_retry_count s"
  "rv_discovered_rovers (state_of (lp_send_message pl ty pr ep s)) = rv_discovered_rovers s"
  "rv_low_power_mode (state_of (lp_send_message pl ty pr ep s)) = rv_low_power_mode s"
  "rv_target_coordinate (state_of (lp_send_message pl ty pr ep s)) = rv_target_coordinate s"
  "rv_current_coordinate (state_of (lp_send_message pl ty pr ep s)) = rv_current_coordinate s"
  "rv_stored_packets (state_of (lp_send_message pl ty pr ep s)) = rv_stored_packets s"
  "rv_status_timer (state_of (lp_send_message pl ty pr ep s)) = rv_status_timer s"
  "rv_handshake_timer (state_of (lp_send_message pl ty pr ep s)) = rv_handshake_timer s"
  "rv_position_telemetry_timer (state_of (lp_send_message pl ty pr ep s)) = rv_position_telemetry_timer s"
  "rv_probe_timer (state_of (lp_send_message pl ty pr ep s)) = rv_probe_timer s"
  "rv_movement_timer (state_of (lp_send_message pl ty pr ep s)) = rv_movement_timer s"
  "rv_application_message_handler (state_of (lp_send_message pl ty pr ep s)) = rv_application_message_handler s"
  "rv_discovery_message_handler (state_of (lp_send_message pl ty pr ep s)) = rv_discovery_message_handler s"
  "rv_posted (state_of (lp_send_message pl ty pr ep s)) = rv_posted s"
  by (metis rv_of_upper upper_mm_send upper_send_message)+

lemma rv_send_command_keeps [simp]:
  "rv_session_state (rv_send_command L c p s) = rv_session_state s"
  "rv_rover_id (rv_send_command L c p s) = rv_rover_id s"
  "rv_current_status_level (rv_send_command L c p s) = rv_current_status_level s"
  "rv_current_status_description (rv_send_command L c p s) = rv_current_status_description s"
  "rv_handshake_retry_count (rv_send_command L c p s) = rv_handshake_retry_count s"
  "rv_discovered_rovers (rv_send_command L c p s) = rv_discovered_rovers s"
  "rv_low_power_mode (rv_send_command L c p s) = rv_low_power_mode s"
  "rv_target_coordinate (rv_send_command L c p s) = rv_target_coordinate s"
  "rv_current_coordinate (rv_send_command L c p s) = rv_current_coordinate s"
  "rv_stored_packets (rv_send_command L c p s) = rv_stored_packets s"
  "rv_status_timer (rv_send_command L c p s) = rv_status_timer s"
  "rv_handshake_timer (rv_send_command L c p s) = rv_handshake_timer s"
  "rv_position_telemetry_timer (rv_send_command L c p s) = rv_position_telemetry_timer s"
  "rv_probe_timer (rv_send_command L c p s) = rv_probe_timer s"
  "rv_movement_timer (rv_send_command L c p s) = rv_movement_timer s"
  "rv_application_message_handler (rv_send_command L c p s) = rv_application_message_handler s"
  "rv_discovery_message_handler (rv_send_command L c p s) = rv_discovery_message_handler s"
  "rv_posted (rv_send_command L c p s) = rv_posted s"
  "lp_frame_buffers (rv_send_command L c p s) = lp_frame_buffers s"
  "upper (rv_send_command L c p s) = upper s"
  "steady_now (rv_send_command L c p s) = steady_now s"
  "system_now (rv_send_command L c p s) = system_now s"
  by (simp_all add: rv_send_command_def Let_def split: sum.splits)

subsection \<open>The router honours the contract of an application\<close>

lemma lp_core_rv_send_command: "lp_core L s \<Longrightarrow> lp_core L (rv_send_command L' c p s)"
  by (simp add: rv_send_command_def Let_def lp_core_mm_send_message split: sum.splits)

lemma lp_core_store: "lp_core L s \<Longrightarrow> lp_core L (rv_store_message_for_later L' m ep s)"
  by (simp add: rv_store_message_for_later_def split: sum.splits)

lemma rv_store_keeps [simp]:
  "lp_frame_buffers (rv_store_message_for_later L m ep s) = lp_frame_buffers s"
  "rv_session_state (rv_store_message_for_later L m ep s) = rv_session_state s"
  "rv_rover_id (rv_store_message_for_later L m ep s) = rv_rover_id s"
  by (simp_all add: rv_store_message_for_later_def split: sum.splits)

lemma lp_core_rv_reports:
  assumes "lp_core L s"
  shows "lp_core L (rv_send_telemetry L' r s)" "lp_core L (rv_send_status L' s)"
    "lp_core L (rv_send_message L' m ep s)" "lp_core L (rv_send_raw_message L' m ep s)"
  using assms
  by (simp_all add: rv_send_telemetry_def rv_send_status_def rv_send_message_def rv_send_raw_message_def
      Let_def lp_core_store lp_core_mm_send_message lp_core_mm_send_raw split: sum.splits)

lemma rv_reports_buffers [simp]:
  "lp_frame_buffers (rv_send_telemetry L r s) = lp_frame_buffers s"
  "lp_frame_buffers (rv_send_status L s) = lp_frame_buffers s"
  "lp_frame_buffers (rv_send_message L m ep s) = lp_frame_buffers s"
  "lp_frame_buffers (rv_send_raw_message L m ep s) = lp_frame_buffers s"
  by (simp_all add: rv_send_telemetry_def rv_send_status_def rv_send_message_def rv_send_raw_message_def
      Let_def split: sum.splits)

lemma rv_send_stored_core:
  "lp_core L s \<Longrightarrow> lp_core L (rv_send_stored_packets s)
     \<and> lp_frame_buffers (rv_send_stored_packets s) = lp_frame_buffers s"
  unfolding rv_send_stored_packets_def
  by (rule foldl_preserves [where P = "\<lambda>t. lp_core L t \<and> lp_frame_buffers t = lp_frame_buffers s"])
    (auto simp: Let_def lp_core_send_message split: prod.splits)

lemma lp_core_established:
  "lp_core L s \<Longrightarrow> lp_core L (rv_handle_session_established L' s)"
  by (simp add: rv_handle_session_established_def rv_handle_status_timer_def
      rv_handle_position_telemetry_timer_def Let_def lp_core_rv_reports
      rv_send_stored_core [THEN conjunct1])

lemma rv_send_stored_buffers [simp]: "lp_frame_buffers (rv_send_stored_packets s) = lp_frame_buffers s"
  unfolding rv_send_stored_packets_def
  by (rule foldl_preserves [where P = "\<lambda>t. lp_frame_buffers t = lp_frame_buffers s"])
    (auto simp: Let_def split: prod.splits)

lemma lp_core_internal_command:
  assumes "lp_core L s"
  shows "lp_core L (state_of (rv_handle_internal_command L' c p m s))"
  using assms
  by (auto simp: rv_handle_internal_command_def rv_handle_session_accept_def rv_set_target_def Let_def
      lp_core_established lp_core_rv_send_command split: sum.splits list.splits)

lemma internal_command_buffers:
  "lp_frame_buffers (state_of (rv_handle_internal_command L c p m s)) = lp_frame_buffers s"
  by (auto simp: rv_handle_internal_command_def rv_handle_session_accept_def rv_set_target_def Let_def
      rv_handle_session_established_def rv_handle_status_timer_def rv_handle_position_telemetry_timer_def
      split: sum.splits list.splits)

lemma lp_core_rv_route: "lp_core L s \<Longrightarrow> lp_core L (state_of (rv_route_message L' m ep s))"
  by (auto simp: rv_route_message_def rv_forward_def rv_handle_discovery_command_def Let_def
      lp_core_internal_command lp_core_rv_reports split: message.splits)

lemma rv_route_buffers: "lp_frame_buffers (state_of (rv_route_message L m ep s)) = lp_frame_buffers s"
  by (auto simp: rv_route_message_def rv_forward_def rv_handle_discovery_command_def Let_def
      internal_command_buffers split: message.splits)

interpretation rover_app: application L "rv_route_message L" for L
  by unfold_locales (simp_all add: lp_core_rv_route rv_route_buffers)

interpretation rover_timeout: timeout_client L rv_on_timeout for L
  by unfold_locales (simp_all add: rv_on_timeout_def)

end
