(* ===== verification/Rover_Session.thy ===== *)
theory Rover_Session
  imports Rover
begin

text \<open>
  The session state machine of the rover: the step relation collects everything that can happen to
  a rover, and its invariant, proved by rule induction, includes the liveness facts the timers are
  there for: a handshake in progress has a timer armed (until the retries are used up), a
  disconnected rover has a probe pending, and a rover that was once active keeps its periodic
  reports scheduled.
\<close>

definition handshaking :: "'a rover_scheme \<Rightarrow> bool" where
  "handshaking s \<longleftrightarrow> rv_session_state s = R_HANDSHAKE_INIT \<or> rv_session_state s = R_HANDSHAKE_ACCEPT"

definition handshake_alive :: "'a rover_scheme \<Rightarrow> bool" where
  "handshake_alive s \<longleftrightarrow> (handshaking s \<longrightarrow> tm_waiting (rv_handshake_timer s) \<or>
     RearmHandshake \<in> set (rv_posted s) \<or> rv_handshake_retry_count s = MAX_HANDSHAKE_RETRIES)"

definition probe_alive :: "'a rover_scheme \<Rightarrow> bool" where
  "probe_alive s \<longleftrightarrow> (rv_session_state s = R_DISCONNECTED \<longrightarrow>
     tm_waiting (rv_probe_timer s) \<or> StartProbe \<in> set (rv_posted s))"

definition reports_alive :: "'a rover_scheme \<Rightarrow> bool" where
  "reports_alive s \<longleftrightarrow> (rv_session_state s = R_ACTIVE \<or> rv_session_state s = R_DISCONNECTED \<longrightarrow>
     tm_waiting (rv_status_timer s) \<and> tm_waiting (rv_position_telemetry_timer s))"

definition data_ok :: "'a rover_scheme \<Rightarrow> bool" where
  "data_ok s \<longleftrightarrow> lp_mode s = MODE_ROVER \<and>
     0 \<le> rv_handshake_retry_count s \<and> rv_handshake_retry_count s \<le> MAX_HANDSHAKE_RETRIES \<and>
     smap_inv (rv_discovered_rovers s) \<and> rv_rover_id s \<notin> fst ` set (rv_discovered_rovers s) \<and>
     (\<forall>(payload, type, priority, ep) \<in> set (rv_stored_packets s). \<not> is_unspecified ep)"

definition rover_ok :: "'a rover_scheme \<Rightarrow> bool" where
  "rover_ok s \<longleftrightarrow> data_ok s \<and> handshake_alive s \<and> probe_alive s \<and> reports_alive s"

lemmas alive_defs = handshake_alive_def handshaking_def probe_alive_def reports_alive_def

lemmas rover_ok_defs = rover_ok_def data_ok_def alive_defs

lemma rover_ok_of_upper: "rover_ok (upper s) = rover_ok s" "data_ok (upper s) = data_ok s"
  by (simp_all add: rover_ok_defs upper_def)

lemma rover_ok_upper: "rover_ok s \<Longrightarrow> upper t = upper s \<Longrightarrow> rover_ok t"
  by (metis rover_ok_of_upper(1))

lemma data_ok_upper: "data_ok s \<Longrightarrow> upper t = upper s \<Longrightarrow> data_ok t"
  by (metis rover_ok_of_upper(2))

subsection \<open>Sending\<close>

lemma data_ok_send:
  "data_ok s \<Longrightarrow> data_ok (mm_send_message L m ep s)"
  "data_ok s \<Longrightarrow> data_ok (mm_send_raw_message L m ep s)"
  "data_ok s \<Longrightarrow> data_ok (rv_send_command L c p s)"
  "data_ok s \<Longrightarrow> data_ok (state_of (lp_send_message pl ty pr ep s))"
  by (erule data_ok_upper; simp)+

lemma data_ok_store:
  "data_ok s \<Longrightarrow> \<not> is_unspecified ep \<Longrightarrow> data_ok (rv_store_message_for_later L m ep s)"
  by (auto simp: rv_store_message_for_later_def data_ok_def split: sum.splits)

lemma base_specified: "rv_get_base_endpoint s = Inr base \<Longrightarrow> \<not> is_unspecified base"
  by (simp add: rv_get_base_endpoint_def client_base_specified)

lemma data_ok_reports:
  assumes "data_ok s"
  shows "data_ok (rv_send_telemetry L r s)" "data_ok (rv_send_status L s)"
    "data_ok (rv_send_message L m ep s)" "data_ok (rv_send_raw_message L m ep s)"
  using assms base_specified [of s]
  by (auto simp: rv_send_telemetry_def rv_send_status_def rv_send_message_def rv_send_raw_message_def
      Let_def data_ok_store data_ok_send split: sum.splits)

lemma rv_reports_keep [simp]:
  "rv_handshake_retry_count (rv_store_message_for_later L m ep s) = rv_handshake_retry_count s"
  "rv_discovered_rovers (rv_store_message_for_later L m ep s) = rv_discovered_rovers s"
  "rv_low_power_mode (rv_store_message_for_later L m ep s) = rv_low_power_mode s"
  "rv_status_timer (rv_store_message_for_later L m ep s) = rv_status_timer s"
  "rv_handshake_timer (rv_store_message_for_later L m ep s) = rv_handshake_timer s"
  "rv_position_telemetry_timer (rv_store_message_for_later L m ep s) = rv_position_telemetry_timer s"
  "rv_probe_timer (rv_store_message_for_later L m ep s) = rv_probe_timer s"
  "rv_posted (rv_store_message_for_later L m ep s) = rv_posted s"
  "rv_session_state (rv_send_telemetry L r s) = rv_session_state s"
  "rv_rover_id (rv_send_telemetry L r s) = rv_rover_id s"
  "rv_handshake_retry_count (rv_send_telemetry L r s) = rv_handshake_retry_count s"
  "rv_discovered_rovers (rv_send_telemetry L r s) = rv_discovered_rovers s"
  "rv_low_power_mode (rv_send_telemetry L r s) = rv_low_power_mode s"
  "rv_status_timer (rv_send_telemetry L r s) = rv_status_timer s"
  "rv_handshake_timer (rv_send_telemetry L r s) = rv_handshake_timer s"
  "rv_position_telemetry_timer (rv_send_telemetry L r s) = rv_position_telemetry_timer s"
  "rv_probe_timer (rv_send_telemetry L r s) = rv_probe_timer s"
  "rv_posted (rv_send_telemetry L r s) = rv_posted s"
  "rv_session_state (rv_send_status L s) = rv_session_state s"
  "rv_rover_id (rv_send_status L s) = rv_rover_id s"
  "rv_handshake_retry_count (rv_send_status L s) = rv_handshake_retry_count s"
  "rv_discovered_rovers (rv_send_status L s) = rv_discovered_rovers s"
  "rv_low_power_mode (rv_send_status L s) = rv_low_power_mode s"
  "rv_status_timer (rv_send_status L s) = rv_status_timer s"
  "rv_handshake_timer (rv_send_status L s) = rv_handshake_timer s"
  "rv_position_telemetry_timer (rv_send_status L s) = rv_position_telemetry_timer s"
  "rv_probe_timer (rv_send_status L s) = rv_probe_timer s"
  "rv_posted (rv_send_status L s) = rv_posted s"
  "rv_session_state (rv_send_message L m ep s) = rv_session_state s"
  "rv_rover_id (rv_send_message L m ep s) = rv_rover_id s"
  "rv_handshake_retry_count (rv_send_message L m ep s) = rv_handshake_retry_count s"
  "rv_discovered_rovers (rv_send_message L m ep s) = rv_discovered_rovers s"
  "rv_low_power_mode (rv_send_message L m ep s) = rv_low_power_mode s"
  "rv_status_timer (rv_send_message L m ep s) = rv_status_timer s"
  "rv_handshake_timer (rv_send_message L m ep s) = rv_handshake_timer s"
  "rv_position_telemetry_timer (rv_send_message L m ep s) = rv_position_telemetry_timer s"
  "rv_probe_timer (rv_send_message L m ep s) = rv_probe_timer s"
  "rv_posted (rv_send_message L m ep s) = rv_posted s"
  "rv_session_state (rv_send_raw_message L m ep s) = rv_session_state s"
  "rv_rover_id (rv_send_raw_message L m ep s) = rv_rover_id s"
  "rv_handshake_retry_count (rv_send_raw_message L m ep s) = rv_handshake_retry_count s"
  "rv_discovered_rovers (rv_send_raw_message L m ep s) = rv_discovered_rovers s"
  "rv_low_power_mode (rv_send_raw_message L m ep s) = rv_low_power_mode s"
  "rv_status_timer (rv_send_raw_message L m ep s) = rv_status_timer s"
  "rv_handshake_timer (rv_send_raw_message L m ep s) = rv_handshake_timer s"
  "rv_position_telemetry_timer (rv_send_raw_message L m ep s) = rv_position_telemetry_timer s"
  "rv_probe_timer (rv_send_raw_message L m ep s) = rv_probe_timer s"
  "rv_posted (rv_send_raw_message L m ep s) = rv_posted s"
  by (simp_all add: rv_send_telemetry_def rv_send_status_def rv_store_message_for_later_def
      rv_send_message_def rv_send_raw_message_def Let_def split: sum.splits)

lemma data_ok_fields [simp]:
  "data_ok (s\<lparr>rv_status_timer := tm\<rparr>) = data_ok s"
  "data_ok (s\<lparr>rv_position_telemetry_timer := tm\<rparr>) = data_ok s"
  "data_ok (s\<lparr>rv_handshake_timer := tm\<rparr>) = data_ok s"
  "data_ok (s\<lparr>rv_probe_timer := tm\<rparr>) = data_ok s"
  "data_ok (s\<lparr>rv_movement_timer := tm\<rparr>) = data_ok s"
  "data_ok (s\<lparr>rv_posted := ts\<rparr>) = data_ok s"
  "data_ok (s\<lparr>rv_session_state := st\<rparr>) = data_ok s"
  "data_ok (s\<lparr>rv_low_power_mode := b\<rparr>) = data_ok s"
  "data_ok (s\<lparr>rv_target_coordinate := tc\<rparr>) = data_ok s"
  "data_ok (s\<lparr>rv_current_coordinate := cc\<rparr>) = data_ok s"
  "data_ok s \<Longrightarrow> data_ok (s\<lparr>rv_handshake_retry_count := 0\<rparr>)"
  "data_ok s \<Longrightarrow> rv_handshake_retry_count s < MAX_HANDSHAKE_RETRIES \<Longrightarrow>
     data_ok (s\<lparr>rv_handshake_retry_count := rv_handshake_retry_count s + 1\<rparr>)"
  by (simp_all add: data_ok_def MAX_HANDSHAKE_RETRIES_def)

lemma arm_after_waiting [simp]: "tm_waiting (arm_after d s tm)"
  by (simp add: arm_after_def)

subsection \<open>Session operations\<close>

lemma rv_send_stored_keeps [simp]:
  "rv_session_state (rv_send_stored_packets s) = rv_session_state s"
  "rv_rover_id (rv_send_stored_packets s) = rv_rover_id s"
  "rv_handshake_retry_count (rv_send_stored_packets s) = rv_handshake_retry_count s"
  "rv_discovered_rovers (rv_send_stored_packets s) = rv_discovered_rovers s"
  "rv_low_power_mode (rv_send_stored_packets s) = rv_low_power_mode s"
  "rv_status_timer (rv_send_stored_packets s) = rv_status_timer s"
  "rv_handshake_timer (rv_send_stored_packets s) = rv_handshake_timer s"
  "rv_position_telemetry_timer (rv_send_stored_packets s) = rv_position_telemetry_timer s"
  "rv_probe_timer (rv_send_stored_packets s) = rv_probe_timer s"
  "rv_posted (rv_send_stored_packets s) = rv_posted s"
  unfolding rv_send_stored_packets_def
  by (rule foldl_preserves; auto simp: Let_def split: prod.splits)+

lemma set_tl: "set (tl xs) \<subseteq> set xs"
  by (cases xs) auto

lemma data_ok_send_stored: "data_ok s \<Longrightarrow> data_ok (rv_send_stored_packets s)"
  unfolding rv_send_stored_packets_def
proof (rule foldl_preserves [where P = data_ok])
  fix t :: "'a rover_scheme" and x
  assume "data_ok t"
  then have "data_ok (state_of (lp_send_message pl ty pr ep t))" for pl ty pr ep
    by (rule data_ok_send)
  then show "data_ok (case x of (payload, type, priority, recipient) \<Rightarrow>
      let s1 = state_of (lp_send_message payload type priority recipient t)
      in s1\<lparr>rv_stored_packets := tl (rv_stored_packets s1)\<rparr>)"
    using set_tl [of "rv_stored_packets t"] by (fastforce simp: data_ok_def Let_def split: prod.splits)
qed

lemma rover_ok_established: "rover_ok s \<Longrightarrow> rover_ok (rv_handle_session_established L s)"
  by (auto simp: rv_handle_session_established_def rv_handle_status_timer_def
      rv_handle_position_telemetry_timer_def Let_def rover_ok_def alive_defs data_ok_reports
      data_ok_send_stored)

lemma rover_ok_accept: "rover_ok s \<Longrightarrow> rover_ok (rv_handle_session_accept L s)"
  by (auto simp: rv_handle_session_accept_def Let_def rover_ok_def alive_defs data_ok_send)

lemma rover_ok_disconnect: "rover_ok s \<Longrightarrow> rover_ok (rv_handle_base_disconnect s)"
  by (auto simp: rv_handle_base_disconnect_def rover_ok_def alive_defs)

lemma rover_ok_initiate: "rover_ok s \<Longrightarrow> rover_ok (rv_initiate_handshake L s)"
  by (auto simp: rv_initiate_handshake_def Let_def rover_ok_def alive_defs data_ok_send)

lemma rover_ok_send:
  "rover_ok s \<Longrightarrow> rover_ok (mm_send_message L m ep s)"
  "rover_ok s \<Longrightarrow> rover_ok (mm_send_raw_message L m ep s)"
  "rover_ok s \<Longrightarrow> rover_ok (rv_send_command L c p s)"
  by (erule rover_ok_upper; simp)+

lemma rover_ok_reports:
  assumes "rover_ok s"
  shows "rover_ok (rv_send_telemetry L r s)" "rover_ok (rv_send_status L s)"
    "rover_ok (rv_send_message L m ep s)" "rover_ok (rv_send_raw_message L m ep s)"
  using assms by (simp_all add: rover_ok_def alive_defs data_ok_reports)

lemma rover_ok_motion [simp]:
  "rover_ok (s\<lparr>rv_movement_timer := tm\<rparr>) = rover_ok s"
  "rover_ok (s\<lparr>rv_target_coordinate := tc\<rparr>) = rover_ok s"
  "rover_ok (s\<lparr>rv_current_coordinate := cc\<rparr>) = rover_ok s"
  by (simp_all add: rover_ok_def alive_defs)

lemma rover_ok_set_target: "rover_ok s \<Longrightarrow> rover_ok (rv_set_target x y s)"
  by (simp add: rv_set_target_def Let_def rover_ok_def alive_defs)

lemma rover_ok_internal_command:
  "rover_ok s \<Longrightarrow> rover_ok (state_of (rv_handle_internal_command L c p m s))"
  by (auto simp: rv_handle_internal_command_def rover_ok_accept rover_ok_established rover_ok_set_target
      split: sum.splits list.splits) (simp_all add: rover_ok_def alive_defs)

lemma rover_ok_discovery: "rover_ok s \<Longrightarrow> rover_ok (rv_handle_discovery_command L c i ep s)"
proof -
  assume ok: "rover_ok s"
  have "rover_ok (s\<lparr>rv_discovered_rovers := smap_assign i ep (rv_discovered_rovers s)\<rparr>)"
    "rover_ok (s\<lparr>rv_discovered_rovers := smap_assign i ep (rv_discovered_rovers s),
                 rv_posted := rv_posted s @ [RoverDiscovered i ep]\<rparr>)" if "i \<noteq> rv_rover_id s"
    using ok that keys_smap_assign [of i ep "rv_discovered_rovers s"]
    by (auto simp: rover_ok_def data_ok_def alive_defs smap_inv_assign)
  then show ?thesis
    using ok by (simp add: rv_handle_discovery_command_def Let_def rover_ok_reports)
qed

lemma rover_ok_route: "rover_ok s \<Longrightarrow> rover_ok (state_of (rv_route_message L m ep s))"
proof -
  assume ok: "rover_ok s"
  then have "rover_ok (rv_forward m ep s)"
    by (simp add: rv_forward_def rover_ok_def alive_defs)
  then show ?thesis
    using ok by (auto simp: rv_route_message_def Let_def rover_ok_internal_command rover_ok_discovery
        split: message.splits)
qed

lemma rover_ok_on_timeout: "rover_ok s \<Longrightarrow> rover_ok (rv_on_timeout ep s)"
  by (auto simp: rv_on_timeout_def rover_ok_def alive_defs)

interpretation rover_session: upper_invariant rover_ok
    "mm_handle_lumen_message L (rv_route_message L)" rv_on_timeout for L
  by unfold_locales
    (auto simp: rover_ok_upper rover_ok_on_timeout mm_handle_lumen_message_def Let_def rover_ok_route
      split: sum.splits)

subsection \<open>Timers\<close>

text \<open>A timer has fired: its wait is over when the handler runs.\<close>

definition fired_handshake :: "lib \<Rightarrow> 'a rover_scheme \<Rightarrow> 'a rover_scheme" where
  "fired_handshake L s = rv_handle_handshake_timer L (s\<lparr>rv_handshake_timer := cancel (rv_handshake_timer s)\<rparr>)"

definition fired_probe :: "lib \<Rightarrow> 'a rover_scheme \<Rightarrow> 'a rover_scheme" where
  "fired_probe L s = rv_handle_probe_timer L (s\<lparr>rv_probe_timer := cancel (rv_probe_timer s)\<rparr>)"

definition fired_status :: "lib \<Rightarrow> 'a rover_scheme \<Rightarrow> 'a rover_scheme" where
  "fired_status L s = rv_handle_status_timer L (s\<lparr>rv_status_timer := cancel (rv_status_timer s)\<rparr>)"

definition fired_position :: "lib \<Rightarrow> 'a rover_scheme \<Rightarrow> 'a rover_scheme" where
  "fired_position L s = rv_handle_position_telemetry_timer L
     (s\<lparr>rv_position_telemetry_timer := cancel (rv_position_telemetry_timer s)\<rparr>)"

definition fired_movement :: "lib \<Rightarrow> 'a rover_scheme \<Rightarrow> 'a rover_scheme" where
  "fired_movement L s = rv_handle_movement_timer L (s\<lparr>rv_movement_timer := cancel (rv_movement_timer s)\<rparr>)"

lemma rover_ok_fired_handshake:
  assumes "rover_ok s"
  shows "rover_ok (fired_handshake L s)"
proof (cases "handshaking s \<and> rv_handshake_retry_count s < MAX_HANDSHAKE_RETRIES")
  case True
  define g where "g = s\<lparr>rv_handshake_timer := cancel (rv_handshake_timer s),
      rv_handshake_retry_count := rv_handshake_retry_count s + 1\<rparr>"
  have g: "data_ok g" "probe_alive g" "reports_alive g"
    using assms True by (simp_all add: g_def rover_ok_def data_ok_def probe_alive_def reports_alive_def)
  have "\<exists>c. fired_handshake L s = (let t = rv_send_command L c (rv_rover_id g) g
          in t\<lparr>rv_handshake_timer := arm_after HANDSHAKE_TIMEOUT t (rv_handshake_timer t)\<rparr>)"
    using True by (auto simp: fired_handshake_def rv_handle_handshake_timer_def handshaking_def Let_def g_def)
  then obtain c where "fired_handshake L s = (let t = rv_send_command L c (rv_rover_id g) g
          in t\<lparr>rv_handshake_timer := arm_after HANDSHAKE_TIMEOUT t (rv_handshake_timer t)\<rparr>)" ..
  then show ?thesis
    using g by (simp add: Let_def rover_ok_def data_ok_send handshake_alive_def probe_alive_def
        reports_alive_def)
next
  case False
  then have eq: "fired_handshake L s = s\<lparr>rv_handshake_timer := cancel (rv_handshake_timer s)\<rparr>"
    by (auto simp: fired_handshake_def rv_handle_handshake_timer_def handshaking_def
        rv_handle_base_disconnect_def)
  have "handshaking s \<Longrightarrow> rv_handshake_retry_count s = MAX_HANDSHAKE_RETRIES"
    using False assms by (simp add: rover_ok_def data_ok_def)
  then show ?thesis
    using assms unfolding eq rover_ok_def handshake_alive_def probe_alive_def reports_alive_def
    by (simp add: handshaking_def)
qed

lemma rover_ok_fired_probe: "rover_ok s \<Longrightarrow> rover_ok (fired_probe L s)"
  by (auto simp: fired_probe_def rv_handle_probe_timer_def Let_def rover_ok_def alive_defs data_ok_send)

lemma rover_ok_fired_status: "rover_ok s \<Longrightarrow> rover_ok (fired_status L s)"
  by (auto simp: fired_status_def rv_handle_status_timer_def Let_def rover_ok_def alive_defs data_ok_reports)

lemma rover_ok_fired_position: "rover_ok s \<Longrightarrow> rover_ok (fired_position L s)"
  by (auto simp: fired_position_def rv_handle_position_telemetry_timer_def Let_def rover_ok_def alive_defs
      data_ok_reports)

lemma rover_ok_fired_movement: "rover_ok s \<Longrightarrow> rover_ok (fired_movement L s)"
  by (simp add: fired_movement_def rv_handle_movement_timer_def rv_update_current_position_def Let_def
      rover_ok_reports split: option.splits prod.splits sum.splits)

lemma rover_ok_run_task:
  "rover_ok s \<Longrightarrow> rv_posted s = task # tasks \<Longrightarrow> rover_ok (rv_run_task task (s\<lparr>rv_posted := tasks\<rparr>))"
  by (cases task)
    (auto simp: rv_run_task_def rv_handle_packet_timeout_def rv_handle_base_disconnect_def rover_ok_def
      alive_defs Let_def lp_reset_sequence_number_def rm_reset_state_def data_ok_def
      split: sum.splits)

subsection \<open>What can happen to a rover\<close>

text \<open>
  Every event has a cause: the rover is started or stopped, the socket delivers (or fails to), the
  posted handler of a packet timeout runs, the retransmission timer expires, or anything else
  happens (the other timers and posted handlers, the clock, and all other calls of the public
  interface).
\<close>

datatype cause = Start | Stop | Datagram | Timeout | Retransmission | Other

fun task_cause :: "rover_task \<Rightarrow> cause" where
  "task_cause (PacketTimeout ep) = Timeout"
| "task_cause task = Other"

inductive rover_event :: "lib \<Rightarrow> cause \<Rightarrow> rover \<Rightarrow> rover \<Rightarrow> bool" for L where
  receive: "rover_event L Datagram s (rv_receive L r s)"
| retry_receive: "client s = Some c \<Longrightarrow> tm_waiting (cl_retry_timer c) \<Longrightarrow>
    rover_event L Other s (s\<lparr>client := Some (cl_handle_retry c)\<rparr>)"
| retransmission_timer: "tm_waiting (rm_retransmit_timer s) \<Longrightarrow>
    rover_event L Retransmission s (rm_handle_retransmission_timer lp_send_packet rv_on_timeout s)"
| cleanup_timer: "tm_waiting (rm_cleanup_timer s) \<Longrightarrow> rover_event L Other s (rm_handle_cleanup_timer s)"
| handshake_timer: "tm_waiting (rv_handshake_timer s) \<Longrightarrow> rover_event L Other s (fired_handshake L s)"
| probe_timer: "tm_waiting (rv_probe_timer s) \<Longrightarrow> rover_event L Other s (fired_probe L s)"
| status_timer: "tm_waiting (rv_status_timer s) \<Longrightarrow> rover_event L Other s (fired_status L s)"
| position_timer: "tm_waiting (rv_position_telemetry_timer s) \<Longrightarrow> rover_event L Other s (fired_position L s)"
| movement_timer: "tm_waiting (rv_movement_timer s) \<Longrightarrow> rover_event L Other s (fired_movement L s)"
| run_task: "rv_posted s = task # tasks \<Longrightarrow>
    rover_event L (task_cause task) s (rv_run_task task (s\<lparr>rv_posted := tasks\<rparr>))"
| clock: "steady_now s \<le> t \<Longrightarrow> rover_event L Other s (s\<lparr>steady_now := t, system_now := u\<rparr>)"
| send_message: "rover_event L Other s (rv_send_message L m ep s)"
| send_raw_message: "rover_event L Other s (rv_send_raw_message L m ep s)"
| send_command: "rover_event L Other s (rv_send_command L command params s)"
| send_telemetry: "rover_event L Other s (rv_send_telemetry L readings s)"
| send_status: "rover_event L Other s (rv_send_status L s)"
| scan_for_rovers: "rover_event L Other s (rv_scan_for_rovers L port text s)"
| update_status: "rover_event L Other s (rv_update_status level description s)"
| update_position: "rover_event L Other s (rv_update_current_position lat lon s)"
| set_application_message_handler: "rover_event L Other s (rv_set_application_message_handler s)"
| set_discovery_message_handler: "rover_event L Other s (rv_set_discovery_message_handler s)"
| start: "rover_event L Start s (rv_start L s)"
| stop: "rover_event L Stop s (rv_stop s)"

definition rover_step :: "lib \<Rightarrow> rover \<Rightarrow> rover \<Rightarrow> bool" where
  "rover_step L s t \<longleftrightarrow> (\<exists>c. rover_event L c s t)"

lemma rover_stepI: "rover_event L c s t \<Longrightarrow> rover_step L s t"
  by (auto simp: rover_step_def)

text \<open>What can follow when only the given causes are at work, in any number and order.\<close>

definition rover_runs :: "lib \<Rightarrow> cause set \<Rightarrow> rover \<Rightarrow> rover \<Rightarrow> bool" where
  "rover_runs L C = (\<lambda>s t. \<exists>c \<in> C. rover_event L c s t)\<^sup>*\<^sup>*"

lemma rover_runs_preserve:
  assumes "rover_runs L C s t" and "P s"
    and "\<And>c s t. c \<in> C \<Longrightarrow> rover_event L c s t \<Longrightarrow> P s \<Longrightarrow> P t"
  shows "P t"
  using assms(1) unfolding rover_runs_def
  by (induction rule: rtranclp_induct) (use assms(2,3) in auto)

definition rv_inv :: "lib \<Rightarrow> rover \<Rightarrow> bool" where
  "rv_inv L s \<longleftrightarrow> lp_inv L s \<and> rover_ok s"

lemma rv_inv_mode: "rv_inv L s \<Longrightarrow> lp_mode s = MODE_ROVER"
  by (simp add: rv_inv_def rover_ok_def data_ok_def)

lemma rv_inv_client: "rv_inv L t \<Longrightarrow> rv_inv L (t\<lparr>client := Some c\<rparr>)"
  using rv_inv_mode [of L t] by (simp add: rv_inv_def lp_inv_client rover_ok_upper [of t])

lemma rv_inv_has_client: "rv_inv L s \<Longrightarrow> \<exists>c. client s = Some c"
  using rv_inv_mode [of L s] by (auto simp: rv_inv_def lp_inv_def lp_core_def node_ok_def)

lemma rv_inv_client_map: "rv_inv L t \<Longrightarrow> rv_inv L (t\<lparr>client := map_option f (client t)\<rparr>)"
  using rv_inv_has_client [of L t] rv_inv_client [of L t] by auto

lemma rv_inv_receive:
  assumes "rv_inv L s"
  shows "rv_inv L (rv_receive L r s)"
proof -
  let ?h = "lp_handle_udp_data L (mm_handle_lumen_message L (rv_route_message L))"
  have h: "rv_inv L t \<Longrightarrow> rv_inv L (?h d ep t)" for d ep t
    by (simp add: rv_inv_def rover_app.handle_udp_inv rover_session.P_handle_udp_data)
  show ?thesis
    using assms rv_inv_has_client [OF assms]
    by (cases r) (auto simp: rv_receive_def cl_handle_receive_def Let_def
        intro!: rv_inv_client_map h rv_inv_client)
qed

lemma rv_inv_core:
  assumes "rv_inv L s" "lp_core L t" "lp_frame_buffers t = lp_frame_buffers s" "rover_ok t"
  shows "rv_inv L t"
  using assms by (simp add: rv_inv_def lp_inv_def)

lemma rover_ok_running: "rover_ok s \<Longrightarrow> rover_ok (lp_start rv_on_timeout s)"
  by (rule rover_session.P_start) (simp_all add: rover_ok_def data_ok_def alive_defs)

lemma lp_core_mm_fields [simp]:
  "lp_core L (s\<lparr>mm_running := b\<rparr>) = lp_core L s"
  "lp_core L (s\<lparr>mm_message_callback := b\<rparr>) = lp_core L s"
  "lp_core L (lp_set_message_callback s) = lp_core L s"
  "lp_core L (lp_set_timeout_callback s) = lp_core L s"
  by (simp_all add: lp_core_def rm_inv_def node_ok_def lp_set_message_callback_def
      lp_set_timeout_callback_def rm_set_timeout_callback_def cong: ProtocolMode.case_cong)

lemma rover_ok_mm_fields [simp]:
  "rover_ok (s\<lparr>mm_running := b\<rparr>) = rover_ok s"
  "rover_ok (s\<lparr>mm_message_callback := b\<rparr>) = rover_ok s"
  "rover_ok (lp_set_message_callback s) = rover_ok s"
  "rover_ok (lp_set_timeout_callback s) = rover_ok s"
  by (simp_all add: rover_ok_def data_ok_def alive_defs lp_set_message_callback_def
      lp_set_timeout_callback_def rm_set_timeout_callback_def)

lemma lp_callback_buffers [simp]:
  "lp_frame_buffers (lp_set_message_callback s) = lp_frame_buffers s"
  "lp_frame_buffers (lp_set_timeout_callback s) = lp_frame_buffers s"
  by (simp_all add: lp_set_message_callback_def lp_set_timeout_callback_def rm_set_timeout_callback_def)

lemma rv_inv_initiate:
  assumes "rv_inv L s"
  shows "rv_inv L (rv_initiate_handshake L s)"
proof (rule rv_inv_core [OF assms])
  show "lp_core L (rv_initiate_handshake L s)"
    using assms by (simp add: rv_initiate_handshake_def Let_def lp_core_rv_send_command rv_inv_def lp_inv_def)
  show "lp_frame_buffers (rv_initiate_handshake L s) = lp_frame_buffers s"
    by (simp add: rv_initiate_handshake_def Let_def)
  show "rover_ok (rv_initiate_handshake L s)"
    using assms by (simp add: rv_inv_def rover_ok_initiate)
qed

lemma rv_inv_start: "rv_inv L s \<Longrightarrow> rv_inv L (rv_start L s)"
proof -
  assume inv: "rv_inv L s"
  let ?a = "mm_start s"
  let ?b = "lp_set_timeout_callback (lp_start rv_on_timeout ?a)"
  have a: "rv_inv L ?a" using inv by (simp add: mm_start_def rv_inv_def lp_inv_def)
  then have "rv_inv L (lp_start rv_on_timeout ?a)"
    using rover_timeout.start_inv [of L ?a] rover_ok_running [of ?a] by (simp add: rv_inv_def)
  then have "rv_inv L ?b" by (simp add: rv_inv_def lp_inv_def)
  then have "rv_inv L (?b\<lparr>client := map_option cl_start_receive (client ?b)\<rparr>)"
    by (rule rv_inv_client_map)
  then have "rv_inv L (mm_set_message_callback (?b\<lparr>client := map_option cl_start_receive (client ?b)\<rparr>))"
    by (simp add: mm_set_message_callback_def rv_inv_def lp_inv_def)
  then show ?thesis by (simp add: rv_start_def Let_def rv_inv_initiate)
qed

lemma rv_inv_stop: "rv_inv L s \<Longrightarrow> rv_inv L (rv_stop s)"
proof -
  assume inv: "rv_inv L s"
  define a where "a = s\<lparr>rv_status_timer := cancel (rv_status_timer s),
                 rv_handshake_timer := cancel (rv_handshake_timer s),
                 rv_position_telemetry_timer := cancel (rv_position_telemetry_timer s),
                 rv_probe_timer := cancel (rv_probe_timer s),
                 rv_movement_timer := cancel (rv_movement_timer s)\<rparr>"
  define b where "b = a\<lparr>client := map_option cl_stop_receive (client a)\<rparr>"
  have ad: "lp_inv L a" "data_ok a" using inv by (simp_all add: a_def rv_inv_def lp_inv_def rover_ok_def)
  have "lp_mode a = MODE_ROVER" "\<exists>c. client a = Some c"
    using rv_inv_mode [OF inv] rv_inv_has_client [OF inv] by (simp_all add: a_def)
  then have b: "lp_inv L b" "data_ok b"
    using ad lp_inv_client [of L a] by (auto simp: b_def data_ok_def)
  have "lp_inv L (mm_stop (lp_stop b))"
    using lp_inv_stop [OF b(1)] by (simp add: mm_stop_def lp_inv_def)
  moreover have "data_ok (mm_stop (lp_stop b))"
    using b(2) by (simp add: mm_stop_def lp_stop_def rm_stop_def data_ok_def)
  ultimately show ?thesis
    unfolding rv_stop_def Let_def a_def [symmetric] b_def [symmetric] rv_inv_def
    by (simp add: lp_inv_def rover_ok_def data_ok_def alive_defs)
qed

lemma rv_inv_reports:
  assumes "rv_inv L s"
  shows "rv_inv L (rv_send_telemetry L r s)" "rv_inv L (rv_send_status L s)"
    "rv_inv L (rv_send_message L m ep s)" "rv_inv L (rv_send_raw_message L m ep s)"
    "rv_inv L (rv_send_command L c p s)"
  using assms
  by (simp_all add: rv_inv_def lp_inv_def lp_core_rv_reports lp_core_rv_send_command rover_ok_reports
      rover_ok_send)

lemma rv_inv_scan: "rv_inv L s \<Longrightarrow> rv_inv L (rv_scan_for_rovers L port text s)"
  by (simp add: rv_scan_for_rovers_def rv_inv_client split: option.splits sum.splits)

lemma lp_core_fired:
  assumes "lp_core L s"
  shows "lp_core L (fired_handshake L s)" "lp_core L (fired_probe L s)" "lp_core L (fired_status L s)"
    "lp_core L (fired_position L s)"
  using assms
  by (simp_all add: fired_handshake_def rv_handle_handshake_timer_def rv_handle_base_disconnect_def
      fired_probe_def rv_handle_probe_timer_def fired_status_def rv_handle_status_timer_def
      fired_position_def rv_handle_position_telemetry_timer_def Let_def lp_core_rv_send_command
      lp_core_rv_reports)

lemma lp_core_fired_movement: "lp_core L s \<Longrightarrow> lp_core L (fired_movement L s)"
  by (simp add: fired_movement_def rv_handle_movement_timer_def Let_def rv_update_current_position_def
      lp_core_rv_reports split: option.splits prod.splits sum.splits)

lemma fired_buffers [simp]:
  "lp_frame_buffers (fired_handshake L s) = lp_frame_buffers s"
  "lp_frame_buffers (fired_probe L s) = lp_frame_buffers s"
  "lp_frame_buffers (fired_status L s) = lp_frame_buffers s"
  "lp_frame_buffers (fired_position L s) = lp_frame_buffers s"
  "lp_frame_buffers (fired_movement L s) = lp_frame_buffers s"
  by (simp_all add: fired_handshake_def rv_handle_handshake_timer_def rv_handle_base_disconnect_def
      fired_probe_def rv_handle_probe_timer_def fired_status_def rv_handle_status_timer_def
      fired_position_def rv_handle_position_telemetry_timer_def fired_movement_def
      rv_handle_movement_timer_def rv_update_current_position_def Let_def
      split: option.splits prod.splits sum.splits)

lemma rv_inv_fired:
  assumes "rv_inv L s"
  shows "rv_inv L (fired_handshake L s)" "rv_inv L (fired_probe L s)" "rv_inv L (fired_status L s)"
    "rv_inv L (fired_position L s)" "rv_inv L (fired_movement L s)"
  using assms
  by (simp_all add: rv_inv_def lp_inv_def lp_core_fired lp_core_fired_movement rover_ok_fired_handshake
      rover_ok_fired_probe rover_ok_fired_status rover_ok_fired_position rover_ok_fired_movement)

lemma rv_inv_run_task:
  assumes "rv_inv L s" "rv_posted s = task # tasks"
  shows "rv_inv L (rv_run_task task (s\<lparr>rv_posted := tasks\<rparr>))"
proof -
  have "lp_inv L (s\<lparr>rv_posted := tasks\<rparr>)" using assms(1) by (simp add: rv_inv_def lp_inv_def)
  then have "lp_inv L (rv_run_task task (s\<lparr>rv_posted := tasks\<rparr>))"
    by (cases task) (simp_all add: rv_run_task_def rv_handle_packet_timeout_def lp_inv_reset
        rv_handle_base_disconnect_def Let_def, simp_all add: lp_inv_def)
  then show ?thesis using assms by (simp add: rv_inv_def rover_ok_run_task)
qed

lemma rv_inv_event: "rover_event L c s t \<Longrightarrow> rv_inv L s \<Longrightarrow> rv_inv L t"
proof (induction rule: rover_event.induct)
  case (retransmission_timer s)
  then show ?case
    by (simp add: rv_inv_def rover_timeout.retransmission_timer_inv rover_session.P_retransmission_timer)
next
  case (cleanup_timer s)
  then show ?case
    using lp_inv_cleanup_timer [of L s] by (auto simp: rv_inv_def intro: rover_ok_upper)
next
  case (clock s t u)
  then show ?case by (auto simp: rv_inv_def lp_inv_clock rover_ok_def data_ok_def alive_defs)
qed (auto simp: rv_inv_receive rv_inv_client rv_inv_fired rv_inv_run_task rv_inv_reports rv_inv_scan
      rv_inv_start rv_inv_stop rv_update_status_def rv_update_current_position_def
      rv_set_application_message_handler_def rv_set_discovery_message_handler_def,
    auto simp: rv_inv_def lp_inv_def rover_ok_def data_ok_def alive_defs)

lemma rv_inv_step: "rover_step L s t \<Longrightarrow> rv_inv L s \<Longrightarrow> rv_inv L t"
  by (auto simp: rover_step_def intro: rv_inv_event)

lemma rv_inv_init: "Rover L host port rover_id s = Inr t \<Longrightarrow> rv_inv L t"
  by (auto simp: Rover_def MessageManager_def LumenProtocol_rover_def Let_def lp_init_def
      ReliabilityManager_def rm_set_retransmit_callback_def rv_inv_def lp_inv_def lp_core_def node_ok_def
      rm_inv_def sent_ok_def rover_ok_def data_ok_def alive_defs MAX_HANDSHAKE_RETRIES_def
      split: sum.splits prod.splits)

inductive rover_run :: "lib \<Rightarrow> rover \<Rightarrow> bool" for L where
  created: "Rover L host port rover_id s = Inr t \<Longrightarrow> rover_run L t"
| step: "rover_run L s \<Longrightarrow> rover_step L s t \<Longrightarrow> rover_run L t"

lemma rover_run_inv: "rover_run L s \<Longrightarrow> rv_inv L s"
  by (induction rule: rover_run.induct) (auto intro: rv_inv_init rv_inv_step)

end
