(* ===== verification/Rover_Behaviour.thy ===== *)
theory Rover_Behaviour
  imports Rover_Session
begin

text \<open>
  What a started rover does: the reachable-state theorem over the step relation of
  \<open>Rover_Session\<close>, the handshake and its timer, store-and-forward over a disconnection, and the
  authority of the base station over session commands.
\<close>

subsection \<open>A started rover\<close>

text \<open>Every layer is started and the base station's endpoint is registered and can be reached.\<close>

definition rv_up :: "endpoint \<Rightarrow> 'a rover_scheme \<Rightarrow> bool" where
  "rv_up base s \<longleftrightarrow> lp_mode s = MODE_ROVER \<and> mm_running s \<and> lp_running s \<and> rm_running s \<and>
     client_base_endpoint s = Inr base \<and> can_reach s base"

lemma rv_up_specified: "rv_up base s \<Longrightarrow> \<not> is_unspecified base"
  by (auto simp: rv_up_def intro: client_base_specified dest: client_base_specified)

lemma client_base_endpoint_cong: "client s = client t \<Longrightarrow> client_base_endpoint s = client_base_endpoint t"
  by (simp add: client_base_endpoint_def)

lemma client_base_endpoint_send [simp]:
  "client_base_endpoint (rm_add_send_packet q p ep s) = client_base_endpoint s"
  "client_base_endpoint (state_of (lp_send_message pl ty pr ep s)) = client_base_endpoint s"
  "client_base_endpoint (mm_send_message L m ep s) = client_base_endpoint s"
proof -
  show add: "client_base_endpoint (rm_add_send_packet q p ep s) = client_base_endpoint s" for q p ep s
    by (rule client_base_endpoint_cong) (simp add: rm_add_send_packet_def)
  show send: "client_base_endpoint (state_of (lp_send_message pl ty pr ep s)) = client_base_endpoint s" for pl ty pr ep s
    by (simp add: lp_send_message_def Let_def add split: ProtocolMode.splits sum.splits)
  show "client_base_endpoint (mm_send_message L m ep s) = client_base_endpoint s"
    by (simp add: mm_send_message_def send split: sum.splits)
qed

lemma outbox_rv [simp]:
  "outbox (s\<lparr>rv_session_state := x0\<rparr>) = outbox s"
  "outbox (s\<lparr>rv_rover_id := x1\<rparr>) = outbox s"
  "outbox (s\<lparr>rv_current_status_level := x2\<rparr>) = outbox s"
  "outbox (s\<lparr>rv_current_status_description := x3\<rparr>) = outbox s"
  "outbox (s\<lparr>rv_handshake_retry_count := x4\<rparr>) = outbox s"
  "outbox (s\<lparr>rv_discovered_rovers := x5\<rparr>) = outbox s"
  "outbox (s\<lparr>rv_low_power_mode := x6\<rparr>) = outbox s"
  "outbox (s\<lparr>rv_target_coordinate := x7\<rparr>) = outbox s"
  "outbox (s\<lparr>rv_current_coordinate := x8\<rparr>) = outbox s"
  "outbox (s\<lparr>rv_stored_packets := x9\<rparr>) = outbox s"
  "outbox (s\<lparr>rv_status_timer := x10\<rparr>) = outbox s"
  "outbox (s\<lparr>rv_handshake_timer := x11\<rparr>) = outbox s"
  "outbox (s\<lparr>rv_position_telemetry_timer := x12\<rparr>) = outbox s"
  "outbox (s\<lparr>rv_probe_timer := x13\<rparr>) = outbox s"
  "outbox (s\<lparr>rv_movement_timer := x14\<rparr>) = outbox s"
  "outbox (s\<lparr>rv_application_message_handler := x15\<rparr>) = outbox s"
  "outbox (s\<lparr>rv_discovery_message_handler := x16\<rparr>) = outbox s"
  "outbox (s\<lparr>rv_posted := x17\<rparr>) = outbox s"
  "outbox (s\<lparr>system_now := u\<rparr>) = outbox s"
  "outbox (s\<lparr>steady_now := u\<rparr>) = outbox s"
  by (rule outbox_cong; simp)+

lemma rv_up_rv [simp]:
  "rv_up base (s\<lparr>rv_session_state := x0\<rparr>) = rv_up base s"
  "rv_up base (s\<lparr>rv_rover_id := x1\<rparr>) = rv_up base s"
  "rv_up base (s\<lparr>rv_current_status_level := x2\<rparr>) = rv_up base s"
  "rv_up base (s\<lparr>rv_current_status_description := x3\<rparr>) = rv_up base s"
  "rv_up base (s\<lparr>rv_handshake_retry_count := x4\<rparr>) = rv_up base s"
  "rv_up base (s\<lparr>rv_discovered_rovers := x5\<rparr>) = rv_up base s"
  "rv_up base (s\<lparr>rv_low_power_mode := x6\<rparr>) = rv_up base s"
  "rv_up base (s\<lparr>rv_target_coordinate := x7\<rparr>) = rv_up base s"
  "rv_up base (s\<lparr>rv_current_coordinate := x8\<rparr>) = rv_up base s"
  "rv_up base (s\<lparr>rv_stored_packets := x9\<rparr>) = rv_up base s"
  "rv_up base (s\<lparr>rv_status_timer := x10\<rparr>) = rv_up base s"
  "rv_up base (s\<lparr>rv_handshake_timer := x11\<rparr>) = rv_up base s"
  "rv_up base (s\<lparr>rv_position_telemetry_timer := x12\<rparr>) = rv_up base s"
  "rv_up base (s\<lparr>rv_probe_timer := x13\<rparr>) = rv_up base s"
  "rv_up base (s\<lparr>rv_movement_timer := x14\<rparr>) = rv_up base s"
  "rv_up base (s\<lparr>rv_application_message_handler := x15\<rparr>) = rv_up base s"
  "rv_up base (s\<lparr>rv_discovery_message_handler := x16\<rparr>) = rv_up base s"
  "rv_up base (s\<lparr>rv_posted := x17\<rparr>) = rv_up base s"
  "rv_up base (s\<lparr>system_now := u\<rparr>) = rv_up base s"
  "rv_up base (s\<lparr>steady_now := u\<rparr>) = rv_up base s"
  by (simp_all add: rv_up_def can_reach_def node_ok_def client_base_endpoint_def
      cong: ProtocolMode.case_cong option.case_cong)

lemma rv_up_send [simp]: "rv_up base (mm_send_message L m ep s) = rv_up base s"
  by (simp add: rv_up_def)

lemma rv_up_send_command [simp]: "rv_up base (rv_send_command L c p s) = rv_up base s"
  by (simp add: rv_send_command_def Let_def split: sum.splits)

lemma rv_send_command_eq:
  assumes "rv_up base s" and "rv_session_state s \<noteq> R_DISCONNECTED \<or> command = ''SESSION_INIT''"
  shows "rv_send_command L command params s =
    mm_send_message L (CommandMessage command params (rv_rover_id s) (system_now s)) base s"
  using assms by (auto simp: rv_send_command_def Let_def rv_get_base_endpoint_def rv_up_def)

lemma rv_send_command_out:
  assumes "rv_up base s" and "rv_session_state s \<noteq> R_DISCONNECTED \<or> command = ''SESSION_INIT''"
    and "serialise L (CommandMessage command params (rv_rover_id s) (system_now s)) = Inr json"
  shows "outbox (rv_send_command L command params s) = outbox s @ [command_datagram json base s]"
    and "lp_current_sequence (rv_send_command L command params s) = lp_current_sequence s + 1"
  using assms rv_up_specified [OF assms(1)]
  by (simp_all add: rv_send_command_eq [OF assms(1,2)] mm_send_message_out mm_send_message_seq
      command_datagram_def rv_up_def)

subsection \<open>The handshake timer\<close>

lemma fired_handshake_retry:
  assumes "rv_up base s" and "rv_session_state s = R_HANDSHAKE_INIT"
    and "rv_handshake_retry_count s < MAX_HANDSHAKE_RETRIES"
    and "serialise L (CommandMessage ''SESSION_INIT'' (rv_rover_id s) (rv_rover_id s) (system_now s)) = Inr json"
    and s': "s' = fired_handshake L s"
  shows "rv_up base s'" "rv_session_state s' = R_HANDSHAKE_INIT" "rv_rover_id s' = rv_rover_id s"
    "rv_handshake_retry_count s' = rv_handshake_retry_count s + 1" "tm_waiting (rv_handshake_timer s')"
    "outbox s' = outbox s @ [command_datagram json base s]" "rv_probe_timer s' = rv_probe_timer s"
    "rv_posted s' = rv_posted s"
proof -
  let ?t = "s\<lparr>rv_handshake_timer := cancel (rv_handshake_timer s),
              rv_handshake_retry_count := rv_handshake_retry_count s + 1\<rparr>"
  have eq: "s' = (rv_send_command L ''SESSION_INIT'' (rv_rover_id s) ?t)
      \<lparr>rv_handshake_timer := arm_after HANDSHAKE_TIMEOUT s
         (cancel (rv_handshake_timer s))\<rparr>"
    using assms by (simp add: fired_handshake_def rv_handle_handshake_timer_def Let_def arm_after_def)
  show "rv_up base s'" "rv_session_state s' = R_HANDSHAKE_INIT" "rv_rover_id s' = rv_rover_id s"
    "rv_handshake_retry_count s' = rv_handshake_retry_count s + 1" "tm_waiting (rv_handshake_timer s')"
    "rv_probe_timer s' = rv_probe_timer s" "rv_posted s' = rv_posted s"
    using assms(1,2) by (simp_all add: eq arm_after_def async_wait_def)
  have "outbox s' = outbox ?t @ [command_datagram json base ?t]"
    using rv_send_command_out(1) [where s = ?t and L = L and command = "''SESSION_INIT''"
        and params = "rv_rover_id s" and json = json and base = base] assms(1,2,4) by (simp add: eq)
  moreover have "command_datagram json base ?t = command_datagram json base s"
    by (rule command_datagram_cong) simp_all
  ultimately show "outbox s' = outbox s @ [command_datagram json base s]" by simp
qed

text \<open>One more expiry when the retries are used up changes nothing but the timer.\<close>

lemma fired_handshake_exhausted:
  assumes "handshaking s" and "\<not> rv_handshake_retry_count s < MAX_HANDSHAKE_RETRIES"
  shows "fired_handshake L s = s\<lparr>rv_handshake_timer := cancel (rv_handshake_timer s)\<rparr>"
  using assms
  by (auto simp: fired_handshake_def rv_handle_handshake_timer_def rv_handle_base_disconnect_def handshaking_def)

lemma rv_initiate_handshake_out:
  assumes "rv_up base s" and "rv_session_state s = R_INACTIVE \<or> rv_session_state s = R_DISCONNECTED"
    and "serialise L (CommandMessage ''SESSION_INIT'' (rv_rover_id s) (rv_rover_id s) (system_now s)) = Inr json"
    and s': "s' = rv_initiate_handshake L s"
  shows "rv_up base s'" "rv_session_state s' = R_HANDSHAKE_INIT" "rv_rover_id s' = rv_rover_id s"
    "rv_handshake_retry_count s' = 0" "tm_waiting (rv_handshake_timer s')"
    "outbox s' = outbox s @ [command_datagram json base s]" "rv_posted s' = rv_posted s"
    "tm_waiting (rv_probe_timer s') \<longleftrightarrow> rv_session_state s = R_INACTIVE \<and> tm_waiting (rv_probe_timer s)"
    "lp_current_sequence s' = lp_current_sequence s + 1"
proof -
  define t where "t = (if rv_session_state s = R_DISCONNECTED
      then s\<lparr>rv_probe_timer := cancel (rv_probe_timer s)\<rparr> else s)
      \<lparr>rv_session_state := R_HANDSHAKE_INIT, rv_handshake_retry_count := 0\<rparr>"
  have eq: "s' = (rv_send_command L ''SESSION_INIT'' (rv_rover_id t) t)
      \<lparr>rv_handshake_timer := arm_after HANDSHAKE_TIMEOUT t (rv_handshake_timer t)\<rparr>"
    using assms(2) by (auto simp: s' rv_initiate_handshake_def Let_def t_def arm_after_def)
  have t: "rv_up base t" "rv_session_state t = R_HANDSHAKE_INIT" "rv_rover_id t = rv_rover_id s"
    "system_now t = system_now s" "outbox t = outbox s" "lp_current_sequence t = lp_current_sequence s"
    using assms(1) by (simp_all add: t_def)
  note out = rv_send_command_out [OF t(1), where L = L and command = "''SESSION_INIT''"
      and params = "rv_rover_id t" and json = json]
  show "outbox s' = outbox s @ [command_datagram json base s]"
    using out(1) t assms(3) by (simp add: eq command_datagram_cong [of t s])
  show "lp_current_sequence s' = lp_current_sequence s + 1"
    using out(2) t assms(3) by (simp add: eq)
  show "rv_up base s'" "rv_session_state s' = R_HANDSHAKE_INIT" "rv_rover_id s' = rv_rover_id s"
    "tm_waiting (rv_handshake_timer s')"
    using t by (simp_all add: eq arm_after_def async_wait_def)
  show "rv_handshake_retry_count s' = 0" "rv_posted s' = rv_posted s"
    "tm_waiting (rv_probe_timer s') \<longleftrightarrow> rv_session_state s = R_INACTIVE \<and> tm_waiting (rv_probe_timer s)"
    using assms(2) by (auto simp: eq t_def cancel_def)
qed

subsection \<open>A concrete rover\<close>

definition blank_rover :: rover where
  "blank_rover =
     \<lparr>steady_now = 0, system_now = 0, server = None, client = None, rm_sent_packets = [],
      rm_acked_sequences = Map.empty, rm_received_sequences = Map.empty, rm_recent_naks = [],
      rm_retransmit_timer = new_timer, rm_cleanup_timer = new_timer, rm_retransmit_callback = False,
      rm_timeout_callback = False, rm_running = False, rm_role = ROVER,
      rm_last_ack_cleanup_time = 0, rm_consecutive_timeouts_to_base = 0,
      lp_mode = MODE_ROVER, lp_frame_buffers = Map.empty, lp_endpoint_map = Map.empty,
      lp_current_sequence = 0, lp_message_callback = False, lp_running = False,
      lp_session_active = False, lp_check_counter = 0, mm_sender_id = [], mm_message_callback = False,
      mm_running = False, rv_session_state = R_INACTIVE, rv_rover_id = [],
      rv_current_status_level = OK, rv_current_status_description = [], rv_handshake_retry_count = 0,
      rv_discovered_rovers = [], rv_low_power_mode = False, rv_target_coordinate = None,
      rv_current_coordinate = (0, 0), rv_stored_packets = [], rv_status_timer = new_timer,
      rv_handshake_timer = new_timer, rv_position_telemetry_timer = new_timer,
      rv_probe_timer = new_timer, rv_movement_timer = new_timer,
      rv_application_message_handler = False, rv_discovery_message_handler = False, rv_posted = []\<rparr>"

definition rover_lib :: lib where
  "rover_lib = (sample_lib (\<lambda>_. None) (\<lambda>_. Some ''{}''))\<lparr>resolve := (\<lambda>_ _. Some [sample_ep])\<rparr>"

definition new_rover :: rover where
  "new_rover = state_of (Rover rover_lib ''base'' 9000 ''r1'' blank_rover)"

definition sample_rover :: rover where
  "sample_rover = rv_start rover_lib new_rover"

lemma serialise_rover_lib: "serialise rover_lib m = Inr ''{}''"
  by (simp add: serialise_def rover_lib_def sample_lib_def)

lemma Rover_new: "Rover rover_lib ''base'' 9000 ''r1'' blank_rover = Inr new_rover"
  by (simp add: new_rover_def Rover_def cl_register_base_def rover_lib_def)

lemma sample_rover_run: "rover_run rover_lib sample_rover"
  unfolding sample_rover_def by (rule rover_run.step [OF rover_run.created [OF Rover_new] rover_stepI [OF rover_event.start]])

text \<open>The started rover before it initiates the handshake.\<close>

definition idle_rover :: rover where
  "idle_rover =
     (let s1 = lp_start rv_on_timeout (mm_start new_rover);
          s2 = lp_set_timeout_callback s1;
          s3 = s2\<lparr>client := map_option cl_start_receive (client s2)\<rparr>
      in mm_set_message_callback s3)"

lemma sample_rover_eq: "sample_rover = rv_initiate_handshake rover_lib idle_rover"
  by (simp add: sample_rover_def rv_start_def idle_rover_def Let_def)

lemmas idle_rover_defs =
  idle_rover_def new_rover_def Rover_def Let_def cl_register_base_def rover_lib_def blank_rover_def
  MessageManager_def LumenProtocol_rover_def lp_init_def ReliabilityManager_def
  rm_set_retransmit_callback_def mm_start_def lp_set_message_callback_def lp_start_def rm_start_def
  rm_handle_retransmission_timer_def rm_handle_cleanup_timer_def rm_cleanup_old_entries_def
  rm_get_packets_to_retransmit_def lp_set_timeout_callback_def rm_set_timeout_callback_def
  mm_set_message_callback_def cl_start_receive_def cl_do_receive_def cl_set_receive_callback_def UdpClient_def

lemma idle_rover_simps [simp]:
  "rv_session_state idle_rover = R_INACTIVE" "rv_rover_id idle_rover = ''r1''" "mm_running idle_rover"
  "lp_running idle_rover" "rm_running idle_rover" "lp_mode idle_rover = MODE_ROVER"
  "lp_frame_buffers idle_rover = Map.empty" "rv_posted idle_rover = []" "rv_stored_packets idle_rover = []"
  "rv_low_power_mode idle_rover = False" "lp_message_callback idle_rover" "mm_message_callback idle_rover"
  "lp_current_sequence idle_rover = 0" "rv_current_coordinate idle_rover = (0, 0)"
  by (simp_all add: idle_rover_defs)

lemma idle_rover_up [simp]: "rv_up sample_ep idle_rover"
proof -
  have "client_base_endpoint idle_rover = Inr sample_ep"
    by (simp add: client_base_endpoint_def)
      (simp add: idle_rover_defs sample_ep_def is_unspecified_def cl_get_base_endpoint_def)
  moreover have "node_ok idle_rover" by (simp add: node_ok_def) (simp add: idle_rover_defs)
  ultimately show ?thesis
    by (simp add: rv_up_def can_reach_def valid_recipient_def sample_ep_def is_unspecified_def)
qed

subsection \<open>Properties of the rover\<close>

text \<open>C5: in every state a rover can reach, whatever datagrams, timers, posted handlers and calls occur in
  whatever order: a handshake in progress has its timer armed or about to be armed until all
  retries are used, a disconnected rover has a probe of the base station pending, a rover that
  is active or disconnected has its status and position reports scheduled, the retry counter stays
  within its bounds, the rover never lists itself among the discovered rovers, no frame buffer
  exceeds its limit, and every packet waiting for an acknowledgement is stored under its own
  number, was retransmitted at most \<open>RELIABILITY_MAX_RETRIES\<close> times and has a recipient.\<close>

theorem rover_invariant:
  assumes "rover_run L s"
  shows "(rv_session_state s = R_HANDSHAKE_INIT \<or> rv_session_state s = R_HANDSHAKE_ACCEPT \<longrightarrow>
       tm_waiting (rv_handshake_timer s) \<or> RearmHandshake \<in> set (rv_posted s)
       \<or> rv_handshake_retry_count s = MAX_HANDSHAKE_RETRIES)
    \<and> (rv_session_state s = R_DISCONNECTED \<longrightarrow>
         tm_waiting (rv_probe_timer s) \<or> StartProbe \<in> set (rv_posted s))
    \<and> (rv_session_state s = R_ACTIVE \<or> rv_session_state s = R_DISCONNECTED \<longrightarrow>
         tm_waiting (rv_status_timer s) \<and> tm_waiting (rv_position_telemetry_timer s))
    \<and> 0 \<le> rv_handshake_retry_count s \<and> rv_handshake_retry_count s \<le> MAX_HANDSHAKE_RETRIES
    \<and> map_of (rv_discovered_rovers s) (rv_rover_id s) = None
    \<and> (\<forall>k b. lp_frame_buffers s k = Some b \<longrightarrow> length b \<le> MAX_FRAME_BUFFER_SIZE)
    \<and> (\<forall>seq info. map_of (rm_sent_packets s) seq = Some info \<longrightarrow>
         hdr_sequence (pkt_header (sp_packet info)) = seq
         \<and> sp_retry_count info \<le> RELIABILITY_MAX_RETRIES \<and> \<not> is_unspecified (sp_recipient info))"
proof -
  have inv: "rv_inv L s" using assms by (rule rover_run_inv)
  have sent: "hdr_sequence (pkt_header (sp_packet info)) = seq
         \<and> sp_retry_count info \<le> RELIABILITY_MAX_RETRIES \<and> \<not> is_unspecified (sp_recipient info)"
    if "map_of (rm_sent_packets s) seq = Some info" for seq info
    using inv map_of_SomeD [OF that]
    by (fastforce simp: rv_inv_def lp_inv_def lp_core_def sent_ok_def rm_inv_def)
  have "map_of (rv_discovered_rovers s) (rv_rover_id s) = None"
    using inv by (auto simp: rv_inv_def rover_ok_def data_ok_def map_of_eq_None_iff)
  then show ?thesis
    using inv sent by (auto simp: rv_inv_def lp_inv_def rover_ok_def data_ok_def alive_defs)
qed

theorem rover_invariant_witness:
  "tm_waiting (rv_handshake_timer sample_rover) \<or> RearmHandshake \<in> set (rv_posted sample_rover)
     \<or> rv_handshake_retry_count sample_rover = MAX_HANDSHAKE_RETRIES"
proof -
  have "rv_session_state sample_rover = R_HANDSHAKE_INIT"
    by (simp add: sample_rover_eq rv_initiate_handshake_def Let_def)
  then show ?thesis using rover_invariant [OF sample_rover_run] by blast
qed

subsection \<open>Store and forward\<close>

text \<open>The datagrams that carry a list of stored messages, under consecutive sequence numbers.\<close>

fun stored_datagrams :: "u8 \<Rightarrow> 'a lumen_protocol_scheme \<Rightarrow> stored_packet list \<Rightarrow> datagram list" where
  "stored_datagrams seq s [] = []"
| "stored_datagrams seq s ((payload, type, priority, ep) # ps) =
     (packet_to_bytes (message_packet payload type priority (s\<lparr>lp_current_sequence := seq\<rparr>)), ep)
     # stored_datagrams (seq + 1) s ps"

lemma message_packet_cong:
  "lp_current_sequence t = lp_current_sequence s \<Longrightarrow> system_now t = system_now s \<Longrightarrow>
   message_packet payload type priority t = message_packet payload type priority s"
  by (simp add: message_packet_def generate_timestamp_def)

lemma stored_datagrams_cong: "system_now t = system_now s \<Longrightarrow> stored_datagrams seq t ps = stored_datagrams seq s ps"
proof (induction ps arbitrary: seq)
  case (Cons p ps)
  obtain payload type priority ep where p: "p = (payload, type, priority, ep)" by (cases p)
  have "message_packet payload type priority (t\<lparr>lp_current_sequence := seq\<rparr>)
      = message_packet payload type priority (s\<lparr>lp_current_sequence := seq\<rparr>)"
    using Cons.prems by (intro message_packet_cong) simp_all
  then show ?case using Cons by (simp add: p)
qed simp

definition stored_ok :: "stored_packet \<Rightarrow> bool" where
  "stored_ok p \<longleftrightarrow> (case p of (payload, type, priority, ep) \<Rightarrow> valid_recipient ep)"

lemma rv_up_reach: "rv_up base s \<Longrightarrow> valid_recipient ep \<Longrightarrow> can_reach s ep"
  by (simp add: rv_up_def can_reach_def)

lemma rv_up_send_message [simp]: "rv_up base (state_of (lp_send_message pl ty pr ep s)) = rv_up base s"
proof -
  have "mm_running (rm_add_send_packet q p e t) = mm_running t" for q p e and t :: "'a rover_scheme"
    by (simp add: rm_add_send_packet_def)
  then have "mm_running (state_of (lp_send_message pl ty pr ep s)) = mm_running s"
    "can_reach (state_of (lp_send_message pl ty pr ep s)) base = can_reach s base"
    by (simp_all add: lp_send_message_def Let_def split: ProtocolMode.splits sum.splits)
  then show ?thesis by (simp add: rv_up_def)
qed

lemma lp_send_message_to_out:
  assumes "lp_running s" "can_reach s ep" "\<not> is_unspecified ep"
  shows "outbox (state_of (lp_send_message pl ty pr ep s)) = outbox s @ [(packet_to_bytes (message_packet pl ty pr s), ep)]"
    and "lp_current_sequence (state_of (lp_send_message pl ty pr ep s)) = lp_current_sequence s + 1"
    and "system_now (state_of (lp_send_message pl ty pr ep s)) = system_now s"
  using assms by (simp_all add: lp_send_message_to lp_send_packet_reach)

lemma send_loop_out:
  assumes "rv_up base s" and "\<forall>p \<in> set ps. stored_ok p"
    and "s' = foldl (\<lambda>s (payload, type, priority, recipient).
              let s1 = state_of (lp_send_message payload type priority recipient s)
              in s1\<lparr>rv_stored_packets := tl (rv_stored_packets s1)\<rparr>) s ps"
  shows "outbox s' = outbox s @ stored_datagrams (lp_current_sequence s) s ps
    \<and> rv_stored_packets s' = drop (length ps) (rv_stored_packets s)
    \<and> lp_current_sequence s' = lp_current_sequence s + word_of_nat (length ps)
    \<and> rv_up base s' \<and> system_now s' = system_now s \<and> steady_now s' = steady_now s
    \<and> rv_session_state s' = rv_session_state s \<and> rv_rover_id s' = rv_rover_id s
    \<and> rv_low_power_mode s' = rv_low_power_mode s
    \<and> rv_current_status_level s' = rv_current_status_level s
    \<and> rv_current_status_description s' = rv_current_status_description s
    \<and> rv_current_coordinate s' = rv_current_coordinate s \<and> rv_posted s' = rv_posted s"
  using assms
proof (induction ps arbitrary: s)
  case (Cons p ps)
  obtain payload type priority ep where p: "p = (payload, type, priority, ep)" by (cases p)
  let ?m = "state_of (lp_send_message payload type priority ep s)"
  let ?s1 = "?m\<lparr>rv_stored_packets := tl (rv_stored_packets s)\<rparr>"
  have ep: "valid_recipient ep" "\<not> is_unspecified ep"
    using Cons.prems(2) by (simp_all add: p stored_ok_def valid_recipient_def)
  note out = lp_send_message_to_out [where s = s and pl = payload and ty = type and pr = priority and ep = ep]
  have m: "outbox ?m = outbox s @ [(packet_to_bytes (message_packet payload type priority s), ep)]"
    "lp_current_sequence ?m = lp_current_sequence s + 1" "system_now ?m = system_now s"
    "steady_now ?m = steady_now s"
    using out Cons.prems(1) ep rv_up_reach [OF Cons.prems(1) ep(1)]
    by (auto simp: rv_up_def lp_send_message_to)
  have pk: "message_packet payload type priority (s\<lparr>lp_current_sequence := lp_current_sequence s\<rparr>)
      = message_packet payload type priority s" by (rule message_packet_cong) simp_all
  have dg: "stored_datagrams q ?s1 ps = stored_datagrams q s ps" for q
    by (rule stored_datagrams_cong) (simp add: m)
  have up: "rv_up base ?s1" using Cons.prems(1) by simp
  have rest: "\<forall>p \<in> set ps. stored_ok p" using Cons.prems(2) by simp
  show ?case
    using Cons.IH [OF up rest] Cons.prems(3) pk dg
    by (simp add: p m drop_Suc drop_tl Let_def add.assoc)
qed simp

lemma send_stored_out:
  assumes "rv_up base s" and "\<forall>p \<in> set (rv_stored_packets s). stored_ok p"
    and "s' = rv_send_stored_packets s"
  shows "outbox s' = outbox s @ stored_datagrams (lp_current_sequence s) s (rv_stored_packets s)"
    "rv_stored_packets s' = []"
    "lp_current_sequence s' = lp_current_sequence s + word_of_nat (length (rv_stored_packets s))"
    "rv_up base s'" "system_now s' = system_now s" "rv_session_state s' = rv_session_state s"
    "rv_rover_id s' = rv_rover_id s" "rv_low_power_mode s' = rv_low_power_mode s"
    "rv_current_status_level s' = rv_current_status_level s"
    "rv_current_status_description s' = rv_current_status_description s"
    "rv_current_coordinate s' = rv_current_coordinate s"
  using send_loop_out [OF assms(1,2), of s'] assms(3) by (simp_all add: rv_send_stored_packets_def)

text \<open>The datagram of a message under a given sequence number.\<close>

definition message_datagram :: "string \<Rightarrow> message \<Rightarrow> endpoint \<Rightarrow> u8 \<Rightarrow> 'a lumen_protocol_scheme \<Rightarrow> datagram" where
  "message_datagram json m ep seq s =
     (packet_to_bytes (message_packet (string_to_binary json) (get_lumen_type m) (get_lumen_priority m)
        (s\<lparr>lp_current_sequence := seq\<rparr>)), ep)"

lemma message_datagram_cong:
  "system_now t = system_now s \<Longrightarrow> message_datagram json m ep seq t = message_datagram json m ep seq s"
  by (simp add: message_datagram_def message_packet_def generate_timestamp_def)

lemma mm_send_datagram:
  assumes "rv_up base s" "serialise L m = Inr json"
  shows "outbox (mm_send_message L m base s) = outbox s @ [message_datagram json m base (lp_current_sequence s) s]"
    and "lp_current_sequence (mm_send_message L m base s) = lp_current_sequence s + 1"
proof -
  have "message_packet (string_to_binary json) (get_lumen_type m) (get_lumen_priority m)
      (s\<lparr>lp_current_sequence := lp_current_sequence s\<rparr>)
    = message_packet (string_to_binary json) (get_lumen_type m) (get_lumen_priority m) s"
    by (rule message_packet_cong) simp_all
  then show "outbox (mm_send_message L m base s)
      = outbox s @ [message_datagram json m base (lp_current_sequence s) s]"
    "lp_current_sequence (mm_send_message L m base s) = lp_current_sequence s + 1"
    using assms rv_up_specified [OF assms(1)]
    by (simp_all add: mm_send_message_out mm_send_message_seq message_datagram_def rv_up_def)
qed

definition status_report :: "'a rover_scheme \<Rightarrow> message" where
  "status_report s = StatusMessage (rv_current_status_level s) (rv_current_status_description s)
     (rv_rover_id s) (system_now s)"

definition position_report :: "'a rover_scheme \<Rightarrow> message" where
  "position_report s = TelemetryMessage
     (smap_assign ''longitude'' (snd (rv_current_coordinate s))
        (smap_assign ''latitude'' (fst (rv_current_coordinate s)) [])) (rv_rover_id s) (system_now s)"

lemma reports_stored [simp]:
  "status_report (s\<lparr>rv_stored_packets := x\<rparr>) = status_report s"
  "position_report (s\<lparr>rv_stored_packets := x\<rparr>) = position_report s"
  by (simp_all add: status_report_def position_report_def)

lemma session_established_out:
  assumes up: "rv_up base s" and st: "rv_session_state s \<noteq> R_ACTIVE" and lp: "\<not> rv_low_power_mode s"
    and stored: "\<forall>p \<in> set (rv_stored_packets s). stored_ok p"
    and status: "serialise L (status_report s) = Inr js"
    and pos: "serialise L (position_report s) = Inr jp"
    and s': "s' = rv_handle_session_established L s"
  shows "rv_session_state s' = R_ACTIVE \<and> rv_stored_packets s' = [] \<and> rv_up base s'
    \<and> tm_waiting (rv_status_timer s') \<and> tm_waiting (rv_position_telemetry_timer s')
    \<and> outbox s' = outbox s @ stored_datagrams (lp_current_sequence s) s (rv_stored_packets s) @
        (let seq = lp_current_sequence s + word_of_nat (length (rv_stored_packets s))
         in [message_datagram js (status_report s) base seq s,
             message_datagram jp (position_report s) base (seq + 1) s])"
proof -
  define s1 where "s1 = s\<lparr>rv_session_state := R_ACTIVE, rv_handshake_retry_count := 0,
    rv_handshake_timer := cancel (rv_handshake_timer s), rv_probe_timer := cancel (rv_probe_timer s)\<rparr>"
  define s2 where "s2 = rv_send_stored_packets s1"
  have s1: "rv_up base s1" "\<forall>p \<in> set (rv_stored_packets s1). stored_ok p"
    using up stored by (simp_all add: s1_def)
  note s2 = send_stored_out [OF s1 s2_def]
  have reports: "status_report s2 = status_report s" "position_report s2 = position_report s"
    "system_now s2 = system_now s" "outbox s1 = outbox s" "system_now s1 = system_now s"
    "lp_current_sequence s1 = lp_current_sequence s" "rv_stored_packets s1 = rv_stored_packets s"
    "\<not> rv_low_power_mode s2" "rv_session_state s2 = R_ACTIVE"
    using s2 lp by (simp_all add: status_report_def position_report_def s1_def)
  let ?m = "mm_send_message L (status_report s2) base s2"
  define s3 where "s3 = ?m\<lparr>rv_status_timer := arm_after STATUS_INTERVAL ?m (rv_status_timer ?m)\<rparr>"
  have h3: "rv_handle_status_timer L s2 = s3"
    using s2(4) reports
    by (simp add: rv_handle_status_timer_def rv_send_status_def Let_def rv_get_base_endpoint_def
        rv_is_low_power_mode_def status_report_def rv_up_def s3_def)
  let ?n = "mm_send_message L (position_report s3) base s3"
  have pr: "position_report s3 = position_report s" "rv_up base s3" "rv_session_state s3 = R_ACTIVE"
    "\<not> rv_low_power_mode s3" "system_now s3 = system_now s"
    using s2(4) reports by (simp_all add: s3_def position_report_def)
  have "rv_handle_position_telemetry_timer L s3
      = ?n\<lparr>rv_position_telemetry_timer := arm_after POSITION_TELEMETRY_INTERVAL ?n (rv_position_telemetry_timer ?n)\<rparr>"
    using pr by (simp add: rv_handle_position_telemetry_timer_def rv_send_telemetry_def Let_def
        rv_get_base_endpoint_def rv_is_low_power_mode_def position_report_def rv_up_def)
  then have eq: "s' = ?n\<lparr>rv_position_telemetry_timer :=
      arm_after POSITION_TELEMETRY_INTERVAL ?n (rv_position_telemetry_timer ?n)\<rparr>"
    using st by (simp add: s' rv_handle_session_established_def Let_def h3 flip: s1_def s2_def)
  have dg: "stored_datagrams q s1 ps = stored_datagrams q s ps"
    "message_datagram j m base q s2 = message_datagram j m base q s"
    "message_datagram j m base q s3 = message_datagram j m base q s" for q ps j m
    using reports pr by (simp_all add: stored_datagrams_cong [of s1 s] message_datagram_cong [of s2 s]
        message_datagram_cong [of s3 s])
  have o3: "outbox s3 = outbox s2 @ [message_datagram js (status_report s) base (lp_current_sequence s2) s]"
    "lp_current_sequence s3 = lp_current_sequence s2 + 1"
    using mm_send_datagram [OF s2(4), of L "status_report s2" js] status reports dg
    by (simp_all add: s3_def)
  have "outbox s' = outbox s3 @ [message_datagram jp (position_report s) base (lp_current_sequence s3) s]"
    using mm_send_datagram(1) [OF pr(2), of L "position_report s3" jp] pos pr dg by (simp add: eq)
  then show ?thesis
    using o3 s2 reports pr dg
    by (simp add: eq Let_def s3_def arm_after_def async_wait_def)
qed

text \<open>What is stored for a message, and what a disconnected rover does when asked to send it.\<close>

definition stored_form :: "string \<Rightarrow> message \<Rightarrow> endpoint \<Rightarrow> stored_packet" where
  "stored_form json m ep = (string_to_binary json, get_lumen_type m, get_lumen_priority m, ep)"

lemma disconnected_send:
  assumes "rv_up base s" "rv_session_state s = R_DISCONNECTED" "\<not> rv_low_power_mode s"
    and "serialise L m = Inr json"
  shows "rv_send_message L m base s = s\<lparr>rv_stored_packets := rv_stored_packets s @ [stored_form json m base]\<rparr>"
  using assms
  by (simp add: rv_send_message_def Let_def rv_get_base_endpoint_def rv_up_def rv_is_low_power_mode_def
      rv_store_message_for_later_def stored_form_def)

lemma disconnected_sends:
  assumes "rv_up base s" "rv_session_state s = R_DISCONNECTED" "\<not> rv_low_power_mode s"
    and "\<forall>m \<in> set msgs. serialise L m = Inr (text m)"
  shows "foldl (\<lambda>s m. rv_send_message L m base s) s msgs =
    s\<lparr>rv_stored_packets := rv_stored_packets s @ map (\<lambda>m. stored_form (text m) m base) msgs\<rparr>"
  using assms by (induction msgs arbitrary: s) (simp_all add: disconnected_send)

lemma rv_route_established:
  assumes "rv_up base s" "sender \<noteq> rv_rover_id s"
  shows "rv_route_message L (CommandMessage ''SESSION_ESTABLISHED'' p sender t) base s
         = Inr (rv_handle_session_established L s)"
  using assms by (simp add: rv_route_message_def Let_def rv_up_def rv_handle_internal_command_def)

text \<open>C9: store and forward: while the rover is disconnected, messages for the base station are not sent
  but kept; when the base station's \<open>SESSION_ESTABLISHED\<close> arrives, the rover becomes active, sends
  everything it kept, the older messages first, each exactly once and under consecutive sequence
  numbers, then the status and position reports, and nothing stays in the queue.\<close>

theorem store_and_forward:
  assumes "rv_up base s" and "valid_recipient base" and "rv_session_state s = R_DISCONNECTED"
    and "\<not> rv_low_power_mode s" and "\<forall>p \<in> set (rv_stored_packets s). stored_ok p"
    and "\<forall>m \<in> set msgs. serialise L m = Inr (text m)"
    and "serialise L (status_report s) = Inr js" and "serialise L (position_report s) = Inr jp"
    and "station \<noteq> rv_rover_id s"
    and "s1 = foldl (\<lambda>s m. rv_send_message L m base s) s msgs"
    and "s2 = state_of (rv_route_message L (CommandMessage ''SESSION_ESTABLISHED'' p station t) base s1)"
  shows "outbox s1 = outbox s \<and> rv_session_state s2 = R_ACTIVE \<and> rv_stored_packets s2 = []
    \<and> outbox s2 = outbox s @
        (let queue = rv_stored_packets s @ map (\<lambda>m. stored_form (text m) m base) msgs;
             seq = lp_current_sequence s + word_of_nat (length queue)
         in stored_datagrams (lp_current_sequence s) s queue @
            [message_datagram js (status_report s) base seq s,
             message_datagram jp (position_report s) base (seq + 1) s])"
proof -
  let ?queue = "rv_stored_packets s @ map (\<lambda>m. stored_form (text m) m base) msgs"
  have s1: "s1 = s\<lparr>rv_stored_packets := ?queue\<rparr>"
    using disconnected_sends [OF assms(1,3,4,6)] assms(10) by simp
  then have up: "rv_up base s1" using assms(1) by simp
  have s2: "s2 = rv_handle_session_established L s1"
    using rv_route_established [OF up] assms(9,11) s1 by simp
  have reports: "status_report s1 = status_report s" "position_report s1 = position_report s"
    by (simp_all add: s1)
  have "\<forall>p \<in> set (rv_stored_packets s1). stored_ok p"
    using assms(2,5) by (auto simp: s1 stored_ok_def stored_form_def)
  then have est: "rv_session_state s2 = R_ACTIVE \<and> rv_stored_packets s2 = [] \<and> rv_up base s2
    \<and> tm_waiting (rv_status_timer s2) \<and> tm_waiting (rv_position_telemetry_timer s2)
    \<and> outbox s2 = outbox s1 @ stored_datagrams (lp_current_sequence s1) s1 (rv_stored_packets s1) @
        (let seq = lp_current_sequence s1 + word_of_nat (length (rv_stored_packets s1))
         in [message_datagram js (status_report s1) base seq s1,
             message_datagram jp (position_report s1) base (seq + 1) s1])"
    using assms(3,4,7,8) s1 by (intro session_established_out [OF up _ _ _ _ _ s2]) simp_all
  moreover have "stored_datagrams q s1 ps = stored_datagrams q s ps"
    "message_datagram j m base q s1 = message_datagram j m base q s" for q ps j m
    by (simp_all add: s1 stored_datagrams_cong [of "s\<lparr>rv_stored_packets := ?queue\<rparr>" s]
        message_datagram_cong [of "s\<lparr>rv_stored_packets := ?queue\<rparr>" s])
  ultimately show ?thesis by (simp add: s1 reports Let_def)
qed

theorem store_and_forward_witness:
  "rv_stored_packets (state_of (rv_route_message rover_lib (CommandMessage ''SESSION_ESTABLISHED'' [] ''base'' 0) sample_ep
     (foldl (\<lambda>s m. rv_send_message rover_lib m sample_ep s) (idle_rover\<lparr>rv_session_state := R_DISCONNECTED\<rparr>)
        [BasicMessage ''one'' ''r1'' 0, BasicMessage ''two'' ''r1'' 0]))) = []"
proof -
  let ?s = "idle_rover\<lparr>rv_session_state := R_DISCONNECTED\<rparr>"
  have "valid_recipient sample_ep" by (simp add: valid_recipient_def sample_ep_def is_unspecified_def)
  then show ?thesis
    using store_and_forward [of sample_ep ?s "[BasicMessage ''one'' ''r1'' 0, BasicMessage ''two'' ''r1'' 0]"
        rover_lib "\<lambda>_. ''{}''" "''{}''" "''{}''" "''base''" _ _ "[]" 0, OF _ _ _ _ _ _ _ _ _ refl refl]
    by (simp only: rv_up_rv idle_rover_up serialise_rover_lib) simp
qed

subsection \<open>Session commands\<close>

lemma session_accept_out:
  assumes "rv_up base s" and "rv_session_state s = R_HANDSHAKE_INIT \<or> rv_session_state s = R_DISCONNECTED"
    and "serialise L (CommandMessage ''SESSION_CONFIRM'' (rv_rover_id s) (rv_rover_id s) (system_now s)) = Inr json"
    and s': "s' = rv_handle_session_accept L s"
  shows "rv_up base s'" "rv_session_state s' = R_HANDSHAKE_ACCEPT" "rv_rover_id s' = rv_rover_id s"
    "outbox s' = outbox s @ [command_datagram json base s]"
    "rv_posted s' = rv_posted s @ [RearmHandshake]" "rv_stored_packets s' = rv_stored_packets s"
    "lp_current_sequence s' = lp_current_sequence s + 1" "rv_low_power_mode s' = rv_low_power_mode s"
    "status_report s' = status_report s" "position_report s' = position_report s" "system_now s' = system_now s"
    "\<not> tm_waiting (rv_handshake_timer s')"
proof -
  define t where "t = (let s1 = s\<lparr>rv_session_state := R_HANDSHAKE_ACCEPT,
      rv_handshake_timer := cancel (rv_handshake_timer s)\<rparr>
    in if rv_session_state s = R_DISCONNECTED then s1\<lparr>rv_probe_timer := cancel (rv_probe_timer s1)\<rparr> else s1)"
  have eq: "s' = (rv_send_command L ''SESSION_CONFIRM'' (rv_rover_id t) t)
      \<lparr>rv_posted := rv_posted s @ [RearmHandshake]\<rparr>"
    using assms(2) by (auto simp: s' rv_handle_session_accept_def Let_def t_def)
  have t: "rv_up base t" "rv_session_state t = R_HANDSHAKE_ACCEPT" "rv_rover_id t = rv_rover_id s"
    "system_now t = system_now s" "outbox t = outbox s" "lp_current_sequence t = lp_current_sequence s"
    using assms(1) by (simp_all add: t_def Let_def)
  note out = rv_send_command_out [OF t(1), where L = L and command = "''SESSION_CONFIRM''"
      and params = "rv_rover_id t" and json = json]
  show "outbox s' = outbox s @ [command_datagram json base s]"
    using out(1) t assms(3) by (simp add: eq command_datagram_cong [of t s])
  show "lp_current_sequence s' = lp_current_sequence s + 1"
    using out(2) t assms(3) by (simp add: eq)
  show "rv_up base s'" "rv_session_state s' = R_HANDSHAKE_ACCEPT" "rv_rover_id s' = rv_rover_id s"
    "rv_posted s' = rv_posted s @ [RearmHandshake]" "system_now s' = system_now s"
    using t by (simp_all add: eq)
  show "rv_stored_packets s' = rv_stored_packets s" "rv_low_power_mode s' = rv_low_power_mode s"
    "status_report s' = status_report s" "position_report s' = position_report s"
    "\<not> tm_waiting (rv_handshake_timer s')"
    by (simp_all add: eq t_def Let_def status_report_def position_report_def cancel_def)
qed

lemma rv_route_accept:
  assumes "rv_up base s" "sender \<noteq> rv_rover_id s"
  shows "rv_route_message L (CommandMessage ''SESSION_ACCEPT'' p sender t) base s
         = Inr (rv_handle_session_accept L s)"
  using assms by (simp add: rv_route_message_def Let_def rv_up_def rv_handle_internal_command_def)

text \<open>C16: the rover's side of the handshake: the base station's \<open>SESSION_ACCEPT\<close> makes a rover that waits
  for it, or that is disconnected, answer with one \<open>SESSION_CONFIRM\<close> and post the handler that arms
  the handshake timer again; the following \<open>SESSION_ESTABLISHED\<close> makes the session active, sends
  what was kept and the first status and position reports, and starts the periodic reports.\<close>

theorem rover_handshake:
  assumes "rv_up base s" and "rv_session_state s = R_HANDSHAKE_INIT \<or> rv_session_state s = R_DISCONNECTED"
    and "\<not> rv_low_power_mode s" and "\<forall>p \<in> set (rv_stored_packets s). stored_ok p"
    and "serialise L (CommandMessage ''SESSION_CONFIRM'' (rv_rover_id s) (rv_rover_id s) (system_now s)) = Inr jc"
    and "serialise L (status_report s) = Inr js" and "serialise L (position_report s) = Inr jp"
    and "station \<noteq> rv_rover_id s"
    and "s1 = state_of (rv_route_message L (CommandMessage ''SESSION_ACCEPT'' p station t) base s)"
    and "s2 = state_of (rv_route_message L (CommandMessage ''SESSION_ESTABLISHED'' p' station t') base s1)"
  shows "rv_session_state s1 = R_HANDSHAKE_ACCEPT \<and> outbox s1 = outbox s @ [command_datagram jc base s]
    \<and> rv_posted s1 = rv_posted s @ [RearmHandshake]
    \<and> rv_session_state s2 = R_ACTIVE \<and> rv_stored_packets s2 = []
    \<and> tm_waiting (rv_status_timer s2) \<and> tm_waiting (rv_position_telemetry_timer s2)
    \<and> outbox s2 = outbox s1 @ stored_datagrams (lp_current_sequence s + 1) s (rv_stored_packets s) @
        (let seq = lp_current_sequence s + 1 + word_of_nat (length (rv_stored_packets s))
         in [message_datagram js (status_report s) base seq s,
             message_datagram jp (position_report s) base (seq + 1) s])"
proof -
  have s1: "s1 = rv_handle_session_accept L s"
    using rv_route_accept [OF assms(1,8)] assms(9) by simp
  note acc = session_accept_out [OF assms(1,2,5) s1]
  have s2: "s2 = rv_handle_session_established L s1"
    using rv_route_established [OF acc(1)] acc(3) assms(8,10) by simp
  have est: "rv_session_state s2 = R_ACTIVE \<and> rv_stored_packets s2 = [] \<and> rv_up base s2
    \<and> tm_waiting (rv_status_timer s2) \<and> tm_waiting (rv_position_telemetry_timer s2)
    \<and> outbox s2 = outbox s1 @ stored_datagrams (lp_current_sequence s1) s1 (rv_stored_packets s1) @
        (let seq = lp_current_sequence s1 + word_of_nat (length (rv_stored_packets s1))
         in [message_datagram js (status_report s1) base seq s1,
             message_datagram jp (position_report s1) base (seq + 1) s1])"
    using assms(3,4,6,7) acc by (intro session_established_out [OF acc(1) _ _ _ _ _ s2]) simp_all
  moreover have "stored_datagrams q s1 ps = stored_datagrams q s ps"
    "message_datagram j m base q s1 = message_datagram j m base q s" for q ps j m
    using acc(11) by (simp_all add: stored_datagrams_cong [of s1 s] message_datagram_cong [of s1 s])
  ultimately show ?thesis using acc by (simp add: Let_def)
qed

theorem rover_handshake_witness:
  "rv_session_state (state_of (rv_route_message rover_lib (CommandMessage ''SESSION_ESTABLISHED'' [] ''base'' 0) sample_ep
     (state_of (rv_route_message rover_lib (CommandMessage ''SESSION_ACCEPT'' [] ''base'' 0) sample_ep sample_rover))))
   = R_ACTIVE"
proof -
  have ser: "serialise rover_lib m = Inr ''{}''" for m by (rule serialise_rover_lib)
  note init = rv_initiate_handshake_out [OF idle_rover_up disjI1 ser refl]
  have s: "rv_up sample_ep sample_rover" "rv_session_state sample_rover = R_HANDSHAKE_INIT"
    "''base'' \<noteq> rv_rover_id sample_rover" "\<not> rv_low_power_mode sample_rover"
    "\<forall>p \<in> set (rv_stored_packets sample_rover). stored_ok p"
    using init unfolding sample_rover_eq by (simp_all add: rv_initiate_handshake_def Let_def)
  show ?thesis
    using rover_handshake [OF s(1) disjI1 [OF s(2)] s(4,5) ser ser ser s(3) refl refl] by blast
qed

text \<open>C19: only the base station's endpoint controls the session: a message from any other endpoint leaves
  the session state, the retry counter, all timers, low-power mode, the target, the position and
  the stored messages as they are, whatever command it carries.\<close>

theorem only_base_controls_session:
  assumes "client_base_endpoint s \<noteq> Inr ep" and "s' = state_of (rv_route_message L m ep s)"
  shows "rv_session_state s' = rv_session_state s \<and> rv_low_power_mode s' = rv_low_power_mode s
    \<and> rv_target_coordinate s' = rv_target_coordinate s
    \<and> rv_current_coordinate s' = rv_current_coordinate s
    \<and> rv_handshake_retry_count s' = rv_handshake_retry_count s
    \<and> rv_stored_packets s' = rv_stored_packets s
    \<and> rv_handshake_timer s' = rv_handshake_timer s \<and> rv_probe_timer s' = rv_probe_timer s
    \<and> rv_status_timer s' = rv_status_timer s \<and> rv_movement_timer s' = rv_movement_timer s
    \<and> rv_position_telemetry_timer s' = rv_position_telemetry_timer s"
proof -
  let ?same = "\<lambda>t. rv_session_state t = rv_session_state s \<and> rv_low_power_mode t = rv_low_power_mode s
    \<and> rv_target_coordinate t = rv_target_coordinate s
    \<and> rv_current_coordinate t = rv_current_coordinate s
    \<and> rv_handshake_retry_count t = rv_handshake_retry_count s
    \<and> rv_stored_packets t = rv_stored_packets s
    \<and> rv_handshake_timer t = rv_handshake_timer s \<and> rv_probe_timer t = rv_probe_timer s
    \<and> rv_status_timer t = rv_status_timer s \<and> rv_movement_timer t = rv_movement_timer s
    \<and> rv_position_telemetry_timer t = rv_position_telemetry_timer s"
  have forward: "?same (rv_forward m ep s)" by (simp add: rv_forward_def)
  have discovery: "?same (rv_handle_discovery_command L c i ep s)" for c i
    by (simp add: rv_handle_discovery_command_def rv_send_raw_message_def Let_def)
  have other: "(case client_base_endpoint s of Inr base \<Rightarrow> ep = base | Inl e \<Rightarrow> False) = False"
    using assms(1) by (auto split: sum.splits)
  show ?thesis
    using forward discovery unfolding assms(2) rv_route_message_def Let_def other
    by (cases m) simp_all
qed

theorem only_base_controls_session_witness:
  "rv_session_state (state_of (rv_route_message rover_lib
     (CommandMessage ''SESSION_ESTABLISHED'' [] ''intruder'' 0) no_endpoint idle_rover)) = R_INACTIVE"
proof -
  have "client_base_endpoint idle_rover \<noteq> Inr no_endpoint"
    using idle_rover_up by (simp add: rv_up_def sample_ep_def no_endpoint_def)
  from only_base_controls_session [OF this refl] show ?thesis by simp
qed

end
