(* ===== verification/Rover_Events.thy ===== *)
theory Rover_Events
  imports Rover_Behaviour
begin

text \<open>
  What whole runs of a rover do: how each cause moves the session state, what the rover hands to its
  socket in each event, and, for every sequence of events of given causes, the probing of a lost
  base station, the end of an unanswered handshake and the silence of low-power mode.
\<close>

subsection \<open>How the session state moves\<close>

lemma rv_session_state_upper: "upper t = upper s \<Longrightarrow> rv_session_state t = rv_session_state s"
  by (metis rv_of_upper(1))

text \<open>The reliability layer's own events leave the session alone.\<close>

interpretation rover_timers: upper_invariant "\<lambda>s. rv_session_state s = x" "\<lambda>payload header ep s. s" rv_on_timeout
  for x
  by unfold_locales (auto simp: rv_on_timeout_def dest: rv_session_state_upper)

lemma initiate_state:
  "rv_session_state (rv_initiate_handshake L s) =
     (if rv_session_state s \<in> {R_INACTIVE, R_DISCONNECTED} then R_HANDSHAKE_INIT else rv_session_state s)"
  by (simp add: rv_initiate_handshake_def Let_def)

lemma start_state:
  "rv_session_state (rv_start L s) =
     (if rv_session_state s \<in> {R_INACTIVE, R_DISCONNECTED} then R_HANDSHAKE_INIT else rv_session_state s)"
proof -
  have "rv_session_state (lp_start rv_on_timeout (mm_start s)) = rv_session_state s"
    by (rule rover_timers.P_start) (simp_all add: mm_start_def lp_set_message_callback_def)
  then show ?thesis
    by (simp add: rv_start_def Let_def initiate_state mm_set_message_callback_def lp_set_timeout_callback_def
        rm_set_timeout_callback_def)
qed

lemma stop_state: "rv_session_state (rv_stop s) = R_INACTIVE"
  by (simp add: rv_stop_def Let_def)

lemma run_task_state:
  "task_cause task = Other \<Longrightarrow> rv_session_state (rv_run_task task s) = rv_session_state s"
  "rv_session_state (rv_run_task task s) = rv_session_state s
   \<or> rv_session_state s = R_ACTIVE \<and> rv_session_state (rv_run_task task s) = R_DISCONNECTED"
  by (cases task; simp add: rv_run_task_def rv_handle_packet_timeout_def rv_handle_base_disconnect_def
      lp_reset_sequence_number_def rm_reset_state_def Let_def)+

lemma fired_state [simp]:
  "rv_session_state (fired_handshake L s) = rv_session_state s"
  "rv_session_state (fired_probe L s) = rv_session_state s"
  "rv_session_state (fired_status L s) = rv_session_state s"
  "rv_session_state (fired_position L s) = rv_session_state s"
  "rv_session_state (fired_movement L s) = rv_session_state s"
  by (simp_all add: fired_handshake_def rv_handle_handshake_timer_def rv_handle_base_disconnect_def
      fired_probe_def rv_handle_probe_timer_def fired_status_def rv_handle_status_timer_def
      fired_position_def rv_handle_position_telemetry_timer_def fired_movement_def
      rv_handle_movement_timer_def rv_update_current_position_def Let_def
      split: option.splits prod.splits sum.splits)

lemma task_cause_cases: "task_cause task = Other \<or> task_cause task = Timeout"
  by (cases task) simp_all

lemma quiet_event_state:
  "rover_event L c s t \<Longrightarrow> c \<in> {Retransmission, Other} \<Longrightarrow> rv_session_state t = rv_session_state s"
proof (induction rule: rover_event.induct)
  case (retransmission_timer s)
  show ?case by (rule rover_timers.P_retransmission_timer) simp
next
  case (cleanup_timer s)
  show ?case by (rule rv_session_state_upper) simp
next
  case (run_task s task tasks)
  then show ?case using task_cause_cases [of task] by (auto simp: run_task_state(1))
qed (simp_all add: rv_update_status_def rv_update_current_position_def
      rv_set_application_message_handler_def rv_set_discovery_message_handler_def rv_scan_for_rovers_def
      split: option.splits sum.splits)

inductive_cases timeout_eventE: "rover_event L Timeout s t"
inductive_cases start_eventE: "rover_event L Start s t"
inductive_cases stop_eventE: "rover_event L Stop s t"
inductive_cases datagram_eventE: "rover_event L Datagram s t"
inductive_cases retransmission_eventE: "rover_event L Retransmission s t"

lemma task_cause_simps [simp]:
  "task_cause task \<noteq> Start" "task_cause task \<noteq> Stop" "task_cause task \<noteq> Datagram" "task_cause task \<noteq> Retransmission"
  "Start \<noteq> task_cause task" "Stop \<noteq> task_cause task" "Datagram \<noteq> task_cause task" "Retransmission \<noteq> task_cause task"
  by (cases task; simp)+

lemma timeout_event_state:
  assumes "rover_event L Timeout s t"
  shows "rv_session_state t = rv_session_state s
    \<or> rv_session_state s = R_ACTIVE \<and> rv_session_state t = R_DISCONNECTED"
  using assms
proof (rule timeout_eventE)
  fix task tasks
  assume "t = rv_run_task task (s\<lparr>rv_posted := tasks\<rparr>)"
  then show ?thesis using run_task_state(2) [of task "s\<lparr>rv_posted := tasks\<rparr>"] by simp
qed

subsection \<open>What the rover hands to its socket\<close>

text \<open>
  The rover's transport with the registered base station, and the relation between two states in
  which the rover has sent, in between, only datagrams with a given property.
\<close>

definition linked :: "endpoint \<Rightarrow> 'a rover_scheme \<Rightarrow> bool" where
  "linked base s \<longleftrightarrow> lp_mode s = MODE_ROVER \<and> server s = None \<and> (\<exists>c. client s = Some c \<and> cl_base c = base)"

definition sends :: "(datagram \<Rightarrow> bool) \<Rightarrow> endpoint \<Rightarrow> 'a rover_scheme \<Rightarrow> 'a rover_scheme \<Rightarrow> bool" where
  "sends Q base s t \<longleftrightarrow> linked base s \<and> linked base t \<and>
     (\<exists>ds. outbox t = outbox s @ ds \<and> (\<forall>d \<in> set ds. Q d))"

lemma linked_base: "linked base s \<Longrightarrow> rv_get_base_endpoint s =
    (if is_unspecified base then Inl (runtime_error ''Base endpoint not initialized'') else Inr base)"
  by (auto simp: linked_def rv_get_base_endpoint_def client_base_endpoint_def cl_get_base_endpoint_def)

lemma sends_refl: "linked base s \<Longrightarrow> sends Q base s s"
  by (simp add: sends_def)

lemma sends_linked: "sends Q base s t \<Longrightarrow> linked base t"
  by (simp add: sends_def)

lemma sends_trans: "sends Q base s t \<Longrightarrow> sends Q base t u \<Longrightarrow> sends Q base s u"
  by (fastforce simp: sends_def)

lemma sends_mono: "sends Q base s t \<Longrightarrow> (\<And>d. Q d \<Longrightarrow> R d) \<Longrightarrow> sends R base s t"
  by (fastforce simp: sends_def)

lemma linked_cong:
  "client s = client t \<Longrightarrow> server s = server t \<Longrightarrow> lp_mode s = lp_mode t \<Longrightarrow> linked base s = linked base t"
  by (simp add: linked_def)

lemma sends_cong:
  assumes "client t' = client t" "server t' = server t" "lp_mode t' = lp_mode t"
  shows "sends Q base s t' = sends Q base s t" "sends Q base t' s = sends Q base t s" "linked base t' = linked base t"
  using linked_cong [of t' t base] outbox_cong [of t' t] assms by (simp_all add: sends_def)

lemma sends_packet:
  assumes "linked base s" and "Q (packet_to_bytes p, ep)"
  shows "sends Q base s (lp_send_packet p ep s)"
proof -
  obtain c where c: "client s = Some c" "cl_base c = base" "server s = None" "lp_mode s = MODE_ROVER"
    using assms(1) by (auto simp: linked_def)
  then show ?thesis
    using assms(2)
    by (auto simp: sends_def linked_def outbox_def lp_send_packet_def Let_def cl_send_data_def
        cl_send_data_to_def cl_get_base_endpoint_def)
qed

lemma add_send_packet_socket [simp]:
  "sends Q base (rm_add_send_packet q p ep s) t = sends Q base s t" "linked base (rm_add_send_packet q p ep s) = linked base s"
  by (rule sends_cong; simp add: rm_add_send_packet_def)+

lemma sequence_socket [simp]:
  "sends Q base (s\<lparr>lp_current_sequence := q\<rparr>) t = sends Q base s t" "linked base (s\<lparr>lp_current_sequence := q\<rparr>) = linked base s"
  by (rule sends_cong; simp)+

lemma sends_message:
  assumes "linked base s" and "\<not> is_unspecified ep"
    and "Q (packet_to_bytes (message_packet payload type priority s), ep)"
  shows "sends Q base s (state_of (lp_send_message payload type priority ep s))"
proof (cases "lp_running s")
  case True
  let ?p = "message_packet payload type priority s"
  let ?t = "s\<lparr>lp_current_sequence := lp_current_sequence s + 1\<rparr>"
  have "sends Q base ?t (lp_send_packet ?p ep ?t)"
    "sends Q base (rm_add_send_packet q ?p ep ?t) (lp_send_packet ?p ep (rm_add_send_packet q ?p ep ?t))" for q
    using assms(1,3) by (simp_all add: sends_packet del: add_send_packet_socket(1) sequence_socket(1))
  then show ?thesis
    using True assms(2) by (simp add: lp_send_message_to)
qed (use assms(1) in \<open>simp add: lp_send_message_def sends_refl\<close>)

lemma sends_mm:
  assumes "linked base s" and "\<not> is_unspecified ep"
    and "\<And>p. hdr_priority (pkt_header p) = get_lumen_priority m \<Longrightarrow> Q (packet_to_bytes p, ep)"
  shows "sends Q base s (mm_send_message L m ep s)"
  using assms by (auto simp: mm_send_message_def sends_refl sends_message split: sum.splits)

lemma sends_raw:
  assumes "linked base s" and "\<not> is_unspecified ep"
    and "\<And>json. serialise L m = Inr json \<Longrightarrow> Q (string_to_binary json, ep)"
  shows "sends Q base s (mm_send_raw_message L m ep s)"
proof -
  obtain c where c: "client s = Some c" "cl_base c = base" "server s = None" "lp_mode s = MODE_ROVER"
    using assms(1) by (auto simp: linked_def)
  then show ?thesis
    using assms
    by (auto simp: mm_send_raw_message_def sends_def linked_def outbox_def Let_def cl_send_data_def
        cl_send_data_to_def cl_get_base_endpoint_def split: sum.splits)
qed

text \<open>
  A datagram for the registered base station that carries a high-priority packet or the text of a
  high-priority message; in low-power mode nothing else may be sent.
\<close>

definition urgent :: "lib \<Rightarrow> endpoint \<Rightarrow> datagram \<Rightarrow> bool" where
  "urgent L base d \<longleftrightarrow> snd d = base \<and> \<not> is_unspecified base \<and>
     ((\<exists>p. hdr_priority (pkt_header p) = HIGH \<and> fst d = packet_to_bytes p) \<or>
      (\<exists>m json. get_lumen_priority m = HIGH \<and> serialise L m = Inr json \<and> fst d = string_to_binary json))"

definition permitted :: "lib \<Rightarrow> endpoint \<Rightarrow> bool \<Rightarrow> datagram \<Rightarrow> bool" where
  "permitted L base low d \<longleftrightarrow> (low \<longrightarrow> urgent L base d)"

lemma sends_fields [simp]:
  "sends Q base s (t\<lparr>rv_session_state := x0\<rparr>) = sends Q base s t"
  "sends Q base s (t\<lparr>rv_rover_id := x1\<rparr>) = sends Q base s t"
  "sends Q base s (t\<lparr>rv_current_status_level := x2\<rparr>) = sends Q base s t"
  "sends Q base s (t\<lparr>rv_current_status_description := x3\<rparr>) = sends Q base s t"
  "sends Q base s (t\<lparr>rv_handshake_retry_count := x4\<rparr>) = sends Q base s t"
  "sends Q base s (t\<lparr>rv_discovered_rovers := x5\<rparr>) = sends Q base s t"
  "sends Q base s (t\<lparr>rv_low_power_mode := x6\<rparr>) = sends Q base s t"
  "sends Q base s (t\<lparr>rv_target_coordinate := x7\<rparr>) = sends Q base s t"
  "sends Q base s (t\<lparr>rv_current_coordinate := x8\<rparr>) = sends Q base s t"
  "sends Q base s (t\<lparr>rv_stored_packets := x9\<rparr>) = sends Q base s t"
  "sends Q base s (t\<lparr>rv_status_timer := x10\<rparr>) = sends Q base s t"
  "sends Q base s (t\<lparr>rv_handshake_timer := x11\<rparr>) = sends Q base s t"
  "sends Q base s (t\<lparr>rv_position_telemetry_timer := x12\<rparr>) = sends Q base s t"
  "sends Q base s (t\<lparr>rv_probe_timer := x13\<rparr>) = sends Q base s t"
  "sends Q base s (t\<lparr>rv_movement_timer := x14\<rparr>) = sends Q base s t"
  "sends Q base s (t\<lparr>rv_application_message_handler := x15\<rparr>) = sends Q base s t"
  "sends Q base s (t\<lparr>rv_discovery_message_handler := x16\<rparr>) = sends Q base s t"
  "sends Q base s (t\<lparr>rv_posted := x17\<rparr>) = sends Q base s t"
  "sends Q base s (t\<lparr>system_now := x18\<rparr>) = sends Q base s t"
  "sends Q base s (t\<lparr>steady_now := x19\<rparr>) = sends Q base s t"
  "linked base (t\<lparr>rv_session_state := x0\<rparr>) = linked base t"
  "linked base (t\<lparr>rv_rover_id := x1\<rparr>) = linked base t"
  "linked base (t\<lparr>rv_current_status_level := x2\<rparr>) = linked base t"
  "linked base (t\<lparr>rv_current_status_description := x3\<rparr>) = linked base t"
  "linked base (t\<lparr>rv_handshake_retry_count := x4\<rparr>) = linked base t"
  "linked base (t\<lparr>rv_discovered_rovers := x5\<rparr>) = linked base t"
  "linked base (t\<lparr>rv_low_power_mode := x6\<rparr>) = linked base t"
  "linked base (t\<lparr>rv_target_coordinate := x7\<rparr>) = linked base t"
  "linked base (t\<lparr>rv_current_coordinate := x8\<rparr>) = linked base t"
  "linked base (t\<lparr>rv_stored_packets := x9\<rparr>) = linked base t"
  "linked base (t\<lparr>rv_status_timer := x10\<rparr>) = linked base t"
  "linked base (t\<lparr>rv_handshake_timer := x11\<rparr>) = linked base t"
  "linked base (t\<lparr>rv_position_telemetry_timer := x12\<rparr>) = linked base t"
  "linked base (t\<lparr>rv_probe_timer := x13\<rparr>) = linked base t"
  "linked base (t\<lparr>rv_movement_timer := x14\<rparr>) = linked base t"
  "linked base (t\<lparr>rv_application_message_handler := x15\<rparr>) = linked base t"
  "linked base (t\<lparr>rv_discovery_message_handler := x16\<rparr>) = linked base t"
  "linked base (t\<lparr>rv_posted := x17\<rparr>) = linked base t"
  "linked base (t\<lparr>system_now := x18\<rparr>) = linked base t"
  "linked base (t\<lparr>steady_now := x19\<rparr>) = linked base t"
  by (rule sends_cong; simp)+

lemma sends_stored [simp]:
  "sends Q base s (rv_store_message_for_later L m ep t) = sends Q base s t"
  by (simp add: rv_store_message_for_later_def split: sum.splits)

lemma sends_to_base:
  assumes "linked base s" and "\<not> is_unspecified base" and "low \<Longrightarrow> get_lumen_priority m = HIGH"
  shows "sends (permitted L base low) base s (mm_send_message L m base s)"
    "sends (permitted L base low) base s (mm_send_raw_message L m base s)"
proof -
  have "permitted L base low (packet_to_bytes p, base)" if "hdr_priority (pkt_header p) = get_lumen_priority m" for p
    unfolding permitted_def urgent_def using assms(2,3) that by (metis fst_conv snd_conv)
  moreover have "permitted L base low (string_to_binary json, base)" if "serialise L m = Inr json" for json
    unfolding permitted_def urgent_def using assms(2,3) that by (metis fst_conv snd_conv)
  ultimately show "sends (permitted L base low) base s (mm_send_message L m base s)"
    "sends (permitted L base low) base s (mm_send_raw_message L m base s)"
    using assms(1,2) by (simp_all add: sends_mm sends_raw)
qed

lemma sends_unrestricted:
  assumes "linked base s" and "\<not> is_unspecified ep"
  shows "sends (permitted L base False) base s (mm_send_message L m ep s)"
    "sends (permitted L base False) base s (mm_send_raw_message L m ep s)"
  using assms by (auto intro!: sends_mm sends_raw simp: permitted_def)

lemma sends_rover:
  assumes "sends (permitted L base low) base s t" and "low = rv_low_power_mode t"
  shows "sends (permitted L base low) base s (rv_send_message L m ep t)"
    "sends (permitted L base low) base s (rv_send_raw_message L m ep t)"
    "sends (permitted L base low) base s (rv_send_telemetry L r t)"
    "sends (permitted L base low) base s (rv_send_status L t)"
    "sends (permitted L base low) base s (rv_send_command L cmd params t)"
proof -
  note t = sends_linked [OF assms(1)]
  have "sends (permitted L base low) base t (rv_send_message L m ep t)"
    "sends (permitted L base low) base t (rv_send_raw_message L m ep t)"
    "sends (permitted L base low) base t (rv_send_telemetry L r t)"
    "sends (permitted L base low) base t (rv_send_status L t)"
    "sends (permitted L base low) base t (rv_send_command L cmd params t)"
    using t assms(2)
    by (auto simp: rv_send_message_def rv_send_raw_message_def rv_send_telemetry_def rv_send_status_def
        rv_send_command_def Let_def linked_base rv_is_low_power_mode_def
        intro: sends_refl sends_to_base sends_unrestricted)
  then show "sends (permitted L base low) base s (rv_send_message L m ep t)"
    "sends (permitted L base low) base s (rv_send_raw_message L m ep t)"
    "sends (permitted L base low) base s (rv_send_telemetry L r t)"
    "sends (permitted L base low) base s (rv_send_status L t)"
    "sends (permitted L base low) base s (rv_send_command L cmd params t)"
    using sends_trans [OF assms(1)] by blast+
qed

lemma sends_fired:
  assumes "linked base s" and "low = rv_low_power_mode s"
  shows "sends (permitted L base low) base s (fired_handshake L s)"
    "sends (permitted L base low) base s (fired_probe L s)"
    "sends (permitted L base low) base s (fired_status L s)"
    "sends (permitted L base low) base s (fired_position L s)"
    "sends (permitted L base low) base s (fired_movement L s)"
  using assms
  by (simp_all add: fired_handshake_def rv_handle_handshake_timer_def rv_handle_base_disconnect_def
      fired_probe_def rv_handle_probe_timer_def fired_status_def rv_handle_status_timer_def
      fired_position_def rv_handle_position_telemetry_timer_def fired_movement_def
      rv_handle_movement_timer_def rv_update_current_position_def Let_def sends_refl sends_rover
      split: option.splits prod.splits sum.splits)

lemma linked_client:
  assumes "linked base s" and "client t = Some c'" and "server t = None" and "lp_mode t = MODE_ROVER"
    and "cl_base c' = base" and "\<exists>ds. cl_out c' = cl_out (the (client s)) @ ds \<and> (\<forall>d \<in> set ds. Q d)"
  shows "sends Q base s t"
  using assms by (auto simp: sends_def linked_def outbox_def)

lemma sends_client_map:
  assumes "sends Q base s t" and "\<And>c. cl_base (f c) = cl_base c \<and> cl_out (f c) = cl_out c"
  shows "sends Q base s (t\<lparr>client := map_option f (client t)\<rparr>)"
  using assms by (auto simp: sends_def linked_def outbox_def)

lemma cl_control [simp]:
  "cl_base (cl_handle_retry c) = cl_base c" "cl_out (cl_handle_retry c) = cl_out c"
  "cl_base (cl_start_receive c) = cl_base c" "cl_out (cl_start_receive c) = cl_out c"
  "cl_base (cl_stop_receive c) = cl_base c" "cl_out (cl_stop_receive c) = cl_out c"
  by (simp_all add: cl_handle_retry_def cl_start_receive_def cl_stop_receive_def cl_do_receive_def Let_def)

lemma sends_scan:
  assumes "linked base s" and "low = rv_low_power_mode s"
  shows "sends (permitted L base low) base s (rv_scan_for_rovers L port text s)"
proof (cases low)
  case False
  have "cl_base (foldl (\<lambda>c i. case h i of None \<Rightarrow> c | Some ep \<Rightarrow> cl_send_data_to d ep c) c is) = cl_base c
      \<and> (\<exists>ds. cl_out (foldl (\<lambda>c i. case h i of None \<Rightarrow> c | Some ep \<Rightarrow> cl_send_data_to d ep c) c is) = cl_out c @ ds)"
    for h d c and "is" :: "nat list"
  proof (induction "is" arbitrary: c)
    case (Cons i "is")
    show ?case
    proof (cases "h i")
      case None
      then show ?thesis using Cons.IH [of c] by simp
    next
      case (Some ep)
      then show ?thesis using Cons.IH [of "cl_send_data_to d ep c"] by (auto simp: cl_send_data_to_def)
    qed
  qed simp
  then show ?thesis
    using assms False
    by (auto simp: rv_scan_for_rovers_def rv_is_low_power_mode_def linked_def permitted_def sends_refl
        intro!: linked_client split: option.splits sum.splits)
qed (use assms in \<open>simp add: rv_scan_for_rovers_def rv_is_low_power_mode_def sends_refl\<close>)

text \<open>Starting the protocol layer empties the table first, so nothing is retransmitted.\<close>

lemma retransmission_timer_empty:
  fixes s :: "'a rover_scheme"
  assumes "rm_sent_packets s = []" and t: "t = rm_handle_retransmission_timer lp_send_packet rv_on_timeout s"
  shows "client t = client s" "server t = server s" "upper t = upper s"
proof -
  have "t = s \<or> t = s\<lparr>rm_retransmit_timer := rm_retransmit_timer t\<rparr>
      \<or> t = s\<lparr>rm_sent_packets := [], rm_retransmit_timer := rm_retransmit_timer t\<rparr>"
    using assms(1) by (simp add: t rm_handle_retransmission_timer_def rm_get_packets_to_retransmit_def Let_def)
  then have "client t = client s \<and> server t = server s \<and> upper t = upper s" by (elim disjE) (erule ssubst, simp)+
  then show "client t = client s" "server t = server s" "upper t = upper s" by simp_all
qed

lemma cleanup_timer_socket:
  "client (rm_handle_cleanup_timer s) = client s" "server (rm_handle_cleanup_timer s) = server s"
  by (simp_all add: rm_handle_cleanup_timer_def rm_cleanup_old_entries_def Let_def)

lemma lp_start_socket:
  fixes s :: "'a rover_scheme"
  shows "client (lp_start rv_on_timeout s) = client s \<and> server (lp_start rv_on_timeout s) = server s
   \<and> lp_mode (lp_start rv_on_timeout s) = lp_mode s \<and> rv_low_power_mode (lp_start rv_on_timeout s) = rv_low_power_mode s
   \<and> rv_stored_packets (lp_start rv_on_timeout s) = rv_stored_packets s"
proof -
  define a where "a = s\<lparr>lp_running := True, lp_frame_buffers := Map.empty, lp_endpoint_map := Map.empty\<rparr>"
  define b where "b = a\<lparr>rm_running := True, rm_sent_packets := [], rm_consecutive_timeouts_to_base := 0,
      rm_received_sequences := Map.empty, rm_recent_naks := [], rm_acked_sequences := Map.empty\<rparr>"
  define c where "c = rm_handle_retransmission_timer lp_send_packet rv_on_timeout b"
  have eq: "lp_start rv_on_timeout s =
      (if lp_running s then s else if rm_running s then a else rm_handle_cleanup_timer c)"
    by (simp add: lp_start_def rm_start_def Let_def a_def b_def c_def)
  note c = retransmission_timer_empty [OF _ c_def]
  have "upper (rm_handle_cleanup_timer c) = upper b" using c(3) by (simp add: b_def)
  then have "lp_mode (rm_handle_cleanup_timer c) = lp_mode s"
    "rv_low_power_mode (rm_handle_cleanup_timer c) = rv_low_power_mode s"
    "rv_stored_packets (rm_handle_cleanup_timer c) = rv_stored_packets s"
    using same_upper(1) [of _ b] rv_same_upper(5,6) [of _ b] by (simp_all add: b_def a_def)
  then show ?thesis
    using c(1,2) by (simp add: eq cleanup_timer_socket) (simp add: a_def b_def)
qed

lemma mm_start_socket [simp]:
  "client (mm_start s) = client s" "server (mm_start s) = server s" "lp_mode (mm_start s) = lp_mode s"
  "rv_low_power_mode (mm_start s) = rv_low_power_mode s" "rv_stored_packets (mm_start s) = rv_stored_packets s"
  by (simp_all add: mm_start_def lp_set_message_callback_def)

lemma sends_start:
  assumes "linked base s" and "low = rv_low_power_mode s"
  shows "sends (permitted L base low) base s (rv_start L s)"
proof -
  define a where "a = lp_set_timeout_callback (lp_start rv_on_timeout (mm_start s))"
  define b where "b = mm_set_message_callback (a\<lparr>client := map_option cl_start_receive (client a)\<rparr>)"
  have a: "client a = client s" "server a = server s" "lp_mode a = lp_mode s" "rv_low_power_mode a = low"
    using lp_start_socket [of "mm_start s"] assms(2)
    by (simp_all add: a_def lp_set_timeout_callback_def rm_set_timeout_callback_def)
  then have "sends (permitted L base low) base s a"
    using sends_refl [OF assms(1)] sends_cong(1) [of a s] by simp
  then have "sends (permitted L base low) base s (a\<lparr>client := map_option cl_start_receive (client a)\<rparr>)"
    by (rule sends_client_map) simp
  then have b: "sends (permitted L base low) base s b" "rv_low_power_mode b = low"
    using a sends_cong(1) [of b "a\<lparr>client := map_option cl_start_receive (client a)\<rparr>"]
    by (simp_all add: b_def mm_set_message_callback_def)
  have "rv_start L s = rv_initiate_handshake L b"
    by (simp add: rv_start_def Let_def b_def a_def)
  then show ?thesis
    using b by (simp add: rv_initiate_handshake_def Let_def sends_rover)
qed

lemma sends_stop:
  assumes "linked base s"
  shows "sends Q base s (rv_stop s)"
proof -
  define a where "a = s\<lparr>client := map_option cl_stop_receive (client s)\<rparr>"
  have "sends Q base s a"
    unfolding a_def by (rule sends_client_map [OF sends_refl [OF assms]]) simp
  moreover have "client (rv_stop s) = client a" "server (rv_stop s) = server a" "lp_mode (rv_stop s) = lp_mode a"
    by (simp_all add: rv_stop_def Let_def a_def mm_stop_def lp_stop_def rm_stop_def)
  ultimately show ?thesis by (simp add: sends_cong(1) [of "rv_stop s" a])
qed

lemma sends_task: "linked base s \<Longrightarrow> sends Q base s (rv_run_task task (s\<lparr>rv_posted := tasks\<rparr>))"
proof -
  have reset: "sends Q base s (lp_reset_sequence_number t) = sends Q base s t" for t
    by (rule sends_cong) (simp_all add: lp_reset_sequence_number_def rm_reset_state_def)
  show "linked base s \<Longrightarrow> sends Q base s (rv_run_task task (s\<lparr>rv_posted := tasks\<rparr>))"
    by (cases task) (simp_all add: rv_run_task_def rv_handle_packet_timeout_def rv_handle_base_disconnect_def
        sends_refl reset Let_def)
qed

lemma event_sends:
  "rover_event L c s t \<Longrightarrow> c \<noteq> Datagram \<Longrightarrow> c \<noteq> Retransmission \<Longrightarrow> linked base s \<Longrightarrow>
   sends (permitted L base (rv_low_power_mode s)) base s t"
proof (induction rule: rover_event.induct)
  case (retry_receive s c)
  have "s\<lparr>client := Some (cl_handle_retry c)\<rparr> = s\<lparr>client := map_option cl_handle_retry (client s)\<rparr>"
    using retry_receive.hyps(1) by simp
  then show ?case
    using sends_client_map [OF sends_refl [OF retry_receive.prems(3)]] by simp
next
  case (cleanup_timer s)
  then show ?case
    using sends_refl [OF cleanup_timer.prems(3)] sends_cong(1) [of "rm_handle_cleanup_timer s" s]
    by (simp add: cleanup_timer_socket same_upper(1) [of "rm_handle_cleanup_timer s" s])
qed (simp_all add: sends_refl sends_rover sends_fired sends_scan sends_start sends_stop sends_task
      rv_update_status_def rv_update_current_position_def rv_set_application_message_handler_def
      rv_set_discovery_message_handler_def)

lemma sends_timeout [simp]: "sends Q base s (rv_on_timeout ep t) = sends Q base s t"
  by (simp add: rv_on_timeout_def)

lemma sends_retransmit_loop:
  fixes s t :: "'a rover_scheme"
  shows "sends Q base s t \<Longrightarrow> sends Q base s (snd (snd (retransmit_loop rv_on_timeout now m t)))"
proof (induction m arbitrary: t)
  case (Cons e m)
  obtain q info where e: "e = (q, info)" by fastforce
  show ?case using Cons by (auto simp: e Let_def case_prod_beta)
qed simp

lemma sends_retransmission:
  fixes s :: "'a rover_scheme"
  assumes "linked base s"
  shows "sends (\<lambda>d. True) base s (rm_handle_retransmission_timer lp_send_packet rv_on_timeout s)"
proof -
  let ?all = "\<lambda>d :: datagram. True"
  define r where "r = rm_get_packets_to_retransmit rv_on_timeout s"
  have fields: "sends ?all base s (t\<lparr>rm_sent_packets := m\<rparr>) = sends ?all base s t"
    "sends ?all base s (t\<lparr>rm_retransmit_timer := tm\<rparr>) = sends ?all base s t" for m tm and t :: "'a rover_scheme"
    by (rule sends_cong; simp)+
  have r: "sends ?all base s (snd r)"
    using sends_retransmit_loop [OF sends_refl [OF assms], of ?all "steady_now s" "rm_sent_packets s"]
    by (simp add: r_def rm_get_packets_to_retransmit_def case_prod_beta Let_def fields)
  have "sends ?all base s (foldl (\<lambda>t (packet, ep). lp_send_packet packet ep t) t ps)"
    if "sends ?all base s t" for t ps
    using that
  proof (induction ps arbitrary: t)
    case (Cons x ps)
    obtain p ep where x: "x = (p, ep)" by fastforce
    have "sends ?all base s (lp_send_packet p ep t)"
      using sends_trans [OF Cons.prems sends_packet [OF sends_linked [OF Cons.prems]]] by simp
    from Cons.IH [OF this] show ?case by (simp add: x)
  qed simp
  then show ?thesis
    using r sends_refl [OF assms] unfolding rm_handle_retransmission_timer_def r_def [symmetric]
    by (simp add: Let_def case_prod_beta fields)
qed

lemma event_linked:
  assumes "rover_event L c s t" and "c \<noteq> Datagram" and "linked base s"
  shows "linked base t"
proof (cases "c = Retransmission")
  case True
  then show ?thesis
    using assms sends_linked [OF sends_retransmission [of base s]] by (auto elim: retransmission_eventE)
next
  case False
  then show ?thesis using sends_linked [OF event_sends [OF assms(1,2) _ assms(3)]] by simp
qed

subsection \<open>A rover that has lost its base station\<close>

text \<open>What starting and stopping change, and nothing else does.\<close>

definition running :: "'a rover_scheme \<Rightarrow> role \<times> bool \<times> bool \<times> bool" where
  "running s = (rm_role s, mm_running s, lp_running s, rm_running s)"

lemma running_upper: "upper t = upper s \<Longrightarrow> running t = running s"
  using same_upper [of t s] rv_same_upper(1) [of t s] by (simp add: running_def)

lemma running_fields [simp]:
  "running (t\<lparr>rv_session_state := x0\<rparr>) = running t"
  "running (t\<lparr>rv_rover_id := x1\<rparr>) = running t"
  "running (t\<lparr>rv_current_status_level := x2\<rparr>) = running t"
  "running (t\<lparr>rv_current_status_description := x3\<rparr>) = running t"
  "running (t\<lparr>rv_handshake_retry_count := x4\<rparr>) = running t"
  "running (t\<lparr>rv_discovered_rovers := x5\<rparr>) = running t"
  "running (t\<lparr>rv_low_power_mode := x6\<rparr>) = running t"
  "running (t\<lparr>rv_target_coordinate := x7\<rparr>) = running t"
  "running (t\<lparr>rv_current_coordinate := x8\<rparr>) = running t"
  "running (t\<lparr>rv_stored_packets := x9\<rparr>) = running t"
  "running (t\<lparr>rv_status_timer := x10\<rparr>) = running t"
  "running (t\<lparr>rv_handshake_timer := x11\<rparr>) = running t"
  "running (t\<lparr>rv_position_telemetry_timer := x12\<rparr>) = running t"
  "running (t\<lparr>rv_probe_timer := x13\<rparr>) = running t"
  "running (t\<lparr>rv_movement_timer := x14\<rparr>) = running t"
  "running (t\<lparr>rv_application_message_handler := x15\<rparr>) = running t"
  "running (t\<lparr>rv_discovery_message_handler := x16\<rparr>) = running t"
  "running (t\<lparr>rv_posted := x17\<rparr>) = running t"
  "running (t\<lparr>system_now := x18\<rparr>) = running t"
  "running (t\<lparr>steady_now := x19\<rparr>) = running t"
  "running (t\<lparr>client := x20\<rparr>) = running t"
  by (simp_all add: running_def)

lemma running_send [simp]:
  "running (mm_send_message L m ep s) = running s" "running (mm_send_raw_message L m ep s) = running s"
  "running (rv_send_command L c p s) = running s" "running (rm_handle_cleanup_timer s) = running s"
  by (rule running_upper; simp)+

lemma running_rover [simp]:
  "running (rv_store_message_for_later L m ep s) = running s" "running (rv_send_message L m ep s) = running s"
  "running (rv_send_raw_message L m ep s) = running s" "running (rv_send_telemetry L r s) = running s"
  "running (rv_send_status L s) = running s"
  by (simp_all add: rv_send_message_def rv_send_raw_message_def rv_send_telemetry_def rv_send_status_def
      rv_store_message_for_later_def Let_def split: sum.splits)

interpretation rover_flags: upper_invariant "\<lambda>s. running s = x" "\<lambda>payload header ep s. s" rv_on_timeout for x
  by unfold_locales (auto simp: rv_on_timeout_def dest: running_upper)

lemma rv_up_iff:
  "rv_up base s \<longleftrightarrow> linked base s \<and> \<not> is_unspecified base \<and> running s = (ROVER, True, True, True)"
  by (auto simp: rv_up_def linked_def running_def client_base_endpoint_def cl_get_base_endpoint_def can_reach_def
      node_ok_def split: if_splits option.splits)

lemma event_running:
  "rover_event L c s t \<Longrightarrow> c \<in> {Timeout, Retransmission, Other} \<Longrightarrow> running t = running s"
proof (induction rule: rover_event.induct)
  case (retransmission_timer s)
  show ?case by (rule rover_flags.P_retransmission_timer) simp
next
  case (run_task s task tasks)
  have "running (lp_reset_sequence_number t) = running t" for t :: rover
    by (simp add: running_def lp_reset_sequence_number_def rm_reset_state_def)
  then show ?case
    by (cases task) (simp_all add: rv_run_task_def rv_handle_packet_timeout_def rv_handle_base_disconnect_def Let_def)
qed (simp_all add: fired_handshake_def rv_handle_handshake_timer_def rv_handle_base_disconnect_def
      fired_probe_def rv_handle_probe_timer_def fired_status_def rv_handle_status_timer_def
      fired_position_def rv_handle_position_telemetry_timer_def fired_movement_def
      rv_handle_movement_timer_def rv_update_current_position_def rv_update_status_def Let_def
      rv_set_application_message_handler_def rv_set_discovery_message_handler_def rv_scan_for_rovers_def
      split: option.splits prod.splits sum.splits)

lemma event_up: "rover_event L c s t \<Longrightarrow> c \<in> {Timeout, Retransmission, Other} \<Longrightarrow> rv_up base s \<Longrightarrow> rv_up base t"
  using event_running [of L c s t] event_linked [of L c s t base] by (auto simp: rv_up_iff)

text \<open>Disconnected, with a probe of the base station pending.\<close>

definition probing :: "endpoint \<Rightarrow> string \<Rightarrow> rover \<Rightarrow> bool" where
  "probing base i s \<longleftrightarrow> rv_up base s \<and> rv_session_state s = R_DISCONNECTED \<and> tm_waiting (rv_probe_timer s)
     \<and> rv_rover_id s = i"

definition probe_waits :: "string \<Rightarrow> 'a rover_scheme \<Rightarrow> bool" where
  "probe_waits i s \<longleftrightarrow> rv_session_state s = R_DISCONNECTED \<and> tm_waiting (rv_probe_timer s) \<and> rv_rover_id s = i"

lemma probe_waits_upper: "upper t = upper s \<Longrightarrow> probe_waits i t = probe_waits i s"
  using rv_same_upper [of t s] by (simp add: probe_waits_def)

interpretation rover_probe: upper_invariant "probe_waits i" "\<lambda>payload header ep s. s" rv_on_timeout for i
  by unfold_locales (blast dest: probe_waits_upper, assumption, simp add: rv_on_timeout_def probe_waits_def)

lemma event_probe_waits:
  "rover_event L c s t \<Longrightarrow> c \<in> {Timeout, Retransmission, Other} \<Longrightarrow> probe_waits i s \<Longrightarrow> probe_waits i t"
proof (induction rule: rover_event.induct)
  case (retransmission_timer s)
  then show ?case by (simp add: rover_probe.P_retransmission_timer)
next
  case (cleanup_timer s)
  then show ?case using probe_waits_upper [of "rm_handle_cleanup_timer s" s i] by simp
next
  case (run_task s task tasks)
  then show ?case
    by (cases task) (simp_all add: rv_run_task_def rv_handle_packet_timeout_def rv_handle_base_disconnect_def
        probe_waits_def lp_reset_sequence_number_def rm_reset_state_def Let_def)
next
  case (probe_timer s)
  then show ?case
    by (simp add: probe_waits_def fired_probe_def rv_handle_probe_timer_def Let_def)
qed (simp_all add: probe_waits_def fired_handshake_def rv_handle_handshake_timer_def
      fired_status_def rv_handle_status_timer_def
      fired_position_def rv_handle_position_telemetry_timer_def fired_movement_def
      rv_handle_movement_timer_def rv_update_current_position_def rv_update_status_def Let_def
      rv_set_application_message_handler_def rv_set_discovery_message_handler_def rv_scan_for_rovers_def
      split: option.splits prod.splits sum.splits)

lemma probing_runs:
  assumes "rover_runs L {Timeout, Retransmission, Other} s t" and "probing base i s"
  shows "probing base i t"
  using assms
proof (rule rover_runs_preserve)
  fix c s t
  assume "c \<in> {Timeout, Retransmission, Other}" "rover_event L c s t" "probing base i s"
  then show "probing base i t"
    using event_up [of L c s t base] event_probe_waits [of L c s t i] by (simp add: probing_def probe_waits_def)
qed

lemma probe_fires:
  assumes "probing base i t" and "serialise L (CommandMessage ''SESSION_INIT'' i i (system_now t)) = Inr json"
    and t': "t' = fired_probe L t"
  shows "outbox t' = outbox t @ [command_datagram json base t]" "tm_waiting (rv_probe_timer t')"
    "tm_expiry (rv_probe_timer t') = tm_expiry (rv_probe_timer t) + PROBE_INTERVAL"
proof -
  let ?c = "t\<lparr>rv_probe_timer := cancel (rv_probe_timer t)\<rparr>"
  have c: "rv_up base ?c" "rv_session_state ?c = R_DISCONNECTED" "rv_rover_id t = i"
    using assms(1) by (simp_all add: probing_def)
  have t': "t' = (rv_send_command L ''SESSION_INIT'' i ?c)\<lparr>rv_probe_timer :=
      async_wait (expires_at (tm_expiry (rv_probe_timer ?c) + PROBE_INTERVAL) (rv_probe_timer ?c))\<rparr>"
    using c by (simp add: t' fired_probe_def rv_handle_probe_timer_def Let_def)
  have "outbox t' = outbox ?c @ [command_datagram json base ?c]"
    using rv_send_command_out(1) [OF c(1), where L = L and command = "''SESSION_INIT''" and json = json
        and params = i] c assms(2) by (simp add: t')
  moreover have "command_datagram json base ?c = command_datagram json base t"
    by (rule command_datagram_cong) simp_all
  ultimately show "outbox t' = outbox t @ [command_datagram json base t]" by simp
  show "tm_waiting (rv_probe_timer t')"
    "tm_expiry (rv_probe_timer t') = tm_expiry (rv_probe_timer t) + PROBE_INTERVAL"
    by (simp_all add: t' async_wait_def expires_at_def cancel_def)
qed

text \<open>The posted handlers run in order; what they post themselves comes later.\<close>

definition rv_run_posted :: "'a rover_scheme \<Rightarrow> 'a rover_scheme" where
  "rv_run_posted s = foldl (\<lambda>s task. rv_run_task task s) (s\<lparr>rv_posted := []\<rparr>) (rv_posted s)"

lemma lost_base_handlers:
  assumes "rv_up base s" and "rv_session_state s = R_ACTIVE" and "rv_posted s = [PacketTimeout base]"
    and "s1 = rv_run_posted s" and "s2 = rv_run_posted s1"
  shows "probing base (rv_rover_id s) s2" "lp_current_sequence s2 = 0" "rm_sent_packets s2 = []"
    "rv_posted s2 = []" "tm_expiry (rv_probe_timer s2) = steady_now s" "outbox s2 = outbox s"
proof -
  have base: "client_base_endpoint (s\<lparr>rv_posted := []\<rparr>) = Inr base"
    using assms(1) by (simp add: rv_up_def client_base_endpoint_cong [of "s\<lparr>rv_posted := []\<rparr>" s])
  have s1: "s1 = s\<lparr>rv_session_state := R_DISCONNECTED, rv_handshake_timer := cancel (rv_handshake_timer s),
      rv_probe_timer := cancel (rv_probe_timer s), rv_posted := [ResetSequence, StartProbe]\<rparr>"
    using assms(2-4) base
    by (simp add: rv_run_posted_def rv_run_task_def rv_handle_packet_timeout_def Let_def
        rv_get_base_endpoint_def rv_handle_base_disconnect_def)
  define t where "t = lp_reset_sequence_number (s1\<lparr>rv_posted := []\<rparr>)"
  have s2: "s2 = t\<lparr>rv_probe_timer := arm_after 0 t (rv_probe_timer t)\<rparr>"
    using assms(5) by (simp add: rv_run_posted_def rv_run_task_def s1 t_def)
  have t: "rv_session_state t = R_DISCONNECTED" "lp_current_sequence t = 0" "rm_sent_packets t = []"
    "rv_posted t = []" "steady_now t = steady_now s" "outbox t = outbox s" "rv_rover_id t = rv_rover_id s"
    by (simp_all add: t_def lp_reset_sequence_number_def rm_reset_state_def s1 outbox_def
        cong: option.case_cong)
  have up: "rv_up base t"
    using assms(1)
    by (auto simp: t_def lp_reset_sequence_number_def rm_reset_state_def s1 rv_up_def can_reach_def
        node_ok_def client_base_endpoint_def)
  show "probing base (rv_rover_id s) s2" "lp_current_sequence s2 = 0" "rm_sent_packets s2 = []"
    "rv_posted s2 = []" "outbox s2 = outbox s"
    using up t by (simp_all add: s2 probing_def)
  show "tm_expiry (rv_probe_timer s2) = steady_now s"
    using t by (simp add: s2 arm_after_def async_wait_def expires_at_def)
qed

text \<open>C14: a lost base station is noticed and probed: when the reliability layer's timeout for the base
  station's endpoint reaches an active rover, it becomes disconnected, its handlers restart the
  sequence numbers at 0, forget all unacknowledged packets and arm the probe timer for at once.
  From then on, until a datagram arrives or the rover is started or stopped, whatever timers,
  posted handlers, clock steps and calls occur in whatever order and number, the rover stays
  disconnected with the probe timer armed, and each expiry of it sends exactly one
  \<open>SESSION_INIT\<close> to the base station and arms the timer again \<open>PROBE_INTERVAL\<close> later. A timeout of
  any other endpoint changes nothing.\<close>

theorem lost_base_is_probed:
  assumes "rv_up base s" and "rv_session_state s = R_ACTIVE" and "rv_posted s = [PacketTimeout ep]"
    and "\<forall>u. serialise L (CommandMessage ''SESSION_INIT'' (rv_rover_id s) (rv_rover_id s) u) = Inr (json u)"
    and "s1 = rv_run_posted s" and "s2 = rv_run_posted s1"
  shows "if ep = base
    then rv_session_state s2 = R_DISCONNECTED \<and> lp_current_sequence s2 = 0 \<and> rm_sent_packets s2 = []
      \<and> rv_posted s2 = [] \<and> tm_waiting (rv_probe_timer s2) \<and> tm_expiry (rv_probe_timer s2) = steady_now s
      \<and> outbox s2 = outbox s
      \<and> (\<forall>t. rover_runs L {Timeout, Retransmission, Other} s2 t \<longrightarrow>
           rv_session_state t = R_DISCONNECTED \<and> tm_waiting (rv_probe_timer t)
           \<and> outbox (fired_probe L t) = outbox t @ [command_datagram (json (system_now t)) base t]
           \<and> rv_session_state (fired_probe L t) = R_DISCONNECTED \<and> tm_waiting (rv_probe_timer (fired_probe L t))
           \<and> tm_expiry (rv_probe_timer (fired_probe L t)) = tm_expiry (rv_probe_timer t) + PROBE_INTERVAL)
    else s1 = s\<lparr>rv_posted := []\<rparr>"
proof (cases "ep = base")
  case True
  note lost = lost_base_handlers [OF assms(1,2) _ assms(5,6)]
  have s2: "probing base (rv_rover_id s) s2" using lost(1) assms(3) True by simp
  have "rv_session_state t = R_DISCONNECTED \<and> tm_waiting (rv_probe_timer t)
      \<and> outbox (fired_probe L t) = outbox t @ [command_datagram (json (system_now t)) base t]
      \<and> rv_session_state (fired_probe L t) = R_DISCONNECTED \<and> tm_waiting (rv_probe_timer (fired_probe L t))
      \<and> tm_expiry (rv_probe_timer (fired_probe L t)) = tm_expiry (rv_probe_timer t) + PROBE_INTERVAL"
    if "rover_runs L {Timeout, Retransmission, Other} s2 t" for t
    using probing_runs [OF that s2] probe_fires [OF probing_runs [OF that s2] _ refl] assms(4)
    by (simp add: probing_def)
  then show ?thesis using True lost(2-) s2 assms(3) by (simp add: probing_def)
next
  case False
  have "client_base_endpoint (s\<lparr>rv_posted := []\<rparr>) = Inr base"
    using assms(1) by (simp add: rv_up_def client_base_endpoint_cong [of "s\<lparr>rv_posted := []\<rparr>" s])
  then show ?thesis
    using False assms(3,5)
    by (simp add: rv_run_posted_def rv_run_task_def rv_handle_packet_timeout_def rv_get_base_endpoint_def)
qed

theorem lost_base_is_probed_witness:
  "rv_session_state (fired_probe rover_lib (rv_run_posted (rv_run_posted
     (idle_rover\<lparr>rv_session_state := R_ACTIVE, rv_posted := [PacketTimeout sample_ep]\<rparr>)))) = R_DISCONNECTED"
proof -
  let ?s = "idle_rover\<lparr>rv_session_state := R_ACTIVE, rv_posted := [PacketTimeout sample_ep]\<rparr>"
  have "rv_up sample_ep ?s" "rv_session_state ?s = R_ACTIVE" "rv_posted ?s = [PacketTimeout sample_ep]"
    "\<forall>u. serialise rover_lib (CommandMessage ''SESSION_INIT'' (rv_rover_id ?s) (rv_rover_id ?s) u) = Inr ''{}''"
    by (simp_all add: serialise_rover_lib)
  from lost_base_is_probed [OF this refl refl]
  have "rover_runs rover_lib {Timeout, Retransmission, Other} (rv_run_posted (rv_run_posted ?s)) t \<Longrightarrow>
      rv_session_state (fired_probe rover_lib t) = R_DISCONNECTED" for t
    by (simp only: if_True simp_thms)
  moreover have "rover_runs rover_lib C t t" for C t by (simp add: rover_runs_def)
  ultimately show ?thesis by blast
qed

subsection \<open>A handshake that is never answered\<close>

text \<open>Waiting for an answer with the retries used up and nothing left that would arm the timer.\<close>

definition stuck :: "'a rover_scheme \<Rightarrow> bool" where
  "stuck s \<longleftrightarrow> rv_session_state s = R_HANDSHAKE_INIT \<and> \<not> tm_waiting (rv_handshake_timer s)
     \<and> RearmHandshake \<notin> set (rv_posted s)"

lemma stuck_upper: "upper t = upper s \<Longrightarrow> stuck t = stuck s"
  using rv_same_upper [of t s] by (simp add: stuck_def)

interpretation rover_stuck: upper_invariant stuck "\<lambda>payload header ep s. s" rv_on_timeout
  by unfold_locales (blast dest: stuck_upper, assumption, simp add: rv_on_timeout_def stuck_def)

lemma stuck_start: "stuck s \<Longrightarrow> stuck (rv_start L s)"
proof -
  assume "stuck s"
  then have a: "stuck (mm_start s)" by (simp add: stuck_def mm_start_def lp_set_message_callback_def)
  have "stuck (lp_start rv_on_timeout (mm_start s))"
    by (rule rover_stuck.P_start) (use a in \<open>simp_all add: stuck_def\<close>)
  then show ?thesis
    by (simp add: rv_start_def Let_def stuck_def rv_initiate_handshake_def mm_set_message_callback_def
        lp_set_timeout_callback_def rm_set_timeout_callback_def)
qed

lemma event_stuck: "rover_event L c s t \<Longrightarrow> c \<noteq> Datagram \<Longrightarrow> c \<noteq> Stop \<Longrightarrow> stuck s \<Longrightarrow> stuck t"
proof (induction rule: rover_event.induct)
  case (retransmission_timer s)
  then show ?case by (simp add: rover_stuck.P_retransmission_timer)
next
  case (cleanup_timer s)
  then show ?case using stuck_upper [of "rm_handle_cleanup_timer s" s] by simp
next
  case (run_task s task tasks)
  then show ?case
    by (cases task) (simp_all add: rv_run_task_def rv_handle_packet_timeout_def rv_handle_base_disconnect_def
        stuck_def lp_reset_sequence_number_def rm_reset_state_def Let_def)
next
  case (start s)
  then show ?case by (simp add: stuck_start)
qed (simp_all add: stuck_def fired_probe_def rv_handle_probe_timer_def
      fired_status_def rv_handle_status_timer_def
      fired_position_def rv_handle_position_telemetry_timer_def fired_movement_def
      rv_handle_movement_timer_def rv_update_current_position_def rv_update_status_def Let_def
      rv_set_application_message_handler_def rv_set_discovery_message_handler_def rv_scan_for_rovers_def
      split: option.splits prod.splits sum.splits)

lemma stuck_runs:
  assumes "rover_runs L {Start, Timeout, Retransmission, Other} s t" and "stuck s"
  shows "stuck t"
  using assms by (rule rover_runs_preserve) (auto intro: event_stuck)

text \<open>C36: a handshake that is never answered is abandoned without a word: while retries are left, each
  expiry of the handshake timer sends one \<open>SESSION_INIT\<close>, counts it and arms the timer again; the
  expiry after the last retry sends nothing, and from then on the rover is stuck: until a datagram
  arrives or it is stopped, whatever else happens and however often it is started again, it stays
  in \<open>HANDSHAKE_INIT\<close> with the handshake timer off and no handler posted that would arm it; its
  \<open>initiate_handshake\<close> does nothing, and an expiry of the probe timer sends nothing. It never becomes
  disconnected, so it never probes. (Packets the reliability layer is still tracking, the earlier
  \<open>SESSION_INIT\<close> packets among them, are retransmitted by that layer until it gives them up.)\<close>

theorem unanswered_handshake_ends_silently:
  assumes "rv_up base s" and "rv_session_state s = R_HANDSHAKE_INIT" and "RearmHandshake \<notin> set (rv_posted s)"
    and "serialise L (CommandMessage ''SESSION_INIT'' (rv_rover_id s) (rv_rover_id s) (system_now s)) = Inr json"
    and "s' = fired_handshake L s"
  shows "rv_session_state s' = R_HANDSHAKE_INIT \<and>
    (if rv_handshake_retry_count s < MAX_HANDSHAKE_RETRIES
     then outbox s' = outbox s @ [command_datagram json base s] \<and> tm_waiting (rv_handshake_timer s')
       \<and> rv_handshake_retry_count s' = rv_handshake_retry_count s + 1
     else outbox s' = outbox s \<and> rv_posted s' = rv_posted s \<and>
       (\<forall>t. rover_runs L {Start, Timeout, Retransmission, Other} s' t \<longrightarrow>
          rv_session_state t = R_HANDSHAKE_INIT \<and> \<not> tm_waiting (rv_handshake_timer t)
          \<and> RearmHandshake \<notin> set (rv_posted t)
          \<and> rv_initiate_handshake L t = t \<and> outbox (fired_probe L t) = outbox t))"
proof (cases "rv_handshake_retry_count s < MAX_HANDSHAKE_RETRIES")
  case True
  then show ?thesis using fired_handshake_retry [OF assms(1,2) True assms(4,5)] by simp
next
  case False
  have s': "s' = s\<lparr>rv_handshake_timer := cancel (rv_handshake_timer s)\<rparr>"
    using fired_handshake_exhausted [of s L] assms(2,5) False by (simp add: handshaking_def)
  have "stuck s'" using assms(2,3) by (simp add: s' stuck_def cancel_def)
  then have "stuck t" if "rover_runs L {Start, Timeout, Retransmission, Other} s' t" for t
    using stuck_runs [OF that] by simp
  moreover have "rv_initiate_handshake L t = t" "outbox (fired_probe L t) = outbox t" if "stuck t" for t
    using that by (simp_all add: stuck_def rv_initiate_handshake_def fired_probe_def rv_handle_probe_timer_def)
  ultimately show ?thesis using False assms(2) by (auto simp: s' stuck_def)
qed

theorem unanswered_handshake_ends_silently_witness:
  "rv_initiate_handshake rover_lib (fired_handshake rover_lib
     (idle_rover\<lparr>rv_session_state := R_HANDSHAKE_INIT, rv_handshake_retry_count := MAX_HANDSHAKE_RETRIES\<rparr>))
   = fired_handshake rover_lib
     (idle_rover\<lparr>rv_session_state := R_HANDSHAKE_INIT, rv_handshake_retry_count := MAX_HANDSHAKE_RETRIES\<rparr>)"
proof -
  let ?s = "idle_rover\<lparr>rv_session_state := R_HANDSHAKE_INIT, rv_handshake_retry_count := MAX_HANDSHAKE_RETRIES\<rparr>"
  have s: "rv_up sample_ep ?s" "rv_session_state ?s = R_HANDSHAKE_INIT" "RearmHandshake \<notin> set (rv_posted ?s)"
    "\<not> rv_handshake_retry_count ?s < MAX_HANDSHAKE_RETRIES" by simp_all
  have "rover_runs rover_lib C t t" for C t by (simp add: rover_runs_def)
  then show ?thesis
    using unanswered_handshake_ends_silently [OF s(1-3) serialise_rover_lib refl] s(4) by (metis (full_types))
qed

subsection \<open>Low-power mode\<close>

text \<open>Only high-priority messages were added to the queue.\<close>

definition queues_urgent :: "'a rover_scheme \<Rightarrow> 'a rover_scheme \<Rightarrow> bool" where
  "queues_urgent s t \<longleftrightarrow> (\<exists>ps. rv_stored_packets t = rv_stored_packets s @ ps
     \<and> (\<forall>(payload, type, priority, ep) \<in> set ps. priority = HIGH))"

lemma queues_same: "rv_stored_packets t = rv_stored_packets s \<Longrightarrow> queues_urgent s t"
  by (simp add: queues_urgent_def)

lemma queues_store:
  "get_lumen_priority m = HIGH \<Longrightarrow> queues_urgent s (rv_store_message_for_later L m ep s)"
  by (auto simp: queues_urgent_def rv_store_message_for_later_def split: sum.splits)

lemma queues_rover:
  assumes "rv_low_power_mode s"
  shows "queues_urgent s (rv_send_message L m ep s)" "queues_urgent s (rv_send_raw_message L m ep s)"
    "queues_urgent s (rv_send_telemetry L r s)" "queues_urgent s (rv_send_status L s)"
    "queues_urgent s (rv_send_command L cmd params s)"
  using assms
  by (auto simp: rv_send_message_def rv_send_raw_message_def rv_send_telemetry_def rv_send_status_def
      Let_def rv_is_low_power_mode_def split: sum.splits intro: queues_store queues_same)

lemma queues_fields [simp]:
  "queues_urgent (s\<lparr>rv_status_timer := x\<rparr>) t = queues_urgent s t"
  "queues_urgent (s\<lparr>rv_position_telemetry_timer := x\<rparr>) t = queues_urgent s t"
  "queues_urgent (s\<lparr>rv_movement_timer := x\<rparr>) t = queues_urgent s t"
  "queues_urgent (s\<lparr>rv_target_coordinate := tc\<rparr>) t = queues_urgent s t"
  "queues_urgent s (t\<lparr>rv_status_timer := x\<rparr>) = queues_urgent s t"
  "queues_urgent s (t\<lparr>rv_position_telemetry_timer := x\<rparr>) = queues_urgent s t"
  "queues_urgent s (t\<lparr>rv_movement_timer := x\<rparr>) = queues_urgent s t"
  by (simp_all add: queues_urgent_def)

lemma queues_fired:
  assumes "rv_low_power_mode s"
  shows "queues_urgent s (fired_status L s)" "queues_urgent s (fired_position L s)"
    "queues_urgent s (fired_movement L s)"
proof -
  let ?st = "s\<lparr>rv_status_timer := cancel (rv_status_timer s)\<rparr>"
  let ?po = "s\<lparr>rv_position_telemetry_timer := cancel (rv_position_telemetry_timer s)\<rparr>"
  let ?mo = "s\<lparr>rv_movement_timer := cancel (rv_movement_timer s), rv_target_coordinate := None\<rparr>"
  have "queues_urgent s (rv_send_status L ?st)" "queues_urgent s (rv_send_telemetry L r ?po)"
    "queues_urgent s (rv_send_message L m ep ?mo)" for r m ep
    using queues_rover(4) [of ?st L] queues_rover(3) [of ?po L r] queues_rover(1) [of ?mo L m ep] assms by simp_all
  then show "queues_urgent s (fired_status L s)" "queues_urgent s (fired_position L s)"
    "queues_urgent s (fired_movement L s)"
    by (auto simp: fired_status_def rv_handle_status_timer_def fired_position_def
        rv_handle_position_telemetry_timer_def fired_movement_def rv_handle_movement_timer_def
        rv_update_current_position_def Let_def queues_same split: option.splits prod.splits sum.splits)
qed

interpretation rover_queue: upper_invariant "\<lambda>s. rv_stored_packets s = x" "\<lambda>payload header ep s. s" rv_on_timeout
  for x
  by unfold_locales (auto simp: rv_on_timeout_def dest: rv_same_upper(6))

lemma start_queue: "rv_stored_packets (rv_start L s) = rv_stored_packets s"
  using lp_start_socket [of "mm_start s"]
  by (simp add: rv_start_def Let_def rv_initiate_handshake_def mm_set_message_callback_def
      lp_set_timeout_callback_def rm_set_timeout_callback_def)

lemma event_queues:
  "rover_event L c s t \<Longrightarrow> c \<noteq> Datagram \<Longrightarrow> c \<noteq> Stop \<Longrightarrow> rv_low_power_mode s \<Longrightarrow> queues_urgent s t"
proof (induction rule: rover_event.induct)
  case (retransmission_timer s)
  show ?case by (intro queues_same rover_queue.P_retransmission_timer) simp
next
  case (cleanup_timer s)
  show ?case by (intro queues_same rv_same_upper(6)) simp
next
  case (run_task s task tasks)
  show ?case
    by (cases task) (simp_all add: rv_run_task_def rv_handle_packet_timeout_def rv_handle_base_disconnect_def
        queues_urgent_def lp_reset_sequence_number_def rm_reset_state_def Let_def)
qed (simp_all add: queues_rover queues_fired, auto intro!: queues_same simp: start_queue
      fired_handshake_def rv_handle_handshake_timer_def rv_handle_base_disconnect_def
      fired_probe_def rv_handle_probe_timer_def rv_update_current_position_def rv_update_status_def Let_def
      rv_set_application_message_handler_def rv_set_discovery_message_handler_def rv_scan_for_rovers_def
      split: option.splits sum.splits)

text \<open>A datagram that carries a message of the queue.\<close>

definition flushed :: "stored_packet list \<Rightarrow> datagram \<Rightarrow> bool" where
  "flushed ps d \<longleftrightarrow> (\<exists>(payload, type, priority, ep) \<in> set ps. snd d = ep \<and>
     (\<exists>p. pkt_payload p = payload \<and> hdr_type (pkt_header p) = type \<and> hdr_priority (pkt_header p) = priority
        \<and> fst d = packet_to_bytes p))"

lemma sends_flush:
  assumes "sends Q base s t" and "\<forall>(payload, type, priority, ep) \<in> set ps. \<not> is_unspecified ep"
    and "\<And>d. flushed ps d \<Longrightarrow> Q d"
  shows "sends Q base s (foldl (\<lambda>s (payload, type, priority, recipient).
              let s1 = state_of (lp_send_message payload type priority recipient s)
              in s1\<lparr>rv_stored_packets := tl (rv_stored_packets s1)\<rparr>) t ps)"
  using assms
proof (induction ps arbitrary: t)
  case (Cons x ps)
  obtain payload type priority ep where x: "x = (payload, type, priority, ep)" by (cases x)
  have Q: "Q (packet_to_bytes (message_packet payload type priority t), ep)"
    by (rule Cons.prems(3)) (auto simp: flushed_def x intro!: exI [of _ "message_packet payload type priority t"])
  have "sends Q base s (state_of (lp_send_message payload type priority ep t))"
    using Cons.prems(1,2) Q by (intro sends_trans [OF Cons.prems(1)] sends_message sends_linked [OF Cons.prems(1)])
      (auto simp: x)
  moreover have "Q d" if "flushed ps d" for d
    using that by (intro Cons.prems(3)) (auto simp: flushed_def)
  ultimately show ?case
    using Cons.IH [of "(state_of (lp_send_message payload type priority ep t))\<lparr>rv_stored_packets :=
        tl (rv_stored_packets (state_of (lp_send_message payload type priority ep t)))\<rparr>"] Cons.prems(2)
    by (simp add: x Let_def)
qed simp

lemma sends_then: "sends R base s t \<Longrightarrow> sends Q base t u \<Longrightarrow> \<forall>d. Q d \<longrightarrow> R d \<Longrightarrow> sends R base s u"
  using sends_trans sends_mono by blast

lemma sends_rover_or:
  assumes "sends R base s t" and "\<forall>d. permitted L base (rv_low_power_mode t) d \<longrightarrow> R d"
  shows "sends R base s (rv_send_telemetry L r t)" "sends R base s (rv_send_status L t)"
    "sends R base s (rv_send_command L cmd params t)" "sends R base s (rv_send_raw_message L m ep t)"
  using sends_rover(2-5) [OF sends_refl [OF sends_linked [OF assms(1)]] refl, where L = L]
    sends_then [OF assms(1) _ assms(2)] by simp_all

lemma sends_route:
  assumes "linked base s" and "\<forall>(payload, type, priority, ep) \<in> set (rv_stored_packets s). \<not> is_unspecified ep"
  shows "sends (\<lambda>d. permitted L base (rv_low_power_mode s) d \<or> flushed (rv_stored_packets s) d) base s
           (state_of (rv_route_message L m ep s))"
proof -
  let ?R = "\<lambda>d. permitted L base (rv_low_power_mode s) d \<or> flushed (rv_stored_packets s) d"
  have rover: "sends ?R base s (rv_send_telemetry L r t)" "sends ?R base s (rv_send_status L t)"
    "sends ?R base s (rv_send_command L cmd params t)" "sends ?R base s (rv_send_raw_message L msg ep' t)"
    if "sends ?R base s t" "rv_low_power_mode t = rv_low_power_mode s" for t r cmd params msg ep'
    using sends_rover_or [OF that(1), of L] that(2) by simp_all
  have refl: "sends ?R base s s" using assms(1) by (rule sends_refl)
  have stored: "sends ?R base s (rv_send_stored_packets t)"
    if "sends ?R base s t" "rv_stored_packets t = rv_stored_packets s" for t
    using sends_flush [OF that(1), of "rv_stored_packets s"] assms(2) that(2)
    by (simp add: rv_send_stored_packets_def)
  have est: "sends ?R base s (rv_handle_session_established L s)"
  proof -
    define a where "a = rv_send_stored_packets (s\<lparr>rv_session_state := R_ACTIVE, rv_handshake_retry_count := 0,
        rv_handshake_timer := cancel (rv_handshake_timer s), rv_probe_timer := cancel (rv_probe_timer s)\<rparr>)"
    define b where "b = rv_handle_status_timer L a"
    have a: "sends ?R base s a" "rv_low_power_mode a = rv_low_power_mode s"
      unfolding a_def by (rule stored) (simp_all add: refl)
    have b: "sends ?R base s b" "rv_low_power_mode b = rv_low_power_mode s"
      using rover(2) [OF a] a(2) by (simp_all add: b_def rv_handle_status_timer_def Let_def)
    have "sends ?R base s (rv_handle_position_telemetry_timer L b)"
      using rover(1) [OF b] by (simp add: rv_handle_position_telemetry_timer_def Let_def)
    then show ?thesis by (simp add: rv_handle_session_established_def Let_def refl flip: a_def b_def)
  qed
  have acc: "sends ?R base s (rv_handle_session_accept L s)"
    by (simp add: rv_handle_session_accept_def Let_def rover refl)
  have "sends ?R base s (state_of (rv_handle_internal_command L c p m s))" for c p
    by (auto simp: rv_handle_internal_command_def est acc refl rv_set_target_def Let_def
        split: sum.splits list.splits)
  then show ?thesis
    by (auto simp: rv_route_message_def Let_def rv_forward_def rv_handle_discovery_command_def refl rover
        split: message.splits)
qed

text \<open>C20: low-power mode saves transmissions: in any state of a rover in low-power mode whose client has
  some endpoint registered as the base station's, no timer, posted handler, clock step or call of
  the public interface, starting and stopping included, sends anything but high-priority packets or
  messages, and those only to that endpoint; nothing but high-priority messages is added to the
  queue either. A message that arrives and is routed makes the rover send nothing but such
  datagrams and the messages that were in the queue. The retransmission timer is exempt: it repeats
  packets sent before, whatever their priority.\<close>

theorem low_power_mode_is_silent:
  assumes "rv_low_power_mode s" and "linked base s"
    and "\<forall>(payload, type, priority, ep) \<in> set (rv_stored_packets s). \<not> is_unspecified ep"
  shows "(rover_event L c s t \<and> c \<noteq> Datagram \<and> c \<noteq> Retransmission \<longrightarrow>
       (\<exists>ds. outbox t = outbox s @ ds \<and> (\<forall>d \<in> set ds. urgent L base d))
       \<and> (c \<noteq> Stop \<longrightarrow> (\<exists>ps. rv_stored_packets t = rv_stored_packets s @ ps
          \<and> (\<forall>(payload, type, priority, ep) \<in> set ps. priority = HIGH))))
    \<and> (\<exists>ds. outbox (state_of (rv_route_message L m sender s)) = outbox s @ ds
          \<and> (\<forall>d \<in> set ds. urgent L base d \<or> flushed (rv_stored_packets s) d))"
proof -
  have low: "permitted L base (rv_low_power_mode s) = urgent L base"
    using assms(1) by (simp add: permitted_def [abs_def])
  show ?thesis
    using event_sends [OF _ _ _ assms(2), of L c t] event_queues [OF _ _ _ assms(1), of L c t]
      sends_route [OF assms(2,3), of L m sender]
    unfolding low sends_def queues_urgent_def by blast
qed

theorem low_power_mode_is_silent_witness:
  "\<exists>ds. outbox (rv_start rover_lib (idle_rover\<lparr>rv_low_power_mode := True\<rparr>))
     = outbox (idle_rover\<lparr>rv_low_power_mode := True\<rparr>) @ ds \<and> (\<forall>d \<in> set ds. urgent rover_lib sample_ep d)"
proof -
  let ?s = "idle_rover\<lparr>rv_low_power_mode := True\<rparr>"
  have "linked sample_ep ?s" using idle_rover_up by (simp add: rv_up_iff)
  moreover have "rv_low_power_mode ?s"
    "\<forall>(payload, type, priority, ep) \<in> set (rv_stored_packets ?s). \<not> is_unspecified ep" by simp_all
  ultimately show ?thesis
    using low_power_mode_is_silent [of ?s sample_ep rover_lib Start "rv_start rover_lib ?s"] rover_event.start
    by blast
qed

lemma low_power_reports:
  assumes "rv_low_power_mode s" and "rv_current_status_level s = OK \<or> rv_current_status_level s = WARNING"
  shows "rv_send_telemetry L r s = s" "rv_send_status L s = s"
  using assms by (auto simp: rv_send_telemetry_def rv_send_status_def Let_def rv_is_low_power_mode_def
      split: sum.splits)

text \<open>C39: the queue is not held back by low-power mode: when \<open>SESSION_ESTABLISHED\<close> arrives, a rover in
  low-power mode sends every message it had queued before, of whatever priority, the older ones
  first and to whatever recipient; only the status and position reports that would follow are
  suppressed (the status report as long as the level is below \<open>ERROR\<close>).\<close>

theorem low_power_flushes_queue:
  assumes "rv_up base s" and "rv_low_power_mode s" and "rv_session_state s \<noteq> R_ACTIVE"
    and "\<forall>p \<in> set (rv_stored_packets s). stored_ok p"
    and "rv_current_status_level s = OK \<or> rv_current_status_level s = WARNING" and "station \<noteq> rv_rover_id s"
    and "s' = state_of (rv_route_message L (CommandMessage ''SESSION_ESTABLISHED'' p station t) base s)"
  shows "outbox s' = outbox s @ stored_datagrams (lp_current_sequence s) s (rv_stored_packets s)
    \<and> rv_stored_packets s' = [] \<and> rv_session_state s' = R_ACTIVE \<and> rv_low_power_mode s'"
proof -
  define a where "a = s\<lparr>rv_session_state := R_ACTIVE, rv_handshake_retry_count := 0,
    rv_handshake_timer := cancel (rv_handshake_timer s), rv_probe_timer := cancel (rv_probe_timer s)\<rparr>"
  define b where "b = rv_send_stored_packets a"
  have a: "rv_up base a" "\<forall>p \<in> set (rv_stored_packets a). stored_ok p" "system_now a = system_now s"
    using assms(1,4) by (simp_all add: a_def)
  note b = send_stored_out [OF a(1,2) b_def]
  have "s' = rv_handle_session_established L s"
    using rv_route_established [OF assms(1,6)] assms(7) by simp
  also have "\<dots> = rv_handle_position_telemetry_timer L (rv_handle_status_timer L b)"
    using assms(3) by (simp add: rv_handle_session_established_def Let_def flip: a_def b_def)
  finally have s': "s' = rv_handle_position_telemetry_timer L (rv_handle_status_timer L b)" .
  have low: "rv_low_power_mode b" "rv_current_status_level b = OK \<or> rv_current_status_level b = WARNING"
    using b(8,9) assms(2,5) by (simp_all add: a_def)
  have "outbox s' = outbox b \<and> rv_stored_packets s' = rv_stored_packets b
      \<and> rv_session_state s' = rv_session_state b \<and> rv_low_power_mode s' = rv_low_power_mode b"
    using low by (simp add: s' rv_handle_position_telemetry_timer_def rv_handle_status_timer_def Let_def
        low_power_reports)
  then show ?thesis
    using b low stored_datagrams_cong [OF a(3)] by (simp add: a_def)
qed

theorem low_power_flushes_queue_witness:
  "rv_stored_packets (state_of (rv_route_message rover_lib (CommandMessage ''SESSION_ESTABLISHED'' [] ''base'' 0) sample_ep
     (idle_rover\<lparr>rv_low_power_mode := True, rv_session_state := R_DISCONNECTED,
        rv_stored_packets := [([0x41], DATA, LOW, sample_ep)]\<rparr>))) = []"
proof -
  let ?s = "idle_rover\<lparr>rv_low_power_mode := True, rv_session_state := R_DISCONNECTED,
        rv_stored_packets := [([0x41], DATA, LOW, sample_ep)]\<rparr>"
  have "rv_current_status_level ?s = OK" by (simp add: idle_rover_defs)
  moreover have "\<forall>p \<in> set (rv_stored_packets ?s). stored_ok p"
    by (simp add: stored_ok_def valid_recipient_def sample_ep_def is_unspecified_def)
  ultimately show ?thesis
    using low_power_flushes_queue [of sample_ep ?s "''base''", OF _ _ _ _ disjI1 _ refl, where L = rover_lib
        and p = "[]" and t = 0] by simp
qed

end
