(* ===== verification/Session_Spec.thy ===== *)
theory Session_Spec
  imports Base_Station Rover_Events
begin

text \<open>
  What the two sides promise about sessions, as two small automata, and that the detailed state
  machines implement them: every event of a base station or a rover, with all the layers below,
  is a path of the automaton (several transitions when one datagram carries several commands). The
  rover's automaton has transitions per cause, and an event of a cause makes transitions of that
  cause only.
\<close>

subsection \<open>The base station\<close>

text \<open>A base station is free, has offered a session to one rover, or is in session with it.\<close>

datatype base_session = Free | Offered string endpoint | InSession string endpoint

inductive base_session_step :: "base_session \<Rightarrow> base_session \<Rightarrow> bool" where
  offer: "base_session_step Free (Offered i ep)"
| offer_again: "base_session_step (Offered i ep) (Offered i ep')"
| moved: "ep' \<noteq> ep \<Longrightarrow> base_session_step (InSession i ep) (Offered i ep')"
| confirm: "base_session_step (Offered i ep) (InSession i ep)"

inductive_cases base_session_stepE: "base_session_step x y"

definition session_of :: "'a base_station_scheme \<Rightarrow> base_session" where
  "session_of s =
     (case bs_session_state s of
        B_ACTIVE \<Rightarrow> InSession (bs_connected_rover_id s) (bs_rover_endpoint s)
      | B_HANDSHAKE_ACCEPT \<Rightarrow> Offered (bs_connected_rover_id s) (bs_rover_endpoint s)
      | _ \<Rightarrow> Free)"

fun rover_of :: "base_session \<Rightarrow> string option" where
  "rover_of Free = None"
| "rover_of (Offered i ep) = Some i"
| "rover_of (InSession i ep) = Some i"

lemma base_session_keeps_rover: "base_session_step\<^sup>*\<^sup>* x y \<Longrightarrow> rover_of x = Some i \<Longrightarrow> rover_of y = Some i"
  by (induction rule: rtranclp_induct) (auto elim!: base_session_stepE)

lemma session_of_upper: "upper t = upper s \<Longrightarrow> session_of t = session_of s"
proof -
  have "session_of (upper s) = session_of s" for s :: "'a base_station_scheme"
    by (simp add: session_of_def upper_def cong: BaseSessionState.case_cong)
  then show "upper t = upper s \<Longrightarrow> session_of t = session_of s" by metis
qed

lemma session_of_simps [simp]:
  "session_of (bs_send_command L c p s) = session_of s"
  "session_of (lp_set_session_active b s) = session_of s"
  "session_of (s\<lparr>bs_posted := ps\<rparr>) = session_of s"
  "session_of (s\<lparr>server := srv\<rparr>) = session_of s"
  "session_of (s\<lparr>bs_session_state := B_HANDSHAKE_ACCEPT, bs_connected_rover_id := i, bs_rover_endpoint := ep\<rparr>)
   = Offered i ep"
  by (simp_all add: session_of_def cong: BaseSessionState.case_cong)

lemma session_init_refines:
  assumes "session_ok s"
  shows "base_session_step\<^sup>=\<^sup>= (session_of s) (session_of (bs_handle_session_init L i ep s))"
proof -
  consider "bs_session_state s = B_ACTIVE" | "bs_session_state s = B_INACTIVE" "bs_connected_rover_id s = []"
    | "bs_session_state s = B_HANDSHAKE_ACCEPT"
    using assms by (cases "bs_session_state s") (auto simp: session_ok_def)
  then show ?thesis
    by cases (auto simp: bs_handle_session_init_eq Let_def, auto simp: session_of_def
        intro: base_session_step.intros)
qed

lemma session_confirm_refines:
  "base_session_step\<^sup>=\<^sup>= (session_of s) (session_of (bs_handle_session_confirm L i ep s))"
  by (auto simp: bs_handle_session_confirm_def Let_def, auto simp: session_of_def intro: base_session_step.intros)

lemma route_refines:
  assumes "session_ok s"
  shows "base_session_step\<^sup>=\<^sup>= (session_of s) (session_of (bs_route_message L m ep s))"
  using session_init_refines [OF assms] session_confirm_refines [of s]
  by (auto simp: bs_route_message_def bs_handle_internal_command_def bs_handle_internal_status_def
      bs_handle_internal_telemetry_def Let_def split: message.splits)

definition base_reaches :: "base_session \<Rightarrow> base_station \<Rightarrow> bool" where
  "base_reaches x s \<longleftrightarrow> session_ok s \<and> base_session_step\<^sup>*\<^sup>* x (session_of s)"

lemma base_reaches_route: "base_reaches x s \<Longrightarrow> base_reaches x (bs_route_message L m ep s)"
  using route_refines [of s L m ep] by (auto simp: base_reaches_def session_ok_route)

interpretation base_path: upper_invariant "base_reaches x" "mm_handle_lumen_message L (bs_app L)" no_timeout
  for x L
proof unfold_locales
  fix s t :: base_station
  show "base_reaches x s \<Longrightarrow> upper t = upper s \<Longrightarrow> base_reaches x t"
    by (simp add: base_reaches_def session_ok_upper [of s t] session_of_upper [of t s])
qed (auto simp: no_timeout_def mm_handle_lumen_message_def Let_def bs_app_def base_reaches_route
    split: sum.splits)

lemma base_reaches_receive: "base_reaches x s \<Longrightarrow> base_reaches x (bs_receive L r s)"
proof -
  have srv: "base_reaches x (s\<lparr>server := srv\<rparr>) = base_reaches x s" for s srv
    by (simp add: base_reaches_def session_ok_def)
  show "base_reaches x s \<Longrightarrow> base_reaches x (bs_receive L r s)"
    by (auto simp: bs_receive_def srv_handle_receive_def Let_def srv base_path.P_handle_udp_data
        split: option.splits receive_result.splits)
qed

lemma base_reaches_fields:
  assumes "base_reaches x s" and "bs_session_state t = bs_session_state s"
    and "bs_connected_rover_id t = bs_connected_rover_id s" and "bs_rover_endpoint t = bs_rover_endpoint s"
    and "lp_mode t = lp_mode s" and "lp_session_active t \<longrightarrow> lp_session_active s"
  shows "base_reaches x t"
proof -
  have "session_of t = session_of s" using assms(2-4) by (simp add: session_of_def cong: BaseSessionState.case_cong)
  then show ?thesis using assms by (auto simp: base_reaches_def session_ok_def)
qed

lemma base_reaches_start: "base_reaches x s \<Longrightarrow> base_reaches x (bs_start s)"
proof -
  assume s: "base_reaches x s"
  let ?a = "mm_start s"
  have a: "base_reaches x ?a"
    by (rule base_reaches_fields [OF s]) (simp_all add: mm_start_def lp_set_message_callback_def)
  have "base_reaches x (lp_start no_timeout ?a)"
    by (rule base_path.P_start) (auto intro: base_reaches_fields [OF a])
  then show ?thesis
    by (rule base_reaches_fields) (simp_all add: bs_start_def Let_def mm_set_message_callback_def)
qed

lemma session_of_stop: "session_of (bs_stop s) = Free"
  by (simp add: session_of_def bs_stop_def Let_def)

lemma base_reaches_step: "base_step L s t \<Longrightarrow> base_reaches x s \<Longrightarrow> t = bs_stop s \<or> base_reaches x t"
proof (induction rule: base_step.induct)
  case (retransmission_timer s)
  then show ?case by (simp add: base_path.P_retransmission_timer)
next
  case (cleanup_timer s)
  then show ?case using base_path.P_upper [of x s "rm_handle_cleanup_timer s"] by simp
next
  case (send_command s command params)
  then show ?case
    using base_path.P_upper [of x s "bs_send_command L command params s"] by (simp add: bs_send_command_def Let_def)
next
  case (send_message s m ep)
  then show ?case
    using base_path.P_upper [of x s "bs_send_message L m ep s"] by (simp add: bs_send_message_def)
next
  case (send_raw_message s m ep)
  then show ?case
    using base_path.P_upper [of x s "bs_send_raw_message L m ep s"] by (simp add: bs_send_raw_message_def)
qed (auto simp: base_reaches_receive base_reaches_start bs_set_status_callback_def
      bs_set_application_message_handler_def intro: base_reaches_fields)

text \<open>C7: the base station implements the session automaton: whatever happens to a base station that was
  constructed and run in any way, its session goes along transitions of the automaton (free, offered
  to one rover, in session with that rover at one endpoint), or the station is stopped and then
  free; so while it is not stopped, a base station that has offered a session to a rover deals with
  no other rover.\<close>

theorem base_refines_session_spec:
  assumes "base_run L s" and "base_step L s t"
  shows "base_session_step\<^sup>*\<^sup>* (session_of s) (session_of t)
      \<and> (session_of s \<noteq> Free \<longrightarrow> rover_of (session_of t) = rover_of (session_of s))
    \<or> t = bs_stop s \<and> session_of t = Free"
proof -
  have "base_reaches (session_of s) s" using base_run_inv [OF assms(1)] by (simp add: base_reaches_def bs_inv_def)
  then consider "t = bs_stop s" | "base_session_step\<^sup>*\<^sup>* (session_of s) (session_of t)"
    using base_reaches_step [OF assms(2)] by (auto simp: base_reaches_def)
  then show ?thesis
  proof cases
    case 2
    then show ?thesis using base_session_keeps_rover [of "session_of s" "session_of t"]
      by (cases "session_of s") auto
  qed (simp add: session_of_stop)
qed

theorem base_refines_session_spec_witness:
  "base_session_step\<^sup>*\<^sup>* (session_of sample_base) (session_of (bs_set_status_callback sample_base))"
proof -
  have "mm_running (bs_stop sample_base) = False" "mm_running (bs_set_status_callback sample_base)"
    by (simp_all add: bs_stop_def Let_def mm_stop_def lp_stop_def rm_stop_def bs_set_status_callback_def)
  then have "bs_set_status_callback sample_base \<noteq> bs_stop sample_base" by metis
  then show ?thesis
    using base_refines_session_spec [OF sample_base_run base_step.set_status_callback] by simp
qed

subsection \<open>The rover\<close>

text \<open>
  The transitions each cause can make; retransmissions, the other timers and handlers, the clock and
  the other calls make none.
\<close>

inductive rover_session_step :: "cause \<Rightarrow> RoverSessionState \<Rightarrow> RoverSessionState \<Rightarrow> bool" where
  request: "x \<in> {R_INACTIVE, R_DISCONNECTED} \<Longrightarrow> rover_session_step Start x R_HANDSHAKE_INIT"
| accepted: "x \<in> {R_HANDSHAKE_INIT, R_DISCONNECTED} \<Longrightarrow> rover_session_step Datagram x R_HANDSHAKE_ACCEPT"
| established: "x \<noteq> R_ACTIVE \<Longrightarrow> rover_session_step Datagram x R_ACTIVE"
| lost: "rover_session_step Timeout R_ACTIVE R_DISCONNECTED"
| stopped: "rover_session_step Stop x R_INACTIVE"

inductive_cases rover_session_stepE: "rover_session_step c x y"

lemma entered:
  assumes "(rover_session_step c)\<^sup>*\<^sup>* x y" and "x \<noteq> y"
  shows "(y = R_HANDSHAKE_INIT \<longrightarrow> c = Start) \<and> (y = R_INACTIVE \<longrightarrow> c = Stop)
    \<and> (y = R_DISCONNECTED \<longrightarrow> c = Timeout) \<and> (y = R_HANDSHAKE_ACCEPT \<or> y = R_ACTIVE \<longrightarrow> c = Datagram)"
  using assms by (induction rule: rtranclp_induct) (auto elim: rover_session_stepE)

definition rover_reaches :: "RoverSessionState \<Rightarrow> 'a rover_scheme \<Rightarrow> bool" where
  "rover_reaches x s \<longleftrightarrow> (rover_session_step Datagram)\<^sup>*\<^sup>* x (rv_session_state s)"

lemma established_state: "rv_session_state (rv_handle_session_established L s) = R_ACTIVE"
  by (simp add: rv_handle_session_established_def Let_def rv_handle_status_timer_def
      rv_handle_position_telemetry_timer_def)

lemma accept_state:
  "rv_session_state (rv_handle_session_accept L s) =
     (if rv_session_state s \<in> {R_HANDSHAKE_INIT, R_DISCONNECTED} then R_HANDSHAKE_ACCEPT else rv_session_state s)"
  by (simp add: rv_handle_session_accept_def Let_def)

lemma internal_command_refines:
  "(rover_session_step Datagram)\<^sup>=\<^sup>= (rv_session_state s)
     (rv_session_state (state_of (rv_handle_internal_command L c p m s)))"
proof -
  let ?t = "state_of (rv_handle_internal_command L c p m s)"
  have "rv_session_state ?t = rv_session_state s" if "c \<noteq> ''SESSION_ACCEPT''" "c \<noteq> ''SESSION_ESTABLISHED''"
    using that by (simp add: rv_handle_internal_command_def rv_set_target_def Let_def
        split: sum.splits list.splits)
  then consider "?t = rv_handle_session_accept L s" | "?t = rv_handle_session_established L s"
    | "rv_session_state ?t = rv_session_state s"
    by (cases "c = ''SESSION_ACCEPT''"; cases "c = ''SESSION_ESTABLISHED''")
      (simp_all add: rv_handle_internal_command_def)
  then show ?thesis
    by cases (auto simp: established_state accept_state intro: rover_session_step.intros)
qed

lemma rover_route_refines:
  "(rover_session_step Datagram)\<^sup>=\<^sup>= (rv_session_state s)
     (rv_session_state (state_of (rv_route_message L m ep s)))"
  using internal_command_refines [of s L]
  by (auto simp: rv_route_message_def Let_def rv_forward_def rv_handle_discovery_command_def
      split: message.splits)

lemma rover_reaches_route: "rover_reaches x s \<Longrightarrow> rover_reaches x (state_of (rv_route_message L m ep s))"
  using rover_route_refines [of s L m ep] by (auto simp: rover_reaches_def)

interpretation rover_path: upper_invariant "rover_reaches x"
    "mm_handle_lumen_message L (rv_route_message L)" rv_on_timeout for x L
proof unfold_locales
  fix s t :: "'a rover_scheme"
  show "rover_reaches x s \<Longrightarrow> upper t = upper s \<Longrightarrow> rover_reaches x t"
    by (simp add: rover_reaches_def rv_session_state_upper [of t s])
next
  fix s :: "'a rover_scheme" and ep
  show "rover_reaches x s \<Longrightarrow> rover_reaches x (rv_on_timeout ep s)"
    by (simp add: rover_reaches_def rv_on_timeout_def)
next
  fix s :: "'a rover_scheme" and payload header ep
  show "rover_reaches x s \<Longrightarrow> rover_reaches x (mm_handle_lumen_message L (rv_route_message L) payload header ep s)"
    by (auto simp: mm_handle_lumen_message_def Let_def rover_reaches_route split: sum.splits)
qed

lemma rover_reaches_receive: "rover_reaches x s \<Longrightarrow> rover_reaches x (rv_receive L r s)"
proof -
  have cl: "rover_reaches x (s\<lparr>client := c\<rparr>) = rover_reaches x s" for s :: "'a rover_scheme" and c
    by (simp add: rover_reaches_def)
  show "rover_reaches x s \<Longrightarrow> rover_reaches x (rv_receive L r s)"
    by (auto simp: rv_receive_def cl_handle_receive_def Let_def cl rover_path.P_handle_udp_data
        split: option.splits receive_result.splits)
qed

text \<open>C8: the rover implements the session automaton: in every event, the session state goes along
  transitions that the cause of that very event has in the automaton, if it moves at all. So only
  starting makes the rover ask for a session, only a datagram gets one accepted or established, only
  the timeout of a packet loses one, and then only an active one, only stopping makes the rover
  inactive, and no other timer, handler or call moves the session state.\<close>

theorem rover_refines_session_spec:
  assumes "rover_event L c s t"
  shows "(rover_session_step c)\<^sup>*\<^sup>* (rv_session_state s) (rv_session_state t)
    \<and> (c \<noteq> Datagram \<longrightarrow> (rover_session_step c)\<^sup>=\<^sup>= (rv_session_state s) (rv_session_state t))
    \<and> (rv_session_state t \<noteq> rv_session_state s \<longrightarrow>
         c = (case rv_session_state t of R_HANDSHAKE_INIT \<Rightarrow> Start | R_INACTIVE \<Rightarrow> Stop
                | R_DISCONNECTED \<Rightarrow> Timeout | _ \<Rightarrow> Datagram))"
proof -
  let ?x = "rv_session_state s" and ?y = "rv_session_state t"
  have one: "(rover_session_step c)\<^sup>=\<^sup>= ?x ?y" if "c \<noteq> Datagram"
  proof (cases c)
    case Start
    then have "t = rv_start L s" using assms by (auto elim: start_eventE)
    then show ?thesis
      using rover_session_step.request [of ?x] Start by (cases "?x \<in> {R_INACTIVE, R_DISCONNECTED}") (auto simp: start_state)
  next
    case Stop
    then have "t = rv_stop s" using assms by (auto elim: stop_eventE)
    then show ?thesis using Stop by (simp add: stop_state rover_session_step.stopped)
  next
    case Timeout
    then show ?thesis using timeout_event_state [of L s t] assms by (auto intro: rover_session_step.lost)
  qed (use that quiet_event_state [OF assms] in auto)
  have "(rover_session_step Datagram)\<^sup>*\<^sup>* ?x ?y" if d: "c = Datagram"
  proof -
    obtain r where "t = rv_receive L r s" using assms d by (auto elim: datagram_eventE)
    then show ?thesis using rover_reaches_receive [of ?x s L r] by (simp add: rover_reaches_def)
  qed
  then have "(rover_session_step c)\<^sup>*\<^sup>* ?x ?y" using one by (cases "c = Datagram") auto
  then show ?thesis using one entered [of c ?x ?y] by (cases ?y) auto
qed

theorem rover_refines_session_spec_witness:
  "(rover_session_step Start)\<^sup>=\<^sup>= R_INACTIVE (rv_session_state (rv_start rover_lib new_rover))"
proof -
  have "rv_session_state new_rover = R_INACTIVE" by (simp add: idle_rover_defs)
  then show ?thesis
    using rover_refines_session_spec [OF rover_event.start, where L = rover_lib and s = new_rover] by simp
qed

end
