(* ===== verification/Rover_Motion.thy ===== *)
theory Rover_Motion
  imports Rover_Behaviour
begin

text \<open>
  The simulated movement of the rover: \<open>handle_movement_timer\<close> moves it one metre per expiry along
  the straight line to the target, stops it within the threshold and reports the arrival. Doubles
  are real numbers here, so the distances are exact.
\<close>

subsection \<open>One step on the line\<close>

lemma calculate_distance_nonneg [simp]: "0 \<le> calculate_distance x1 y1 x2 y2"
  by (simp add: calculate_distance_def Let_def)

lemma calculate_distance_scale:
  assumes "0 \<le> k" "k \<le> 1"
  shows "calculate_distance (x + k * (tx - x)) (y + k * (ty - y)) tx ty = (1 - k) * calculate_distance x y tx ty"
proof -
  have "(tx - (x + k * (tx - x))) * (tx - (x + k * (tx - x)))
      + (ty - (y + k * (ty - y))) * (ty - (y + k * (ty - y)))
    = (1 - k)\<^sup>2 * ((tx - x) * (tx - x) + (ty - y) * (ty - y))"
    by (simp add: power2_eq_square algebra_simps)
  then show ?thesis using assms by (simp add: calculate_distance_def Let_def real_sqrt_mult)
qed

text \<open>The point \<open>k\<close> metres from the start of the way, \<open>d\<close> metres long, to the target.\<close>

definition on_way :: "coordinate \<Rightarrow> coordinate \<Rightarrow> real \<Rightarrow> coordinate" where
  "on_way from to k =
     (let d = calculate_distance (fst from) (snd from) (fst to) (snd to)
      in (fst from + k / d * (fst to - fst from), snd from + k / d * (snd to - snd from)))"

definition way_left :: "coordinate \<Rightarrow> coordinate \<Rightarrow> real" where
  "way_left from to = calculate_distance (fst from) (snd from) (fst to) (snd to)"

lemma way_left_on_way:
  assumes "0 < way_left from to" "0 \<le> k" "k \<le> way_left from to"
  shows "way_left (on_way from to k) to = way_left from to - k"
proof -
  let ?d = "way_left from to"
  have "way_left (on_way from to k) to = (1 - k / ?d) * ?d"
    using calculate_distance_scale [of "k / ?d" "fst from" "fst to" "snd from" "snd to"] assms
    by (simp add: way_left_def on_way_def Let_def)
  then show ?thesis using assms(1) by (simp add: algebra_simps)
qed

lemma on_way_again:
  assumes "0 < way_left from to" "0 \<le> k" "k < way_left from to"
  shows "on_way (on_way from to k) to j = on_way from to (k + j)"
proof -
  let ?d = "way_left from to"
  have left: "way_left (on_way from to k) to = ?d - k" using way_left_on_way [of "from" to k] assms by simp
  have alg: "(a + k / ?d * (b - a)) + j / (?d - k) * (b - (a + k / ?d * (b - a))) = a + (k + j) / ?d * (b - a)"
    for a b :: real
  proof -
    have "b - (a + k / ?d * (b - a)) = (?d - k) / ?d * (b - a)"
      using assms(1) by (simp add: field_simps)
    then have "j / (?d - k) * (b - (a + k / ?d * (b - a))) = j / ?d * (b - a)"
      using assms(1,3) by simp
    then show ?thesis by (simp add: add_divide_distrib ring_distribs)
  qed
  have "on_way (on_way from to k) to j =
      (fst (on_way from to k) + j / (?d - k) * (fst to - fst (on_way from to k)),
       snd (on_way from to k) + j / (?d - k) * (snd to - snd (on_way from to k)))"
    using left by (simp add: on_way_def [of "on_way from to k"] Let_def way_left_def)
  also have "\<dots> = on_way from to (k + j)"
    using alg by (simp add: on_way_def Let_def way_left_def)
  finally show ?thesis .
qed

lemma on_way_0 [simp]: "on_way from to 0 = from"
  by (simp add: on_way_def Let_def)

subsection \<open>Expiries of the movement timer\<close>

definition movement_run :: "lib \<Rightarrow> (time_point \<times> time_point) list \<Rightarrow> rover \<Rightarrow> rover" where
  "movement_run L ts s =
     foldl (\<lambda>s (t, u). fired_movement L (s\<lparr>steady_now := t, system_now := u\<rparr>)) s ts"

lemma fired_movement_step:
  assumes "rv_target_coordinate s = Some target"
    and far: "way_left (rv_current_coordinate s) target > TARGET_REACHED_THRESHOLD_METERS"
    and s': "s' = fired_movement L s"
  shows "rv_current_coordinate s' = on_way (rv_current_coordinate s) target 1"
    "rv_target_coordinate s' = Some target" "tm_waiting (rv_movement_timer s')" "outbox s' = outbox s"
    "rv_session_state s' = rv_session_state s" "rv_low_power_mode s' = rv_low_power_mode s"
    "rv_rover_id s' = rv_rover_id s" "rv_up base s' = rv_up base s" "lp_current_sequence s' = lp_current_sequence s"
proof -
  obtain tx ty where target: "target = (tx, ty)" by fastforce
  obtain x y where pos: "rv_current_coordinate s = (x, y)" by fastforce
  have d: "calculate_distance x y tx ty > 1"
    using far by (simp add: way_left_def target pos TARGET_REACHED_THRESHOLD_METERS_def)
  have step: "MOVE_RATE_METERS_PER_SECOND * (real_of_int MOVEMENT_INTERVAL / 10 ^ 9) = 1"
    by (simp add: MOVE_RATE_METERS_PER_SECOND_def MOVEMENT_INTERVAL_def ms_def)
  let ?p = "on_way (rv_current_coordinate s) target 1"
  have "s' = s\<lparr>rv_current_coordinate := ?p, rv_movement_timer := async_wait (expires_at
      (tm_expiry (cancel (rv_movement_timer s)) + MOVEMENT_INTERVAL) (cancel (rv_movement_timer s)))\<rparr>"
    using assms(1) d unfolding s' fired_movement_def rv_handle_movement_timer_def step
    by (simp add: target pos Let_def rv_update_current_position_def TARGET_REACHED_THRESHOLD_METERS_def
        on_way_def)
  then show "rv_current_coordinate s' = ?p"
    "rv_target_coordinate s' = Some target" "tm_waiting (rv_movement_timer s')" "outbox s' = outbox s"
    "rv_session_state s' = rv_session_state s" "rv_low_power_mode s' = rv_low_power_mode s"
    "rv_rover_id s' = rv_rover_id s" "rv_up base s' = rv_up base s" "lp_current_sequence s' = lp_current_sequence s"
    using assms(1) by (simp_all add: async_wait_def)
qed

lemma movement_run_way:
  assumes "rv_target_coordinate s = Some target" and "tm_waiting (rv_movement_timer s)"
    and "real (length ts) < way_left (rv_current_coordinate s) target"
    and "s' = movement_run L ts s"
  shows "rv_current_coordinate s' = on_way (rv_current_coordinate s) target (real (length ts))
    \<and> rv_target_coordinate s' = Some target \<and> tm_waiting (rv_movement_timer s') \<and> outbox s' = outbox s
    \<and> rv_session_state s' = rv_session_state s \<and> rv_low_power_mode s' = rv_low_power_mode s
    \<and> rv_rover_id s' = rv_rover_id s \<and> (rv_up base s' \<longleftrightarrow> rv_up base s)
    \<and> lp_current_sequence s' = lp_current_sequence s"
  using assms
proof (induction ts arbitrary: s)
  case (Cons tu ts)
  define c where "c = s\<lparr>steady_now := fst tu, system_now := snd tu\<rparr>"
  have c: "rv_target_coordinate c = Some target"
    "way_left (rv_current_coordinate c) target > TARGET_REACHED_THRESHOLD_METERS"
    using Cons.prems by (simp_all add: c_def TARGET_REACHED_THRESHOLD_METERS_def)
  define s1 where "s1 = fired_movement L c"
  note step = fired_movement_step [OF c s1_def]
  have d: "0 < way_left (rv_current_coordinate s) target" "1 < way_left (rv_current_coordinate s) target"
    using Cons.prems(3) by simp_all
  have "way_left (rv_current_coordinate s1) target = way_left (rv_current_coordinate s) target - 1"
    using step(1) way_left_on_way [OF d(1), of 1] d by (simp add: c_def)
  then have "rv_current_coordinate s' = on_way (rv_current_coordinate s1) target (real (length ts))
    \<and> rv_target_coordinate s' = Some target \<and> tm_waiting (rv_movement_timer s') \<and> outbox s' = outbox s1
    \<and> rv_session_state s' = rv_session_state s1 \<and> rv_low_power_mode s' = rv_low_power_mode s1
    \<and> rv_rover_id s' = rv_rover_id s1 \<and> (rv_up base s' \<longleftrightarrow> rv_up base s1)
    \<and> lp_current_sequence s' = lp_current_sequence s1"
    using Cons.prems(3,4) step(2,3)
    by (intro Cons.IH) (simp_all add: movement_run_def s1_def c_def case_prod_unfold)
  then show ?case
    using step on_way_again [OF d(1), of 1 "real (length ts)"] d
    by (simp add: c_def)
qed (simp add: movement_run_def)

definition arrival_message :: "'a rover_scheme \<Rightarrow> message" where
  "arrival_message s = BasicMessage (''Rover '' @ rv_rover_id s @ '' reached target coordinates.'')
     (rv_rover_id s) (system_now s)"

lemma fired_movement_arrived:
  assumes "rv_target_coordinate s = Some target"
    and near: "way_left (rv_current_coordinate s) target \<le> TARGET_REACHED_THRESHOLD_METERS"
    and up: "rv_up base s" "rv_session_state s = R_ACTIVE" "\<not> rv_low_power_mode s"
    and json: "serialise L (arrival_message s) = Inr json"
    and s': "s' = fired_movement L s"
  shows "rv_target_coordinate s' = None \<and> \<not> tm_waiting (rv_movement_timer s')
    \<and> rv_current_coordinate s' = rv_current_coordinate s
    \<and> outbox s' = outbox s @ [message_datagram json (arrival_message s) base (lp_current_sequence s) s]"
proof -
  define c where "c = s\<lparr>rv_movement_timer := cancel (rv_movement_timer s), rv_target_coordinate := None\<rparr>"
  have c: "rv_up base c" "rv_session_state c = R_ACTIVE" "\<not> rv_low_power_mode c"
    "arrival_message c = arrival_message s" "lp_current_sequence c = lp_current_sequence s"
    "outbox c = outbox s" "system_now c = system_now s"
    using up by (simp_all add: c_def arrival_message_def)
  obtain tx ty where target: "target = (tx, ty)" by fastforce
  obtain x y where pos: "rv_current_coordinate s = (x, y)" by fastforce
  have base: "client_base_endpoint c = Inr base" using c(1) by (simp add: rv_up_def)
  have "s' = rv_send_message L (arrival_message c) base c"
    using assms(1) near base unfolding s' fired_movement_def rv_handle_movement_timer_def
    by (simp add: target pos Let_def way_left_def rv_get_base_endpoint_def arrival_message_def flip: c_def)
  also have "\<dots> = mm_send_message L (arrival_message c) base c"
    using base c by (simp add: rv_send_message_def Let_def rv_get_base_endpoint_def rv_is_low_power_mode_def)
  finally have eq: "s' = mm_send_message L (arrival_message s) base c" using c(4) by simp
  have "message_datagram json (arrival_message s) base (lp_current_sequence s) c
      = message_datagram json (arrival_message s) base (lp_current_sequence s) s"
    using c(7) by (rule message_datagram_cong)
  then have "outbox s' = outbox s @ [message_datagram json (arrival_message s) base (lp_current_sequence s) s]"
    using mm_send_datagram(1) [OF c(1) json] c by (simp add: eq)
  then show ?thesis by (simp add: eq, simp add: c_def cancel_def)
qed

subsection \<open>Arrival\<close>

text \<open>C13: a rover with a target more than a metre away arrives: after \<open>k\<close> expiries of the movement
  timer it is \<open>k\<close> metres along the straight line to the target, so it never moves away and never
  overshoots; the first time it is within the threshold is after \<open>\<lceil>d\<rceil> - 1\<close> expiries, where \<open>d\<close> is
  the distance at the start; the next expiry clears the target, leaves the position, does not arm
  the timer again and sends one report of the arrival to the base station.\<close>

theorem rover_reaches_target:
  assumes "rv_target_coordinate s = Some target" and "tm_waiting (rv_movement_timer s)"
    and "rv_up base s" and "rv_session_state s = R_ACTIVE" and "\<not> rv_low_power_mode s"
    and "d = way_left (rv_current_coordinate s) target" and "1 < d"
    and "int (length ts) = \<lceil>d\<rceil> - 1"
    and "s1 = movement_run L ts s" and "s2 = movement_run L [(t, u)] s1"
    and "serialise L (arrival_message (s1\<lparr>system_now := u\<rparr>)) = Inr json"
  shows "(\<forall>k \<le> length ts. let p = rv_current_coordinate (movement_run L (take k ts) s)
             in p = on_way (rv_current_coordinate s) target (real k) \<and> way_left p target = d - real k)
    \<and> (\<forall>k < length ts. way_left (rv_current_coordinate (movement_run L (take k ts) s)) target
                       > TARGET_REACHED_THRESHOLD_METERS)
    \<and> way_left (rv_current_coordinate s1) target \<le> TARGET_REACHED_THRESHOLD_METERS
    \<and> outbox s1 = outbox s
    \<and> rv_target_coordinate s2 = None \<and> \<not> tm_waiting (rv_movement_timer s2)
    \<and> rv_current_coordinate s2 = rv_current_coordinate s1
    \<and> outbox s2 = outbox s1 @ [message_datagram json (arrival_message (s1\<lparr>system_now := u\<rparr>)) base
        (lp_current_sequence s) (s1\<lparr>system_now := u\<rparr>)]"
proof -
  let ?p = "rv_current_coordinate s"
  have n: "real (length ts) < d" "d \<le> real (length ts) + 1" using assms(8) by linarith+
  have at: "rv_current_coordinate (movement_run L (take k ts) s) = on_way ?p target (real k)"
    "way_left (on_way ?p target (real k)) target = d - real k" if "k \<le> length ts" for k
  proof -
    have "real (length (take k ts)) < way_left ?p target" using that n(1) assms(6) by simp
    from movement_run_way [OF assms(1,2) this refl]
    show "rv_current_coordinate (movement_run L (take k ts) s) = on_way ?p target (real k)"
      using that by simp
    show "way_left (on_way ?p target (real k)) target = d - real k"
      using way_left_on_way [of ?p target "real k"] that n(1) assms(6,7) by simp
  qed
  have run: "rv_current_coordinate s1 = on_way ?p target (real (length ts))
    \<and> rv_target_coordinate s1 = Some target \<and> tm_waiting (rv_movement_timer s1) \<and> outbox s1 = outbox s
    \<and> rv_session_state s1 = rv_session_state s \<and> rv_low_power_mode s1 = rv_low_power_mode s
    \<and> rv_rover_id s1 = rv_rover_id s \<and> (rv_up base s1 \<longleftrightarrow> rv_up base s)
    \<and> lp_current_sequence s1 = lp_current_sequence s"
    using movement_run_way [OF assms(1,2) _ assms(9)] n(1) assms(6) by simp
  have near: "way_left (rv_current_coordinate s1) target \<le> TARGET_REACHED_THRESHOLD_METERS"
    using run at(2) [of "length ts"] n(2) by (simp add: TARGET_REACHED_THRESHOLD_METERS_def)
  let ?c = "s1\<lparr>steady_now := t, system_now := u\<rparr>"
  let ?m = "arrival_message (s1\<lparr>system_now := u\<rparr>)"
  have m: "arrival_message ?c = ?m" by (simp add: arrival_message_def)
  have c: "rv_target_coordinate ?c = Some target"
    "way_left (rv_current_coordinate ?c) target \<le> TARGET_REACHED_THRESHOLD_METERS" "rv_up base ?c"
    "rv_session_state ?c = R_ACTIVE" "\<not> rv_low_power_mode ?c" "serialise L (arrival_message ?c) = Inr json"
    using run near assms(3-5,11) m by simp_all
  have "s2 = fired_movement L ?c" using assms(10) by (simp add: movement_run_def)
  from fired_movement_arrived [OF c this]
  have arrived: "rv_target_coordinate s2 = None \<and> \<not> tm_waiting (rv_movement_timer s2)
    \<and> rv_current_coordinate s2 = rv_current_coordinate s1
    \<and> outbox s2 = outbox s1 @ [message_datagram json ?m base (lp_current_sequence s1) ?c]"
    using m by simp
  have "message_datagram json ?m base q ?c = message_datagram json ?m base q (s1\<lparr>system_now := u\<rparr>)" for q
    by (rule message_datagram_cong) simp
  then show ?thesis
    using arrived run near at n(1) by (simp add: Let_def TARGET_REACHED_THRESHOLD_METERS_def)
qed

theorem rover_reaches_target_witness:
  "rv_target_coordinate (movement_run rover_lib [(3, 3)] (movement_run rover_lib [(1, 1), (2, 2)]
     (idle_rover\<lparr>rv_session_state := R_ACTIVE, rv_target_coordinate := Some (3, 0),
        rv_movement_timer := \<lparr>tm_expiry = 0, tm_waiting = True\<rparr>\<rparr>))) = None"
proof -
  let ?s = "idle_rover\<lparr>rv_session_state := R_ACTIVE, rv_target_coordinate := Some (3, 0),
        rv_movement_timer := \<lparr>tm_expiry = 0, tm_waiting = True\<rparr>\<rparr>"
  have d: "way_left (rv_current_coordinate ?s) (3, 0) = 3"
    by (simp add: way_left_def calculate_distance_def)
  show ?thesis
    using rover_reaches_target [of ?s "(3, 0)" sample_ep 3 "[(1, 1), (2, 2)]", OF _ _ _ _ _ _ _ _ refl refl
        serialise_rover_lib] d by simp
qed

end
