(* ===== verification/Lumen_Link.thy ===== *)
theory Lumen_Link
  imports Base_Station Rover_Motion
begin

text \<open>
  Both ends of a link: what a started base station and a started rover do with one intact packet
  that arrives in a datagram of its own, from the completion handler of the socket up to the
  application, in terms of the operations of the session layer.
\<close>

subsection \<open>Messages that survive the wire\<close>

text \<open>
  What a message relies on below the protocol: the JSON library prints it and parses the text back
  to the printed value, the text of its time stamp denotes it, and the packet with the text, twelve
  bytes longer, fits into the 1024 bytes of a receive buffer.
\<close>

definition carried :: "lib \<Rightarrow> time_point \<Rightarrow> message \<Rightarrow> string \<Rightarrow> bool" where
  "carried L now m json \<longleftrightarrow> serialise L m = Inr json \<and> json_parse L json = Some (to_json L m) \<and>
     message_ok m \<and> string_to_tp L now (tp_to_string L (msg_timestamp m)) = msg_timestamp m \<and>
     length json \<le> 1012"

lemma carried_serialise: "carried L now m json \<Longrightarrow> serialise L m = Inr json"
  by (simp add: carried_def)

lemma carried_received:
  assumes "carried L (system_now s) m json" and "mm_running s" and "mm_message_callback s"
  shows "mm_handle_lumen_message L app (string_to_binary json) h ep s = state_of (app m ep s)"
  using assms from_json_to_json [of m L "system_now s"]
  by (simp add: carried_def mm_handle_lumen_message_def is_valid_json_def deserialise_def)

lemma carried_packet_ok: "carried L now m json \<Longrightarrow> packet_ok (message_packet (string_to_binary json) t pr s)"
  by (rule message_packet_ok) (simp add: carried_def string_to_binary_def)

lemma carried_fits:
  assumes "carried L now m json" "packet_ok p" "pkt_payload p = string_to_binary json"
  shows "take SERVER_SOCK_BUF_SIZE (packet_to_bytes p) = packet_to_bytes p"
    "take CLIENT_SOCK_BUF_SIZE (packet_to_bytes p) = packet_to_bytes p"
proof -
  have "length (packet_to_bytes p) \<le> 1024"
    using assms by (simp add: carried_def total_size_def LUMEN_HEADER_SIZE_def string_to_binary_def)
  then show "take SERVER_SOCK_BUF_SIZE (packet_to_bytes p) = packet_to_bytes p"
    "take CLIENT_SOCK_BUF_SIZE (packet_to_bytes p) = packet_to_bytes p"
    by (simp_all add: SERVER_SOCK_BUF_SIZE_def CLIENT_SOCK_BUF_SIZE_def)
qed

lemma control_fits [simp]:
  "take CLIENT_SOCK_BUF_SIZE (packet_to_bytes (control_packet t q seq ts)) = packet_to_bytes (control_packet t q seq ts)"
  by (simp add: CLIENT_SOCK_BUF_SIZE_def total_size_def LUMEN_HEADER_SIZE_def)

subsection \<open>The base station's socket\<close>

definition srv_receives :: "endpoint \<Rightarrow> 'a net_scheme \<Rightarrow> 'a net_scheme" where
  "srv_receives from s = s\<lparr>server := map_option (\<lambda>srv. srv\<lparr>srv_receiving := False, srv_sender := from\<rparr>) (server s)\<rparr>"

definition srv_listens :: "'a net_scheme \<Rightarrow> 'a net_scheme" where
  "srv_listens s = s\<lparr>server := map_option srv_receive_data (server s)\<rparr>"

lemma srv_receive_data_keeps [simp]:
  "srv_out (srv_receive_data srv) = srv_out srv" "srv_running (srv_receive_data srv) = srv_running srv"
  "srv_callback (srv_receive_data srv) = srv_callback srv"
  by (simp_all add: srv_receive_data_def)

lemma outbox_socket [simp]: "outbox (srv_receives ep s) = outbox s" "outbox (srv_listens s) = outbox s"
  by (auto simp: outbox_def srv_receives_def srv_listens_def split: option.splits)

lemma socket_keeps [simp]:
  "bs_up (srv_receives ep s) = bs_up s" "bs_up (srv_listens s) = bs_up s"
  "can_reach (srv_receives ep t) ep' = can_reach t ep'" "can_reach (srv_listens t) ep' = can_reach t ep'"
  by (auto simp: bs_up_def node_ok_def can_reach_def srv_receives_def srv_listens_def
      split: ProtocolMode.splits option.splits)

subsection \<open>A packet at the base station\<close>

text \<open>The base station is started, its callbacks are set, and the peer has no unfinished packet.\<close>

definition bs_ready :: "lib \<Rightarrow> endpoint \<Rightarrow> 'a base_station_scheme \<Rightarrow> bool" where
  "bs_ready L ep b \<longleftrightarrow> bs_up b \<and> srv_callback (the (server b)) \<and> lp_message_callback b \<and>
     mm_message_callback b \<and> lp_frame_buffers b (get_endpoint_key L ep) \<in> {None, Some []}"

text \<open>The state in which the router sees the message of a packet.\<close>

definition bs_got :: "lib \<Rightarrow> lumen_packet \<Rightarrow> endpoint \<Rightarrow> 'a base_station_scheme \<Rightarrow> 'a base_station_scheme" where
  "bs_got L p ep b =
     (let c = rm_record_received_sequence L (hdr_sequence (pkt_header p)) ep
                (buffered L (packet_to_bytes p) ep (srv_receives ep b))
      in if lp_session_active b then lp_send_ack L (hdr_sequence (pkt_header p)) ep c else c)"

lemma upper_socket [simp]: "upper (srv_receives ep s) = upper s" "upper (srv_listens s) = upper s"
  by (simp_all add: srv_receives_def srv_listens_def)

lemma bs_got_upper [simp]: "upper (bs_got L p ep b) = upper b"
  by (simp add: bs_got_def Let_def)

lemma bs_of_upper:
  "bs_session_state (upper s) = bs_session_state s"
  "bs_connected_rover_id (upper s) = bs_connected_rover_id s"
  "bs_rover_endpoint (upper s) = bs_rover_endpoint s" "bs_station_id (upper s) = bs_station_id s"
  "bs_application_message_handler (upper s) = bs_application_message_handler s"
  "bs_status_callback (upper s) = bs_status_callback s" "bs_posted (upper s) = bs_posted s"
  by (simp_all add: upper_def)

lemma bs_same_upper:
  assumes "upper t = upper s"
  shows "mm_running t = mm_running s" "mm_message_callback t = mm_message_callback s"
    "bs_session_state t = bs_session_state s" "bs_connected_rover_id t = bs_connected_rover_id s"
    "bs_rover_endpoint t = bs_rover_endpoint s" "bs_station_id t = bs_station_id s"
    "bs_application_message_handler t = bs_application_message_handler s"
    "bs_status_callback t = bs_status_callback s" "bs_posted t = bs_posted s"
  using assms by (metis mm_of_upper bs_of_upper)+

lemmas bs_got_same = same_upper [OF bs_got_upper] bs_same_upper [OF bs_got_upper]

lemma srv_callback_send_packet [simp]:
  "node_ok s \<Longrightarrow> srv_callback (the (server (lp_send_packet p ep s))) = srv_callback (the (server s))"
  by (auto simp: lp_send_packet_def Let_def node_ok_def srv_send_data_def split: ProtocolMode.splits option.splits)

lemma bs_got_out:
  assumes "bs_ready L ep b" and "valid_recipient ep"
  shows "outbox (bs_got L p ep b) = outbox b @ (if lp_session_active b
      then [(packet_to_bytes (control_packet ACK (hdr_sequence (pkt_header p)) (lp_current_sequence b)
               (generate_timestamp b)), ep)] else [])"
    "lp_current_sequence (bs_got L p ep b) = lp_current_sequence b + (if lp_session_active b then 1 else 0)"
    "bs_up (bs_got L p ep b)"
proof -
  have mode: "lp_mode b = MODE_BASE_STATION" and reach: "can_reach b ep"
    using assms by (simp_all add: bs_ready_def bs_up_def can_reach_def)
  have same: "lp_mode (srv_receives ep b) = MODE_BASE_STATION"
    "lp_current_sequence (srv_receives ep b) = lp_current_sequence b"
    "generate_timestamp (buffered L d ep (srv_receives ep b)) = generate_timestamp b" for d
    using mode by (simp_all add: srv_receives_def generate_timestamp_def buffered_def)
  have ts: "generate_timestamp (rm_record_received_sequence L q ep c) = generate_timestamp c" for q and c :: "'a base_station_scheme"
    by (simp add: generate_timestamp_def)
  show "outbox (bs_got L p ep b) = outbox b @ (if lp_session_active b
      then [(packet_to_bytes (control_packet ACK (hdr_sequence (pkt_header p)) (lp_current_sequence b)
               (generate_timestamp b)), ep)] else [])"
    using reach same by (simp add: bs_got_def Let_def lp_send_ack_out ts)
  show "lp_current_sequence (bs_got L p ep b) = lp_current_sequence b + (if lp_session_active b then 1 else 0)"
    using same by (simp add: bs_got_def Let_def lp_send_ack_state)
  have "can_reach (bs_got L p ep b) \<lparr>ep_address = 1, ep_port = 1\<rparr>"
    using same assms by (simp add: bs_got_def Let_def lp_send_ack_state bs_ready_def bs_up_iff)
  then show "bs_up (bs_got L p ep b)"
    using assms by (simp add: bs_up_iff bs_ready_def bs_got_same)
qed

lemma srv_handle_receive_running:
  assumes "server s = Some srv" "srv_running srv" "srv_callback srv"
  shows "srv_handle_receive h (Received data ep) s = srv_listens (h (take SERVER_SOCK_BUF_SIZE data) ep (srv_receives ep s))"
  using assms by (simp add: srv_handle_receive_def srv_listens_def srv_receives_def Let_def)

lemma process_base_fresh:
  assumes "lp_mode s = MODE_BASE_STATION" and "hdr_type (pkt_header p) \<noteq> ACK" "hdr_type (pkt_header p) \<noteq> NAK"
    and "lp_message_callback s" and "\<not> rm_has_acked_sequence L (hdr_sequence (pkt_header p)) ep s"
  shows "lp_process_complete_packet L cb p ep s =
    (let seq = hdr_sequence (pkt_header p); s0 = rm_record_received_sequence L seq ep s
     in cb (pkt_payload p) (pkt_header p) ep (if lp_session_active s then lp_send_ack L seq ep s0 else s0))"
proof (cases "lp_session_active s")
  case True
  then show ?thesis using assms process_base_active [of s p L cb ep] by (simp add: Let_def)
next
  case False
  have "rm_has_acked_sequence L q ep (rm_record_received_sequence L q' ep s) = rm_has_acked_sequence L q ep s" for q q'
    by (simp add: rm_has_acked_sequence_def)
  then show ?thesis using False assms by (simp add: lp_process_complete_packet_def Let_def)
qed

lemma acked_receives [simp]: "rm_has_acked_sequence L q ep (srv_receives ep' s) = rm_has_acked_sequence L q ep s"
  by (simp add: rm_has_acked_sequence_def srv_receives_def)

text \<open>A packet with a message the peer has not sent before reaches the router of the base station.\<close>

lemma bs_receive_message:
  assumes ready: "bs_ready L ep b" and car: "carried L (system_now b) m json"
    and p: "packet_ok p" "pkt_payload p = string_to_binary json"
      "hdr_type (pkt_header p) \<noteq> ACK" "hdr_type (pkt_header p) \<noteq> NAK"
    and fresh: "\<not> rm_has_acked_sequence L (hdr_sequence (pkt_header p)) ep b"
  shows "bs_receive L (Received (packet_to_bytes p) ep) b
         = srv_listens (store_rest L [] ep (bs_route_message L m ep (bs_got L p ep b)))"
proof -
  let ?h = "mm_handle_lumen_message L (bs_app L)"
  let ?r = "srv_receives ep b"
  obtain srv where srv: "server b = Some srv" "srv_running srv" "srv_callback srv"
    using ready by (auto simp: bs_ready_def bs_up_def node_ok_def)
  have r: "lp_running ?r" "lp_frame_buffers ?r (get_endpoint_key L ep) \<in> {None, Some []}"
    "lp_mode ?r = MODE_BASE_STATION" "lp_message_callback ?r" "lp_session_active ?r = lp_session_active b"
    using ready by (simp_all add: bs_ready_def bs_up_def srv_receives_def)
  have "lp_handle_udp_data L ?h (packet_to_bytes p) ep ?r
      = store_rest L [] ep (lp_process_complete_packet L ?h p ep (buffered L (packet_to_bytes p) ep ?r))"
    by (rule handle_udp_data_packet [OF r(1) p(1) r(2)])
  also have "lp_process_complete_packet L ?h p ep (buffered L (packet_to_bytes p) ep ?r)
      = ?h (string_to_binary json) (pkt_header p) ep (bs_got L p ep b)"
    using process_base_fresh [of "buffered L (packet_to_bytes p) ep ?r" p L ep ?h] p r fresh
    by (simp add: bs_got_def Let_def)
  also have "?h (string_to_binary json) (pkt_header p) ep (bs_got L p ep b) = bs_route_message L m ep (bs_got L p ep b)"
    using carried_received [of L "bs_got L p ep b" m json "bs_app L" "pkt_header p" ep] car ready
    by (simp add: bs_got_same bs_ready_def bs_up_def bs_app_def)
  finally show ?thesis
    by (simp add: bs_receive_def srv_handle_receive_running [OF srv] carried_fits(1) [OF car p(1,2)])
qed

text \<open>The router and the socket leave the base station ready for the next packet.\<close>

definition srv_hears :: "'a net_scheme \<Rightarrow> bool" where
  "srv_hears s \<longleftrightarrow> srv_callback (the (server s))"

lemma srv_hears_mm_send: "node_ok s \<Longrightarrow> srv_hears (mm_send_message L m ep s) = srv_hears s"
proof -
  assume ok: "node_ok s"
  have add: "srv_hears (rm_add_send_packet q p e t) = srv_hears t" for q p e and t :: "'a message_manager_scheme"
    by (simp add: srv_hears_def)
  have send: "node_ok t \<Longrightarrow> srv_hears (lp_send_packet p e t) = srv_hears t" for p e and t :: "'a message_manager_scheme"
    by (simp add: srv_hears_def)
  have seq: "srv_hears (t\<lparr>lp_current_sequence := q\<rparr>) = srv_hears t" for q and t :: "'a message_manager_scheme"
    by (simp add: srv_hears_def)
  show ?thesis
    using ok by (simp add: mm_send_message_def lp_send_message_def Let_def add send seq
        split: sum.splits ProtocolMode.splits)
qed

lemma bs_ready_again:
  assumes "bs_up t" "srv_hears t" "lp_message_callback t" "mm_message_callback t"
  shows "bs_ready L ep (srv_listens (store_rest L [] ep t))"
proof -
  have "bs_up (store_rest L [] ep t)"
    using assms(1) by (auto simp: bs_up_def node_ok_def store_rest_def)
  moreover have "srv_callback (the (server (srv_listens (store_rest L [] ep t))))"
    using assms(1,2) by (auto simp: srv_hears_def srv_listens_def store_rest_def bs_up_def node_ok_def)
  ultimately show ?thesis
    using assms by (simp add: bs_ready_def) (simp add: srv_listens_def store_rest_def)
qed

lemma bs_send_command_hears:
  assumes "bs_up s"
  shows "srv_hears (bs_send_command L c p s) = srv_hears s"
    "lp_message_callback (bs_send_command L c p s) = lp_message_callback s"
    "mm_message_callback (bs_send_command L c p s) = mm_message_callback s"
  using assms by (simp_all add: bs_send_command_def Let_def srv_hears_mm_send bs_up_def)

lemma bs_got_hears:
  assumes "bs_ready L ep b"
  shows "srv_hears (bs_got L p ep b)" "lp_message_callback (bs_got L p ep b)" "mm_message_callback (bs_got L p ep b)"
proof -
  have ok: "node_ok b" "lp_mode b = MODE_BASE_STATION" using assms by (simp_all add: bs_ready_def bs_up_def)
  have r: "srv_hears (srv_receives ep b)" "node_ok (srv_receives ep b)"
    using assms ok by (auto simp: bs_ready_def srv_hears_def srv_receives_def node_ok_def)
  have buf: "srv_hears (buffered L d ep c) = srv_hears c"
    "srv_hears (rm_record_received_sequence L q ep c) = srv_hears c"
    "srv_hears (rm_record_acked_sequence L q ep c) = srv_hears c"
    "srv_hears (c\<lparr>lp_current_sequence := n\<rparr>) = srv_hears c" for d q n and c :: "'a base_station_scheme"
    by (simp_all add: srv_hears_def buffered_def)
  have "srv_hears (lp_send_ack L q ep c)" if "srv_hears c" "node_ok c" for q and c :: "'a base_station_scheme"
    using that buf(3,4) by (simp add: lp_send_ack_def Let_def srv_hears_def)
  then show "srv_hears (bs_got L p ep b)" using r buf(1,2) by (simp add: bs_got_def Let_def)
  show "lp_message_callback (bs_got L p ep b)" "mm_message_callback (bs_got L p ep b)"
    using assms by (simp_all add: bs_got_same bs_ready_def)
qed

subsection \<open>A packet at the rover\<close>

definition cl_receives :: "endpoint \<Rightarrow> 'a net_scheme \<Rightarrow> 'a net_scheme" where
  "cl_receives from s = s\<lparr>client := map_option (\<lambda>c. c\<lparr>cl_receiving := False, cl_sender := from\<rparr>) (client s)\<rparr>"

definition cl_listens :: "'a net_scheme \<Rightarrow> 'a net_scheme" where
  "cl_listens s = s\<lparr>client := map_option cl_do_receive (client s)\<rparr>"

definition cl_hears :: "'a net_scheme \<Rightarrow> bool" where
  "cl_hears s \<longleftrightarrow> cl_running (the (client s)) \<and> cl_callback (the (client s))"

definition rv_ready :: "lib \<Rightarrow> endpoint \<Rightarrow> 'a rover_scheme \<Rightarrow> bool" where
  "rv_ready L base s \<longleftrightarrow> rv_up base s \<and> cl_hears s \<and> lp_message_callback s \<and>
     mm_message_callback s \<and> lp_frame_buffers s (get_endpoint_key L base) \<in> {None, Some []}"

lemma cl_do_receive_keeps [simp]:
  "cl_out (cl_do_receive c) = cl_out c" "cl_base (cl_do_receive c) = cl_base c"
  "cl_running (cl_do_receive c) = cl_running c" "cl_callback (cl_do_receive c) = cl_callback c"
  by (simp_all add: cl_do_receive_def)

lemma cl_handle_receive_running:
  assumes "client s = Some c" "cl_running c" "cl_callback c"
  shows "cl_handle_receive h (Received data ep) s = cl_listens (h (take CLIENT_SOCK_BUF_SIZE data) ep (cl_receives ep s))"
  using assms by (simp add: cl_handle_receive_def cl_listens_def cl_receives_def Let_def)

lemma upper_cl_socket [simp]: "upper (cl_receives ep s) = upper s" "upper (cl_listens s) = upper s"
  by (simp_all add: cl_receives_def cl_listens_def)

lemma cl_socket_base [simp]:
  "client_base_endpoint (cl_receives ep s) = client_base_endpoint s"
  "client_base_endpoint (cl_listens s) = client_base_endpoint s"
  by (auto simp: client_base_endpoint_def cl_receives_def cl_listens_def cl_get_base_endpoint_def split: option.splits)

lemma cl_socket_keeps [simp]:
  "can_reach (cl_receives ep t) ep' = can_reach t ep'" "can_reach (cl_listens t) ep' = can_reach t ep'"
  by (auto simp: node_ok_def can_reach_def cl_receives_def cl_listens_def
      split: ProtocolMode.splits option.splits)

lemma outbox_cl_socket [simp]: "outbox (cl_receives ep s) = outbox s" "outbox (cl_listens s) = outbox s"
  by (auto simp: outbox_def cl_receives_def cl_listens_def split: option.splits)

lemma rv_up_cl_socket [simp]:
  "rv_up base (cl_receives ep s) = rv_up base s" "rv_up base (cl_listens s) = rv_up base s"
proof -
  have "mm_running (cl_receives ep s) = mm_running s" "mm_running (cl_listens s) = mm_running s"
    by (simp_all add: cl_receives_def cl_listens_def)
  then show "rv_up base (cl_receives ep s) = rv_up base s" "rv_up base (cl_listens s) = rv_up base s"
    using same_upper(1-3) [OF upper_cl_socket(1), of ep s] same_upper(1-3) [OF upper_cl_socket(2), of s]
    by (simp_all add: rv_up_def)
qed

text \<open>The state in which the rover's router sees the message of a packet, when no gap check is due.\<close>

definition rv_got :: "lib \<Rightarrow> lumen_packet \<Rightarrow> endpoint \<Rightarrow> 'a rover_scheme \<Rightarrow> 'a rover_scheme" where
  "rv_got L p ep s =
     (rm_record_received_sequence L (hdr_sequence (pkt_header p)) ep
        (buffered L (packet_to_bytes p) ep (cl_receives ep s)))\<lparr>lp_check_counter := lp_check_counter s + 1\<rparr>"

lemma rv_got_upper [simp]: "upper (rv_got L p ep s) = upper s"
  by (simp add: rv_got_def)

lemmas rv_got_same = same_upper [OF rv_got_upper] rv_same_upper [OF rv_got_upper]

lemma rv_got_keeps [simp]:
  "outbox (rv_got L p ep s) = outbox s" "lp_current_sequence (rv_got L p ep s) = lp_current_sequence s"
  "rv_up base (rv_got L p ep s) = rv_up base s" "lp_check_counter (rv_got L p ep s) = lp_check_counter s + 1"
  "cl_hears (rv_got L p ep s) = cl_hears s"
proof -
  have o: "outbox (s\<lparr>lp_check_counter := n\<rparr>) = outbox s" for n and s :: "'a rover_scheme"
    by (rule outbox_cong) simp_all
  show "outbox (rv_got L p ep s) = outbox s" by (simp add: rv_got_def)
  show "lp_current_sequence (rv_got L p ep s) = lp_current_sequence s"
    "lp_check_counter (rv_got L p ep s) = lp_check_counter s + 1"
    by (simp_all add: rv_got_def cl_receives_def)
  have "client_base_endpoint (rv_got L p ep s) = client_base_endpoint (cl_receives ep s)"
    by (rule client_base_endpoint_cong) (simp add: rv_got_def buffered_def)
  moreover have "can_reach (rv_got L p ep s) base = can_reach s base" by (simp add: rv_got_def)
  ultimately show "rv_up base (rv_got L p ep s) = rv_up base s"
    by (simp add: rv_up_def rv_got_same)
  show "cl_hears (rv_got L p ep s) = cl_hears s"
    by (cases "client s") (simp_all add: cl_hears_def rv_got_def buffered_def cl_receives_def)
qed

lemma process_rover_quiet:
  assumes "lp_mode s = MODE_ROVER" and "hdr_type (pkt_header p) \<noteq> ACK" "hdr_type (pkt_header p) \<noteq> NAK"
    and "lp_message_callback s" and "(lp_check_counter s + 1) mod 5 \<noteq> 0"
  shows "lp_process_complete_packet L cb p ep s =
    cb (pkt_payload p) (pkt_header p) ep
      ((rm_record_received_sequence L (hdr_sequence (pkt_header p)) ep s)\<lparr>lp_check_counter := lp_check_counter s + 1\<rparr>)"
  using assms by (simp add: lp_process_complete_packet_def Let_def)

lemma rv_receive_running:
  assumes "rv_ready L base s" and "packet_ok p" and "take CLIENT_SOCK_BUF_SIZE (packet_to_bytes p) = packet_to_bytes p"
  shows "rv_receive L (Received (packet_to_bytes p) base) s
         = cl_listens (store_rest L [] base
             (lp_process_complete_packet L (mm_handle_lumen_message L (rv_route_message L)) p base
               (buffered L (packet_to_bytes p) base (cl_receives base s))))"
proof -
  let ?r = "cl_receives base s"
  obtain c where c: "client s = Some c" "cl_running c" "cl_callback c"
    using assms(1) by (auto simp: rv_ready_def rv_up_def cl_hears_def can_reach_def node_ok_def)
  have r: "lp_running ?r" "lp_frame_buffers ?r (get_endpoint_key L base) \<in> {None, Some []}"
    using assms(1) by (simp_all add: rv_ready_def rv_up_def cl_receives_def)
  show ?thesis
    by (simp add: rv_receive_def cl_handle_receive_running [OF c] assms(3) handle_udp_data_packet [OF r(1) assms(2) r(2)])
qed

lemma rv_receive_message:
  assumes ready: "rv_ready L base s" and car: "carried L (system_now s) m json"
    and p: "packet_ok p" "pkt_payload p = string_to_binary json"
      "hdr_type (pkt_header p) \<noteq> ACK" "hdr_type (pkt_header p) \<noteq> NAK"
    and quiet: "(lp_check_counter s + 1) mod 5 \<noteq> 0"
  shows "rv_receive L (Received (packet_to_bytes p) base) s
         = cl_listens (store_rest L [] base (state_of (rv_route_message L m base (rv_got L p base s))))"
proof -
  let ?h = "mm_handle_lumen_message L (rv_route_message L)"
  let ?b = "buffered L (packet_to_bytes p) base (cl_receives base s)"
  have b: "lp_mode ?b = MODE_ROVER" "lp_message_callback ?b" "lp_check_counter ?b = lp_check_counter s"
    using ready by (simp_all add: rv_ready_def rv_up_def cl_receives_def buffered_def)
  have "lp_process_complete_packet L ?h p base ?b = ?h (string_to_binary json) (pkt_header p) base (rv_got L p base s)"
    using process_rover_quiet [of ?b p L ?h base] b p quiet by (simp add: rv_got_def)
  also have "\<dots> = state_of (rv_route_message L m base (rv_got L p base s))"
    using carried_received [of L "rv_got L p base s" m json] car ready
    by (simp add: rv_got_same rv_ready_def rv_up_def)
  finally show ?thesis by (simp add: rv_receive_running [OF ready p(1) carried_fits(2) [OF car p(1,2)]])
qed

lemma rv_receive_ack:
  assumes ready: "rv_ready L base s"
    and s': "s' = rv_receive L (Received (packet_to_bytes (control_packet ACK q seq ts)) base) s"
  shows "map_of (rm_sent_packets s') = (map_of (rm_sent_packets s))(q := None)"
    "outbox s' = outbox s" "upper s' = upper s"
proof -
  let ?p = "control_packet ACK q seq ts"
  let ?b = "buffered L (packet_to_bytes ?p) base (cl_receives base s)"
  let ?r = "rm_record_received_sequence L seq base ?b"
  have up: "rv_up base s" using ready by (simp add: rv_ready_def)
  have b: "lp_mode ?b = MODE_ROVER" "rm_running ?r" "rm_role ?r = ROVER" "rm_sent_packets ?r = rm_sent_packets s"
    using up by (auto simp: rv_up_def cl_receives_def buffered_def can_reach_def node_ok_def)
  have eq: "s' = cl_listens (store_rest L [] base (rm_process_ack q ?r))"
    using s' rv_receive_running [OF ready, of ?p] process_ack_packet [of ?p q ?b L] b(1) by simp
  have "rm_sent_packets s' = rm_sent_packets (rm_process_ack q ?r)" by (simp add: eq cl_listens_def store_rest_def)
  then show "map_of (rm_sent_packets s') = (map_of (rm_sent_packets s))(q := None)"
    using rm_process_ack_sent [OF b(2,3), of q] b(4) by simp
  show "outbox s' = outbox s" "upper s' = upper s" by (simp_all add: eq)
qed

lemma cl_hears_send_packet: "node_ok s \<Longrightarrow> cl_hears (lp_send_packet p ep s) = cl_hears s"
  by (auto simp: cl_hears_def lp_send_packet_def Let_def node_ok_def cl_send_data_to_def cl_send_data_def
      split: ProtocolMode.splits option.splits)

lemma cl_hears_send_message: "node_ok s \<Longrightarrow> cl_hears (state_of (lp_send_message pl ty pr ep s)) = cl_hears s"
proof -
  assume ok: "node_ok s"
  have "cl_hears (rm_add_send_packet q p e t) = cl_hears t" "cl_hears (t\<lparr>lp_current_sequence := q\<rparr>) = cl_hears t"
    for q p e and t :: "'a lumen_protocol_scheme" by (simp_all add: cl_hears_def)
  then show ?thesis
    using ok by (simp add: lp_send_message_def Let_def cl_hears_send_packet
        split: sum.splits ProtocolMode.splits)
qed

lemma cl_hears_mm_send: "node_ok s \<Longrightarrow> cl_hears (mm_send_message L m ep s) = cl_hears s"
  by (simp add: mm_send_message_def cl_hears_send_message split: sum.splits)

lemma rv_up_node: "rv_up base s \<Longrightarrow> node_ok s"
  by (simp add: rv_up_def can_reach_def)

lemma rv_ready_mm_send: "rv_ready L base (mm_send_message L' m ep s) = rv_ready L base s"
  using cl_hears_mm_send [of s L' m ep] by (auto simp: rv_ready_def dest: rv_up_node)

text \<open>What the status callback is given.\<close>

definition status_update :: "'a base_station_scheme \<Rightarrow> message \<Rightarrow> base_task list" where
  "status_update b m = (if bs_status_callback b then
     (case m of
        StatusMessage level description sender_id ts \<Rightarrow>
          [BaseStatusUpdate sender_id (smap_assign ''status_level'' (level_number level) [])]
      | TelemetryMessage readings sender_id ts \<Rightarrow> [BaseStatusUpdate sender_id readings]
      | _ \<Rightarrow> []) else [])"

lemma bs_route_posts:
  assumes "bs_session_state b = B_ACTIVE" "bs_connected_rover_id b = msg_sender m" "bs_rover_endpoint b = ep"
    and "bs_application_message_handler b"
    and "\<forall>c p i t. m = CommandMessage c p i t \<longrightarrow> c \<noteq> ''SESSION_INIT'' \<and> c \<noteq> ''SESSION_CONFIRM''"
  shows "bs_route_message L m ep b = b\<lparr>bs_posted := bs_posted b @ status_update b m @ [BaseAppMessage m ep]\<rparr>"
  using assms
  by (cases m) (simp_all add: bs_route_message_def bs_allow_message_def status_update_def Let_def
      bs_handle_internal_status_def bs_handle_internal_telemetry_def)

lemma outbox_bs_posted [simp]: "outbox (b\<lparr>bs_posted := x\<rparr>) = outbox b"
  by (rule outbox_cong) simp_all

lemma active_send:
  assumes "rv_up base s" "rv_session_state s = R_ACTIVE" "\<not> rv_low_power_mode s"
  shows "rv_send_message L m base s = mm_send_message L m base s"
  using assms by (simp add: rv_send_message_def Let_def rv_get_base_endpoint_def rv_up_def rv_is_low_power_mode_def)

lemma mm_send_tracked:
  assumes "rv_up base s" "serialise L m = Inr json" "map_of (rm_sent_packets s) (lp_current_sequence s) = None"
  shows "map_of (rm_sent_packets (mm_send_message L m base s)) =
    (map_of (rm_sent_packets s))(lp_current_sequence s \<mapsto>
       \<lparr>sp_packet = message_packet (string_to_binary json) (get_lumen_type m) (get_lumen_priority m) s,
        sp_sent_time = steady_now s, sp_retry_count = 0, sp_recipient = base\<rparr>)"
  using assms rv_up_specified [OF assms(1)]
  by (simp add: mm_send_message_eq rv_up_def Let_def rm_add_send_packet_def sm.find_emplace)

lemma get_lumen_type_data [simp]: "get_lumen_type m \<noteq> ACK" "get_lumen_type m \<noteq> NAK"
  by (cases m; simp)+

lemma bs_got_acked:
  assumes "bs_ready L ep b" "lp_session_active b"
  shows "rm_has_acked_sequence L (hdr_sequence (pkt_header p)) ep (bs_got L p ep b)"
proof -
  let ?c = "rm_record_received_sequence L (hdr_sequence (pkt_header p)) ep
      (buffered L (packet_to_bytes p) ep (srv_receives ep b))"
  have "rm_role ?c = BASE_STATION" "lp_mode ?c = MODE_BASE_STATION"
    using assms(1) by (auto simp: bs_ready_def bs_up_def node_ok_def srv_receives_def buffered_def)
  then show ?thesis
    using assms(2) led.acked_self [of ?c L] by (simp add: bs_got_def Let_def lp_send_ack_state)
qed

subsection \<open>Session commands leave the nodes able to go on\<close>

definition rv_live :: "endpoint \<Rightarrow> 'a rover_scheme \<Rightarrow> bool" where
  "rv_live base s \<longleftrightarrow> rv_up base s \<and> cl_hears s \<and> lp_message_callback s \<and> mm_message_callback s"

lemma rv_ready_live: "rv_ready L base s \<longleftrightarrow>
    rv_live base s \<and> lp_frame_buffers s (get_endpoint_key L base) \<in> {None, Some []}"
  by (auto simp: rv_ready_def rv_live_def)

lemma rv_live_rv [simp]:
  "rv_live base (s\<lparr>rv_session_state := x0\<rparr>) = rv_live base s"
  "rv_live base (s\<lparr>rv_handshake_retry_count := x1\<rparr>) = rv_live base s"
  "rv_live base (s\<lparr>rv_handshake_timer := x2\<rparr>) = rv_live base s"
  "rv_live base (s\<lparr>rv_probe_timer := x3\<rparr>) = rv_live base s"
  "rv_live base (s\<lparr>rv_posted := x4\<rparr>) = rv_live base s"
  by (simp_all add: rv_live_def cl_hears_def)

lemma rv_live_send_command [simp]: "rv_live base (rv_send_command L c p s) = rv_live base s"
proof -
  have "rv_live base (mm_send_message L m ep s) = rv_live base s" for m ep
    using cl_hears_mm_send [of s L m ep] by (auto simp: rv_live_def dest: rv_up_node)
  then show ?thesis by (simp add: rv_send_command_def Let_def split: sum.splits)
qed

lemma rv_live_got [simp]: "rv_live base (rv_got L p ep s) = rv_live base s"
  by (simp add: rv_live_def rv_got_same)

lemma rv_ready_again: "rv_live base t \<Longrightarrow> rv_ready L base (cl_listens (store_rest L [] base t))"
proof -
  assume t: "rv_live base t"
  have "client_base_endpoint (store_rest L [] base t) = client_base_endpoint t"
    by (rule client_base_endpoint_cong) (simp add: store_rest_def)
  moreover have "mm_running (store_rest L [] base t) = mm_running t" by (simp add: store_rest_def)
  ultimately have "rv_up base (store_rest L [] base t)" using t by (simp add: rv_live_def rv_up_def)
  moreover have "cl_hears (cl_listens (store_rest L [] base t))"
    using t rv_up_node [of base t]
    by (auto simp: rv_live_def rv_up_def cl_hears_def cl_listens_def store_rest_def node_ok_def)
  ultimately show ?thesis
    using t by (simp add: rv_ready_def rv_live_def) (simp add: cl_listens_def store_rest_def)
qed

lemma check_counter_keeps:
  "lp_check_counter (mm_send_message L m ep s) = lp_check_counter s"
  "lp_check_counter (rv_send_command L c p r) = lp_check_counter r"
proof -
  show mm: "lp_check_counter (mm_send_message L m ep s) = lp_check_counter s" for m ep and s :: "'c message_manager_scheme"
    by (simp add: mm_send_message_def lp_send_message_def Let_def rm_add_send_packet_def
        split: sum.splits ProtocolMode.splits)
  show "lp_check_counter (rv_send_command L c p r) = lp_check_counter r"
    by (simp add: rv_send_command_def Let_def mm split: sum.splits)
qed

lemma session_handlers_live:
  "rv_live base (rv_initiate_handshake L s) = rv_live base s"
  "rv_live base (rv_handle_session_accept L s) = rv_live base s"
  "lp_frame_buffers (rv_initiate_handshake L s) = lp_frame_buffers s"
  "lp_check_counter (rv_initiate_handshake L s) = lp_check_counter s"
  "lp_check_counter (rv_handle_session_accept L s) = lp_check_counter s"
  by (simp_all add: rv_initiate_handshake_def rv_handle_session_accept_def Let_def check_counter_keeps)

text \<open>What the session layer of the rover puts on the wire is a packet with the command.\<close>

lemma command_datagram_fields:
  assumes "carried L now m json"
  shows "fst (command_datagram json ep s) = packet_to_bytes (message_packet (string_to_binary json) CMD HIGH s)"
    "packet_ok (message_packet (string_to_binary json) CMD HIGH s)"
  using carried_packet_ok [OF assms] by (simp_all add: command_datagram_def)

text \<open>A session command at the base station: the router runs in \<open>bs_got\<close>.\<close>

lemma bs_receive_command:
  assumes "bs_ready L ep b" and "carried L (system_now b) m json"
    and "\<not> rm_has_acked_sequence L (lp_current_sequence s) ep b"
  shows "bs_receive L (Received (fst (command_datagram json ep' s)) ep) b
         = srv_listens (store_rest L [] ep (bs_route_message L m ep
             (bs_got L (message_packet (string_to_binary json) CMD HIGH s) ep b)))"
  using bs_receive_message [OF assms(1,2), of "message_packet (string_to_binary json) CMD HIGH s"] assms(2,3)
  by (simp add: command_datagram_fields)

lemma rv_receive_command:
  assumes "rv_ready L base s" and "carried L (system_now s) m json"
    and "(lp_check_counter s + 1) mod 5 \<noteq> 0"
  shows "rv_receive L (Received (fst (command_datagram json ep' b)) base) s
         = cl_listens (store_rest L [] base (state_of (rv_route_message L m base
             (rv_got L (message_packet (string_to_binary json) CMD HIGH b) base s))))"
  using rv_receive_message [OF assms(1,2), of "message_packet (string_to_binary json) CMD HIGH b"] assms(2,3)
  by (simp add: command_datagram_fields)

lemma bs_live_updates [simp]:
  "srv_hears (lp_set_session_active x s) = srv_hears s"
  "srv_hears (s\<lparr>bs_session_state := y\<rparr>) = srv_hears s"
  "srv_hears (s\<lparr>bs_session_state := y, bs_connected_rover_id := i, bs_rover_endpoint := ep\<rparr>) = srv_hears s"
  "mm_message_callback (lp_set_session_active x m) = mm_message_callback m"
  by (simp_all add: srv_hears_def lp_set_session_active_def)

lemma bs_session_handlers_hear:
  assumes "bs_up s" "srv_hears s" "lp_message_callback s" "mm_message_callback s"
  shows "srv_hears (bs_handle_session_init L i ep s) \<and> lp_message_callback (bs_handle_session_init L i ep s)
      \<and> mm_message_callback (bs_handle_session_init L i ep s)"
    "srv_hears (bs_handle_session_confirm L i ep s) \<and> lp_message_callback (bs_handle_session_confirm L i ep s)
      \<and> mm_message_callback (bs_handle_session_confirm L i ep s)"
  using assms
  by (simp_all add: bs_handle_session_init_eq bs_handle_session_confirm_def Let_def bs_send_command_hears)

lemma acked_mm_send: "rm_acked_sequences (mm_send_message L m ep s) = rm_acked_sequences s"
  by (simp add: mm_send_message_def lp_send_message_def Let_def rm_add_send_packet_def
      split: sum.splits ProtocolMode.splits)

lemma acked_session_init:
  "rm_acked_sequences (bs_handle_session_init L i ep s) = rm_acked_sequences s"
  by (simp add: bs_handle_session_init_eq bs_send_command_def Let_def acked_mm_send lp_set_session_active_def)

lemma acked_got_inactive:
  "\<not> lp_session_active b \<Longrightarrow> rm_acked_sequences (bs_got L p ep b) = rm_acked_sequences b"
  by (simp add: bs_got_def Let_def buffered_def srv_receives_def)

text \<open>The first half of the handshake at the base station.\<close>

lemma bs_receive_init:
  assumes ready: "bs_ready L ep b" and ep: "valid_recipient ep"
    and free: "bs_session_state b = B_INACTIVE" "bs_connected_rover_id b = []" "\<not> lp_session_active b"
    and init: "carried L (system_now b) (CommandMessage ''SESSION_INIT'' p rid t) json"
    and fresh: "\<not> rm_has_acked_sequence L (lp_current_sequence s) ep b"
    and acc: "serialise L (CommandMessage ''SESSION_ACCEPT'' (bs_station_id b) (bs_station_id b)
                 (system_now b)) = Inr accept"
    and b1: "b1 = bs_receive L (Received (fst (command_datagram json ep' s)) ep) b"
  shows "bs_ready L ep b1" "bs_session_state b1 = B_HANDSHAKE_ACCEPT" "bs_connected_rover_id b1 = rid"
    "bs_rover_endpoint b1 = ep" "\<not> lp_session_active b1" "bs_station_id b1 = bs_station_id b"
    "system_now b1 = system_now b" "outbox b1 = outbox b @ [command_datagram accept ep b]"
    "rm_has_acked_sequence L q ep b1 = rm_has_acked_sequence L q ep b"
    "lp_current_sequence b1 = lp_current_sequence b + 1"
proof -
  define g where "g = bs_got L (message_packet (string_to_binary json) CMD HIGH s) ep b"
  define t where "t = bs_handle_session_init L rid ep g"
  have eq: "b1 = srv_listens (store_rest L [] ep t)"
    using bs_receive_command [OF ready init fresh] b1
    by (simp add: g_def t_def bs_route_message_def bs_handle_internal_command_def)
  note got = bs_got_out [OF ready ep] and hears = bs_got_hears [OF ready]
  have g: "bs_up g" "bs_session_state g = B_INACTIVE" "bs_connected_rover_id g = []"
    "serialise L (CommandMessage ''SESSION_ACCEPT'' (bs_station_id g) (bs_station_id g) (system_now g)) = Inr accept"
    "outbox g = outbox b" "lp_current_sequence g = lp_current_sequence b" "system_now g = system_now b"
    "lp_session_active g = lp_session_active b" "bs_station_id g = bs_station_id b"
    using got free acc by (simp_all add: g_def bs_got_same)
  note new = bs_session_init_new [OF g(1) ep g(2-4) t_def]
  have "srv_hears t \<and> lp_message_callback t \<and> mm_message_callback t"
    unfolding t_def by (rule bs_session_handlers_hear(1) [OF g(1)]) (simp_all add: g_def hears)
  then show "bs_ready L ep b1" using new(4) by (simp add: eq bs_ready_again)
  have keep: "bs_session_state b1 = bs_session_state t" "bs_connected_rover_id b1 = bs_connected_rover_id t"
    "bs_rover_endpoint b1 = bs_rover_endpoint t" "lp_session_active b1 = lp_session_active t"
    "bs_station_id b1 = bs_station_id t" "system_now b1 = system_now t" "rm_acked_sequences b1 = rm_acked_sequences t"
    "rm_role b1 = rm_role t" "lp_current_sequence b1 = lp_current_sequence t"
    by (simp_all add: eq srv_listens_def store_rest_def)
  show "bs_session_state b1 = B_HANDSHAKE_ACCEPT" "bs_connected_rover_id b1 = rid"
    "bs_rover_endpoint b1 = ep" "\<not> lp_session_active b1" "bs_station_id b1 = bs_station_id b"
    "system_now b1 = system_now b" "lp_current_sequence b1 = lp_current_sequence b + 1"
    using new g(6-9) free(3) by (simp_all add: keep)
  show "outbox b1 = outbox b @ [command_datagram accept ep b]"
    using new(8) g(5-7) by (simp add: eq command_datagram_cong [of g b])
  have "rm_role t = BASE_STATION" "rm_role b = BASE_STATION"
    using new(4) ready by (auto simp: bs_ready_def bs_up_def node_ok_def)
  moreover have "rm_acked_sequences t = rm_acked_sequences b"
    using free(3) by (simp add: t_def acked_session_init g_def acked_got_inactive)
  ultimately show "rm_has_acked_sequence L q ep b1 = rm_has_acked_sequence L q ep b"
    by (simp add: rm_has_acked_sequence_def keep)
qed

lemma bs_receive_confirm:
  assumes ready: "bs_ready L ep b" and ep: "valid_recipient ep"
    and hs: "bs_session_state b = B_HANDSHAKE_ACCEPT" "bs_connected_rover_id b = rid"
      "bs_rover_endpoint b = ep" "\<not> lp_session_active b"
    and confirm: "carried L (system_now b) (CommandMessage ''SESSION_CONFIRM'' p rid t) json"
    and fresh: "\<not> rm_has_acked_sequence L (lp_current_sequence s) ep b"
    and est: "serialise L (CommandMessage ''SESSION_ESTABLISHED'' (bs_station_id b) (bs_station_id b)
                 (system_now b)) = Inr established"
    and b1: "b1 = bs_receive L (Received (fst (command_datagram json ep' s)) ep) b"
  shows "bs_session_state b1 = B_ACTIVE" "bs_connected_rover_id b1 = rid" "bs_rover_endpoint b1 = ep"
    "lp_session_active b1" "outbox b1 = outbox b @ [command_datagram established ep b]"
proof -
  define g where "g = bs_got L (message_packet (string_to_binary json) CMD HIGH s) ep b"
  define t where "t = bs_handle_session_confirm L rid ep g"
  have eq: "b1 = srv_listens (store_rest L [] ep t)"
    using bs_receive_command [OF ready confirm fresh] b1
    by (simp add: g_def t_def bs_route_message_def bs_handle_internal_command_def)
  note got = bs_got_out [OF ready ep]
  have g: "bs_up g" "bs_session_state g = B_HANDSHAKE_ACCEPT" "bs_connected_rover_id g = rid"
    "bs_rover_endpoint g = ep"
    "serialise L (CommandMessage ''SESSION_ESTABLISHED'' (bs_station_id g) (bs_station_id g) (system_now g)) = Inr established"
    "outbox g = outbox b" "lp_current_sequence g = lp_current_sequence b" "system_now g = system_now b"
    using got hs est by (simp_all add: g_def bs_got_same)
  note ok = bs_session_confirm_ok [OF g(1) ep g(2-5) t_def]
  show "bs_session_state b1 = B_ACTIVE" "bs_connected_rover_id b1 = rid" "bs_rover_endpoint b1 = ep"
    "lp_session_active b1"
    using ok by (simp_all add: eq srv_listens_def store_rest_def)
  show "outbox b1 = outbox b @ [command_datagram established ep b]"
    using ok(6) g(6-8) by (simp add: eq command_datagram_cong [of g b])
qed

text \<open>The two answers of the base station at the rover.\<close>

lemma rv_receive_accept:
  assumes ready: "rv_ready L base s" and st: "rv_session_state s = R_HANDSHAKE_INIT"
    and acc: "carried L (system_now s) (CommandMessage ''SESSION_ACCEPT'' p station t) json"
    and other: "station \<noteq> rv_rover_id s" and quiet: "(lp_check_counter s + 1) mod 5 \<noteq> 0"
    and conf: "serialise L (CommandMessage ''SESSION_CONFIRM'' (rv_rover_id s) (rv_rover_id s) (system_now s)) = Inr confirm"
    and s1: "s1 = rv_receive L (Received (fst (command_datagram json ep' b)) base) s"
  shows "rv_ready L base s1" "rv_session_state s1 = R_HANDSHAKE_ACCEPT" "rv_rover_id s1 = rv_rover_id s"
    "outbox s1 = outbox s @ [command_datagram confirm base s]" "rv_stored_packets s1 = rv_stored_packets s"
    "rv_low_power_mode s1 = rv_low_power_mode s" "status_report s1 = status_report s"
    "position_report s1 = position_report s" "system_now s1 = system_now s"
    "lp_check_counter s1 = lp_check_counter s + 1" "lp_current_sequence s1 = lp_current_sequence s + 1"
proof -
  define g where "g = rv_got L (message_packet (string_to_binary json) CMD HIGH b) base s"
  define t' where "t' = rv_handle_session_accept L g"
  have live: "rv_live base s" using ready by (simp add: rv_ready_live)
  have g: "rv_up base g" "rv_session_state g = R_HANDSHAKE_INIT" "rv_rover_id g = rv_rover_id s"
    "system_now g = system_now s" "outbox g = outbox s" "lp_current_sequence g = lp_current_sequence s"
    "rv_stored_packets g = rv_stored_packets s" "rv_low_power_mode g = rv_low_power_mode s"
    "status_report g = status_report s" "position_report g = position_report s"
    "lp_check_counter g = lp_check_counter s + 1" "rv_live base g"
    using live st
    by (simp_all add: g_def rv_got_same status_report_def position_report_def, simp_all add: rv_live_def)
  have eq: "s1 = cl_listens (store_rest L [] base t')"
    using rv_receive_command [OF ready acc quiet, of ep' b] s1 rv_route_accept [OF g(1), of station L p t] other g(3)
    by (simp add: t'_def flip: g_def)
  have conf': "serialise L (CommandMessage ''SESSION_CONFIRM'' (rv_rover_id g) (rv_rover_id g) (system_now g)) = Inr confirm"
    using conf g by simp
  note out = session_accept_out [OF g(1) disjI1 [OF g(2)] conf' t'_def]
  show "rv_ready L base s1" unfolding eq
    by (rule rv_ready_again) (simp add: t'_def session_handlers_live g(12))
  have up: "upper s1 = upper t'" by (simp add: eq)
  note same = same_upper [OF up] rv_same_upper [OF up]
  show "rv_session_state s1 = R_HANDSHAKE_ACCEPT" "rv_rover_id s1 = rv_rover_id s"
    "rv_stored_packets s1 = rv_stored_packets s" "rv_low_power_mode s1 = rv_low_power_mode s"
    "system_now s1 = system_now s"
    using out g by (simp_all add: same)
  have "status_report s1 = status_report t'" "position_report s1 = position_report t'"
    by (simp_all add: status_report_def position_report_def same)
  then show "status_report s1 = status_report s" "position_report s1 = position_report s" using out g by simp_all
  show "outbox s1 = outbox s @ [command_datagram confirm base s]"
    using out(4) g by (simp add: eq command_datagram_cong [of g s])
  have "lp_check_counter s1 = lp_check_counter t'" "lp_current_sequence s1 = lp_current_sequence t'"
    by (simp_all add: eq cl_listens_def store_rest_def)
  then show "lp_check_counter s1 = lp_check_counter s + 1" "lp_current_sequence s1 = lp_current_sequence s + 1"
    using out(7) g by (simp_all add: t'_def session_handlers_live)
qed

lemma rv_receive_established:
  assumes ready: "rv_ready L base s" and st: "rv_session_state s \<noteq> R_ACTIVE" and lp: "\<not> rv_low_power_mode s"
    and est: "carried L (system_now s) (CommandMessage ''SESSION_ESTABLISHED'' p station t) json"
    and other: "station \<noteq> rv_rover_id s" and quiet: "(lp_check_counter s + 1) mod 5 \<noteq> 0"
    and stored: "\<forall>p \<in> set (rv_stored_packets s). stored_ok p"
    and reports: "serialise L (status_report s) = Inr js" "serialise L (position_report s) = Inr jp"
    and s1: "s1 = rv_receive L (Received (fst (command_datagram json ep' b)) base) s"
  shows "rv_session_state s1 = R_ACTIVE" "rv_stored_packets s1 = []"
proof -
  define g where "g = rv_got L (message_packet (string_to_binary json) CMD HIGH b) base s"
  define t' where "t' = rv_handle_session_established L g"
  have g: "rv_up base g" "rv_session_state g \<noteq> R_ACTIVE" "\<not> rv_low_power_mode g" "rv_rover_id g = rv_rover_id s"
    "\<forall>p \<in> set (rv_stored_packets g). stored_ok p" "serialise L (status_report g) = Inr js"
    "serialise L (position_report g) = Inr jp"
    using ready st lp stored reports
    by (simp_all add: g_def rv_got_same status_report_def position_report_def rv_ready_def)
  have eq: "s1 = cl_listens (store_rest L [] base t')"
    using rv_receive_command [OF ready est quiet, of ep' b] s1 rv_route_established [OF g(1), of station L p t] other g(4)
    by (simp add: t'_def flip: g_def)
  have "rv_session_state t' = R_ACTIVE \<and> rv_stored_packets t' = []"
    using session_established_out [OF g(1-3,5-7) t'_def] by blast
  then show "rv_session_state s1 = R_ACTIVE" "rv_stored_packets s1 = []"
    by (simp_all add: eq cl_listens_def store_rest_def)
qed

subsection \<open>Application commands of the base station\<close>

lemma getline_loop_end: "CHR '','' \<notin> set cs \<Longrightarrow> getline_loop seg cs = (if seg @ cs = [] then [] else [seg @ cs])"
  by (induction cs arbitrary: seg) auto

lemma getline_loop_comma:
  "CHR '','' \<notin> set cs \<Longrightarrow> getline_loop seg (cs @ '','' @ rest) = (seg @ cs) # getline_loop [] rest"
  by (induction cs arbitrary: seg) auto

text \<open>The parameter text of \<open>SET_TARGET_COORD\<close> has two segments.\<close>

lemma getline_segments_pair:
  "CHR '','' \<notin> set a \<Longrightarrow> CHR '','' \<notin> set b \<Longrightarrow> b \<noteq> [] \<Longrightarrow> getline_segments (a @ '','' @ b) = [a, b]"
  by (simp add: getline_segments_def getline_loop_end getline_loop_comma del: append_Cons)

text \<open>
  What the command relies on: the printed coordinates have no comma, and \<open>stod\<close> reads them as the
  numbers they were rounded to.
\<close>

definition coordinate_text :: "lib \<Rightarrow> real \<Rightarrow> real \<Rightarrow> bool" where
  "coordinate_text L x x' \<longleftrightarrow> CHR '','' \<notin> set (fixed6 L x) \<and> fixed6 L x \<noteq> [] \<and> stod L (fixed6 L x) = Some x'"

lemma parse_coords_target:
  assumes "coordinate_text L x x'" "coordinate_text L y y'"
  shows "parse_coords L (getline_segments (fixed6 L x @ '','' @ fixed6 L y)) [] = [x', y']"
  using assms getline_segments_pair [of "fixed6 L x" "fixed6 L y"] by (simp add: coordinate_text_def)

lemma carried_printed:
  assumes "carried L now m json" "json_dump_indented L (to_json L m) = Some text"
  shows "printed L m = Inr text"
  using assms by (simp add: carried_def printed_def pretty_print_def)

lemma rv_route_target:
  assumes "rv_up base s" "station \<noteq> rv_rover_id s" "coordinate_text L x x'" "coordinate_text L y y'"
    and "m = CommandMessage ''SET_TARGET_COORD'' (fixed6 L x @ '','' @ fixed6 L y) station t"
    and "printed L m = Inr text"
  shows "rv_route_message L m base s = Inr (rv_set_target x' y' s)"
  using assms parse_coords_target [OF assms(3,4)]
  by (simp add: rv_route_message_def Let_def rv_up_def rv_handle_internal_command_def)

subsection \<open>Packets longer than the receive buffer\<close>

lemma deframe_incomplete:
  assumes "packet_ok p" and "LUMEN_HEADER_SIZE \<le> n" and "n \<le> total_size p" and "n + length rest < total_size p"
  shows "deframe (take n (packet_to_bytes p) @ rest) = ([], take n (packet_to_bytes p) @ rest)"
proof -
  let ?d = "take n (packet_to_bytes p) @ rest"
  have "take n (packet_to_bytes p) = header_to_bytes (pkt_header p) @ take (n - LUMEN_HEADER_SIZE)
      (pkt_payload p @ [calculate_packet_crc p] @ [LUMEN_ETX])"
    using assms(2) by (simp add: packet_to_bytes_def)
  then have h: "header_from_bytes ?d = Some (pkt_header p)"
    by (simp only: append_assoc header_from_to_bytes)
  have len: "length ?d < total_size p" "?d \<noteq> []" using assms by (auto simp: LUMEN_HEADER_SIZE_def)
  have "packet_from_bytes ?d = None"
  proof (rule ccontr)
    assume "packet_from_bytes ?d \<noteq> None"
    then obtain q where q: "packet_from_bytes ?d = Some q" by auto
    from packet_from_bytes_sound [OF q] h have "packet_ok q" "pkt_header q = pkt_header p" "total_size q \<le> length ?d"
      by auto
    then show False using assms(1) len by (simp add: packet_ok_def total_size_def)
  qed
  moreover have "\<not> LUMEN_HEADER_SIZE + unat (hdr_payload_length (pkt_header p)) + 2 \<le> length ?d"
    using len(1) assms(1) by (simp add: packet_ok_def total_size_def)
  ultimately show ?thesis using h len(2) by (simp add: deframe.simps [of ?d])
qed

lemma bs_receive_incomplete:
  assumes "bs_up b" and "srv_hears b" and "data \<noteq> []" and "data ! 0 = LUMEN_STX"
    and "(case lp_frame_buffers b (get_endpoint_key L ep) of Some x \<Rightarrow> x | None \<Rightarrow> []) = old"
    and "deframe (old @ take SERVER_SOCK_BUF_SIZE data) = ([], old @ take SERVER_SOCK_BUF_SIZE data)"
    and "length old + SERVER_SOCK_BUF_SIZE \<le> MAX_FRAME_BUFFER_SIZE"
    and "b1 = bs_receive L (Received data ep) b"
  shows "lp_frame_buffers b1 (get_endpoint_key L ep) = Some (old @ take SERVER_SOCK_BUF_SIZE data)"
    "outbox b1 = outbox b" "upper b1 = upper b" "bs_up b1" "srv_hears b1" "rm_acked_sequences b1 = rm_acked_sequences b"
proof -
  let ?d = "take SERVER_SOCK_BUF_SIZE data"
  obtain srv where srv: "server b = Some srv" "srv_running srv" "srv_callback srv"
    using assms(1,2) by (auto simp: bs_up_def srv_hears_def node_ok_def)
  have d: "lp_running (srv_receives ep b)" "?d \<noteq> []" "?d ! 0 = LUMEN_STX"
    "(case lp_frame_buffers (srv_receives ep b) (get_endpoint_key L ep) of Some x \<Rightarrow> x | None \<Rightarrow> []) = old"
    using assms(1,3-5) by (simp_all add: bs_up_def srv_receives_def SERVER_SOCK_BUF_SIZE_def)
  have eq: "b1 = srv_listens (store_rest L (old @ ?d) ep (buffered L ?d ep (srv_receives ep b)))"
    using assms(6,8) handle_udp_data_lumen [OF d, of "mm_handle_lumen_message L (bs_app L)"]
    by (simp add: bs_receive_def srv_handle_receive_running [OF srv])
  have "length (old @ ?d) \<le> MAX_FRAME_BUFFER_SIZE" using assms(7) by simp
  then show "lp_frame_buffers b1 (get_endpoint_key L ep) = Some (old @ ?d)"
    by (simp add: eq srv_listens_def store_rest_def)
  show "outbox b1 = outbox b" by (simp add: eq)
  show up: "upper b1 = upper b" by (simp add: eq)
  show "rm_acked_sequences b1 = rm_acked_sequences b"
    by (simp add: eq srv_listens_def store_rest_def buffered_def srv_receives_def)
  have s1: "server b1 = Some (srv_receive_data (srv\<lparr>srv_receiving := False, srv_sender := ep\<rparr>))"
    using srv by (simp add: eq srv_listens_def store_rest_def buffered_def srv_receives_def)
  show "srv_hears b1" using srv by (simp add: srv_hears_def s1)
  have "client b1 = client b"
    by (simp add: eq srv_listens_def store_rest_def buffered_def srv_receives_def)
  then show "bs_up b1" using assms(1) srv
    by (auto simp: bs_up_def node_ok_def same_upper [OF up] bs_same_upper [OF up] s1)
qed

lemma packet_bytes_start: "packet_to_bytes p \<noteq> []" "packet_to_bytes p ! 0 = LUMEN_STX"
  by (simp_all add: packet_to_bytes_def header_to_bytes_def)

subsection \<open>Examples\<close>

text \<open>A concrete pair of nodes and a library that reads back the messages it prints.\<close>

definition link_dump :: "json \<Rightarrow> string option" where
  "link_dump j = Some (case json_string_member j ''command'' of Some c \<Rightarrow> c | None \<Rightarrow> ''hello'')"

definition hello :: message where
  "hello = BasicMessage ''hi'' ''r1'' 0"

definition link_parse :: "string \<Rightarrow> json option" where
  "link_parse str = Some (to_json (sample_lib (\<lambda>_. None) (\<lambda>_. None))
     (if str = ''hello'' then hello
      else if str = ''SESSION_INIT'' \<or> str = ''SESSION_CONFIRM'' then CommandMessage str ''r1'' ''r1'' 0
      else if str = ''SET_TARGET_COORD'' then CommandMessage str ''5.000000,5.000000'' ''base'' 0
      else CommandMessage str ''base'' ''base'' 0))"

definition link_lib :: lib where
  "link_lib = (sample_lib link_parse link_dump)\<lparr>fixed6 := (\<lambda>_. ''5.000000''), stod := (\<lambda>_. Some 5)\<rparr>"

definition rover_ep :: endpoint where
  "rover_ep = \<lparr>ep_address = 2, ep_port = 5000\<rparr>"

lemma link_carried:
  "carried link_lib now hello ''hello''"
  "carried link_lib now (CommandMessage ''SESSION_INIT'' ''r1'' ''r1'' 0) ''SESSION_INIT''"
  "carried link_lib now (CommandMessage ''SESSION_CONFIRM'' ''r1'' ''r1'' 0) ''SESSION_CONFIRM''"
  "carried link_lib now (CommandMessage ''SESSION_ACCEPT'' ''base'' ''base'' 0) ''SESSION_ACCEPT''"
  "carried link_lib now (CommandMessage ''SESSION_ESTABLISHED'' ''base'' ''base'' 0) ''SESSION_ESTABLISHED''"
  "carried link_lib now (CommandMessage ''SET_TARGET_COORD'' ''5.000000,5.000000'' ''base'' 0) ''SET_TARGET_COORD''"
  by (simp_all add: carried_def link_lib_def sample_lib_def serialise_def link_dump_def link_parse_def
      hello_def json_string_member_object message_ok_def string_to_tp_def tp_to_string_def)

lemma link_nodes:
  "rv_ready link_lib sample_ep idle_rover" "bs_ready link_lib rover_ep sample_base" "valid_recipient rover_ep"
proof -
  have "cl_hears idle_rover" by (simp add: cl_hears_def) (simp add: idle_rover_defs)
  then show "rv_ready link_lib sample_ep idle_rover" by (simp add: rv_ready_def)
  have "srv_callback (the (server sample_base))" "lp_message_callback sample_base" "mm_message_callback sample_base"
    "lp_frame_buffers sample_base = Map.empty"
    by (simp_all add: sample_base_defs)
  then show "bs_ready link_lib rover_ep sample_base" by (simp add: bs_ready_def)
qed (simp add: valid_recipient_def rover_ep_def is_unspecified_def)

definition session_rover :: rover where
  "session_rover = idle_rover\<lparr>rv_session_state := R_ACTIVE\<rparr>"

definition session_base :: base_station where
  "session_base = (lp_set_session_active True sample_base)\<lparr>bs_session_state := B_ACTIVE,
     bs_connected_rover_id := ''r1'', bs_rover_endpoint := rover_ep\<rparr>"

lemma session_nodes:
  "rv_ready link_lib sample_ep session_rover" "rv_session_state session_rover = R_ACTIVE"
  "\<not> rv_low_power_mode session_rover" "rm_sent_packets session_rover = []" "lp_current_sequence session_rover = 0"
  "bs_ready link_lib rover_ep session_base" "bs_session_state session_base = B_ACTIVE"
  "lp_session_active session_base" "bs_connected_rover_id session_base = ''r1''"
  "bs_rover_endpoint session_base = rover_ep" "bs_application_message_handler session_base"
  "\<not> rm_has_acked_sequence link_lib q rover_ep session_base" "bs_status_callback session_base = False"
  "bs_posted session_base = []" "bs_station_id session_base = ''base''" "system_now session_base = 0"
  "system_now session_rover = 0" "rv_rover_id session_rover = ''r1''" "rv_current_coordinate session_rover = (0, 0)"
  "lp_check_counter session_rover = 0"
proof -
  show "rv_ready link_lib sample_ep session_rover"
    using link_nodes(1) by (simp add: session_rover_def rv_ready_def cl_hears_def)
  show "bs_ready link_lib rover_ep session_base"
    using link_nodes(2) by (simp add: session_base_def bs_ready_def lp_set_session_active_def bs_up_def node_ok_def)
  show "\<not> rm_has_acked_sequence link_lib q rover_ep session_base"
    by (simp add: session_base_def lp_set_session_active_def rm_has_acked_sequence_def)
      (simp add: sample_base_defs)
  show "bs_status_callback session_base = False" "system_now session_base = 0"
    by (simp_all add: session_base_def lp_set_session_active_def) (simp_all add: sample_base_defs blank_base_def)
  show "rm_sent_packets session_rover = []" "system_now session_rover = 0" "lp_check_counter session_rover = 0"
    by (simp_all add: session_rover_def idle_rover_defs)
qed (simp_all add: session_rover_def session_base_def lp_set_session_active_def)

end
