(* ===== verification/Base_Reliability.thy ===== *)
theory Base_Reliability
  imports Lumen_Link
begin

text \<open>
  The reliability layer of a base station under its own application: what a datagram of several
  packets makes the whole base station acknowledge and hand to the application, and what becomes of
  the packets it keeps for retransmission, over any sequence of events.
\<close>

subsection \<open>What the router does with a packet\<close>

text \<open>The message a payload carries, and what the router posts for a message that is not a session
  request or confirmation.\<close>

definition packet_message :: "lib \<Rightarrow> time_point \<Rightarrow> lumen_packet \<Rightarrow> message option" where
  "packet_message L now p =
     (case deserialise L now (binary_to_string (pkt_payload p)) of Inl e \<Rightarrow> None | Inr m \<Rightarrow> Some m)"

fun session_command :: "message \<Rightarrow> bool" where
  "session_command (CommandMessage command params sender_id ts) =
     (command = ''SESSION_INIT'' \<or> command = ''SESSION_CONFIRM'')"
| "session_command m = False"

definition tasks_of :: "message \<Rightarrow> endpoint \<Rightarrow> 'a base_station_scheme \<Rightarrow> base_task list" where
  "tasks_of m ep s =
     (if \<not> bs_allow_message m ep s then []
      else status_update s m @ (if bs_application_message_handler s then [BaseAppMessage m ep] else []))"

definition packet_tasks :: "lib \<Rightarrow> endpoint \<Rightarrow> 'a base_station_scheme \<Rightarrow> lumen_packet \<Rightarrow> base_task list" where
  "packet_tasks L ep s p =
     (case packet_message L (system_now s) p of None \<Rightarrow> [] | Some m \<Rightarrow> tasks_of m ep s)"

lemma carried_message:
  assumes "carried L now m json" and "pkt_payload p = string_to_binary json"
  shows "packet_message L now p = Some m"
  using assms from_json_to_json [of m L now]
  by (simp add: carried_def packet_message_def deserialise_def)

lemma posted_id [simp]: "s\<lparr>bs_posted := bs_posted s\<rparr> = (s :: 'a base_station_scheme)"
  by simp

lemma route_posts:
  "\<not> session_command m \<Longrightarrow> bs_route_message L m ep s = s\<lparr>bs_posted := bs_posted s @ tasks_of m ep s\<rparr>"
  by (cases m) (simp_all add: bs_route_message_def tasks_of_def status_update_def Let_def bs_handle_internal_status_def
      bs_handle_internal_telemetry_def)

lemma deserialise_valid: "deserialise L now j = Inr m \<Longrightarrow> is_valid_json L j"
  by (auto simp: deserialise_def is_valid_json_def split: option.splits)

lemma handle_posts:
  assumes "mm_running s" and "mm_message_callback s"
    and "\<And>m. packet_message L (system_now s) p = Some m \<Longrightarrow> \<not> session_command m"
  shows "mm_handle_lumen_message L (bs_app L) (pkt_payload p) h ep s
         = s\<lparr>bs_posted := bs_posted s @ packet_tasks L ep s p\<rparr>"
proof (cases "deserialise L (system_now s) (binary_to_string (pkt_payload p))")
  case (Inl e)
  then show ?thesis
    using assms by (simp add: mm_handle_lumen_message_def packet_tasks_def packet_message_def Let_def)
next
  case (Inr m)
  then show ?thesis
    using assms deserialise_valid [OF Inr]
    by (simp add: mm_handle_lumen_message_def packet_tasks_def packet_message_def Let_def bs_app_def route_posts)
qed

subsection \<open>Packets in an active session\<close>

text \<open>A base station with an active session that can answer the peer.\<close>

definition bs_serving :: "endpoint \<Rightarrow> 'a base_station_scheme \<Rightarrow> bool" where
  "bs_serving ep s \<longleftrightarrow> lp_mode s = MODE_BASE_STATION \<and> rm_role s = BASE_STATION \<and> lp_session_active s
     \<and> lp_message_callback s \<and> mm_running s \<and> mm_message_callback s \<and> can_reach s ep"

lemma packet_tasks_cong:
  assumes "system_now t = system_now s" "bs_session_state t = bs_session_state s"
    "bs_connected_rover_id t = bs_connected_rover_id s" "bs_rover_endpoint t = bs_rover_endpoint s"
    "bs_status_callback t = bs_status_callback s"
    "bs_application_message_handler t = bs_application_message_handler s"
  shows "packet_tasks L ep t p = packet_tasks L ep s p"
proof -
  have "tasks_of m ep t = tasks_of m ep s" for m
    using assms by (cases m) (simp_all add: tasks_of_def status_update_def bs_allow_message_def)
  then show ?thesis using assms(1) by (simp add: packet_tasks_def split: option.splits)
qed

lemma posted_keeps [simp]:
  "bs_serving ep (s\<lparr>bs_posted := ts\<rparr>) = bs_serving ep s"
  "rm_has_acked_sequence L q ep' (s\<lparr>bs_posted := ts\<rparr>) = rm_has_acked_sequence L q ep' s"
  "generate_timestamp (s\<lparr>bs_posted := ts\<rparr>) = generate_timestamp s"
  by (simp_all add: bs_serving_def can_reach_def node_ok_def rm_has_acked_sequence_def
      generate_timestamp_def cong: ProtocolMode.case_cong option.case_cong)

lemma posted_tasks [simp]: "packet_tasks L ep (s\<lparr>bs_posted := ts\<rparr>) p = packet_tasks L ep s p"
  by (rule packet_tasks_cong) simp_all

text \<open>The packets of a list whose sequence number was not seen before.\<close>

fun first_time :: "(u8 \<Rightarrow> bool) \<Rightarrow> lumen_packet list \<Rightarrow> lumen_packet list" where
  "first_time known [] = []"
| "first_time known (p # ps) =
     (let seq = hdr_sequence (pkt_header p)
      in if known seq then first_time known ps else p # first_time (known(seq := True)) ps)"

definition ack_datagrams ::
  "endpoint \<Rightarrow> u32 \<Rightarrow> u8 \<Rightarrow> lumen_packet list \<Rightarrow> datagram list" where
  "ack_datagrams ep ts seq ps =
     map (\<lambda>(i, p). (packet_to_bytes (control_packet ACK (hdr_sequence (pkt_header p))
                       (seq + word_of_nat i) ts), ep))
       (enumerate 0 ps)"

lemma ack_datagrams_Cons:
  "ack_datagrams ep ts seq (p # ps) =
     (packet_to_bytes (control_packet ACK (hdr_sequence (pkt_header p)) seq ts), ep)
     # ack_datagrams ep ts (seq + 1) ps"
  by (simp add: ack_datagrams_def enumerate_Suc_map case_prod_unfold o_def add.assoc)

text \<open>The state after the acknowledgement of a packet.\<close>

definition bs_acked :: "lib \<Rightarrow> lumen_packet \<Rightarrow> endpoint \<Rightarrow> 'a base_station_scheme \<Rightarrow> 'a base_station_scheme" where
  "bs_acked L p ep s = (let seq = hdr_sequence (pkt_header p)
     in lp_send_ack L seq ep (rm_record_received_sequence L seq ep s))"

lemma bs_acked_upper [simp]: "upper (bs_acked L p ep s) = upper s"
  by (simp add: bs_acked_def Let_def)

lemma packet_tasks_upper: "upper t = upper s \<Longrightarrow> packet_tasks L ep t p = packet_tasks L ep s p"
  using bs_same_upper [of t s] same_upper(6) [of t s] by (intro packet_tasks_cong) simp_all

lemma bs_acked_state:
  assumes "bs_serving ep s"
  shows "outbox (bs_acked L p ep s) = outbox s @ [(packet_to_bytes (control_packet ACK (hdr_sequence (pkt_header p))
           (lp_current_sequence s) (generate_timestamp s)), ep)]"
    "lp_current_sequence (bs_acked L p ep s) = lp_current_sequence s + 1"
    "generate_timestamp (bs_acked L p ep s) = generate_timestamp s" "bs_serving ep (bs_acked L p ep s)"
    "rm_has_acked_sequence L q ep (bs_acked L p ep s) \<longleftrightarrow>
       rm_has_acked_sequence L q ep s \<or> q = hdr_sequence (pkt_header p)"
proof -
  let ?seq = "hdr_sequence (pkt_header p)"
  let ?r = "rm_record_received_sequence L ?seq ep s"
  have s: "lp_mode s = MODE_BASE_STATION" "rm_role s = BASE_STATION" "can_reach s ep"
    using assms by (simp_all add: bs_serving_def)
  show "outbox (bs_acked L p ep s) = outbox s @ [(packet_to_bytes (control_packet ACK ?seq
           (lp_current_sequence s) (generate_timestamp s)), ep)]"
    using s by (simp add: bs_acked_def Let_def lp_send_ack_out generate_timestamp_def)
  show "lp_current_sequence (bs_acked L p ep s) = lp_current_sequence s + 1"
    using s by (simp add: bs_acked_def Let_def lp_send_ack_state)
  have same: "upper (bs_acked L p ep s) = upper s" by simp
  show "generate_timestamp (bs_acked L p ep s) = generate_timestamp s"
    using same_upper(6) [OF same] by (rule generate_timestamp_cong)
  have "can_reach (bs_acked L p ep s) ep" using s by (simp add: bs_acked_def Let_def lp_send_ack_state)
  then show "bs_serving ep (bs_acked L p ep s)"
    using assms same_upper [OF same] bs_same_upper [OF same] by (simp add: bs_serving_def)
  have "rm_has_acked_sequence L q ep ?r = rm_has_acked_sequence L q ep s" by (simp add: rm_has_acked_sequence_def)
  then show "rm_has_acked_sequence L q ep (bs_acked L p ep s) \<longleftrightarrow> rm_has_acked_sequence L q ep s \<or> q = ?seq"
    using s led.acked_record [of ?r L q ep ?seq ep] by (simp add: bs_acked_def Let_def lp_send_ack_state)
qed

lemma process_serving:
  assumes "bs_serving ep s" and "hdr_type (pkt_header p) \<noteq> ACK" "hdr_type (pkt_header p) \<noteq> NAK"
    and "\<And>m. packet_message L (system_now s) p = Some m \<Longrightarrow> \<not> session_command m"
  shows "lp_process_complete_packet L (mm_handle_lumen_message L (bs_app L)) p ep s =
    (bs_acked L p ep s)\<lparr>bs_posted := bs_posted s @
       (if rm_has_acked_sequence L (hdr_sequence (pkt_header p)) ep s then [] else packet_tasks L ep s p)\<rparr>"
proof -
  let ?a = "bs_acked L p ep s"
  have same: "upper ?a = upper s" by simp
  have posted: "bs_posted ?a = bs_posted s" using bs_same_upper(9) [OF same] .
  have a: "mm_running ?a" "mm_message_callback ?a" "system_now ?a = system_now s"
    using assms(1) same_upper(6) [OF same] bs_same_upper(1,2) [OF same] by (simp_all add: bs_serving_def)
  have "mm_handle_lumen_message L (bs_app L) (pkt_payload p) (pkt_header p) ep ?a
      = ?a\<lparr>bs_posted := bs_posted s @ packet_tasks L ep s p\<rparr>"
    using handle_posts [of ?a L p "pkt_header p" ep] a assms(4) posted packet_tasks_upper [OF same, of L ep p] by simp
  moreover have "?a\<lparr>bs_posted := bs_posted s\<rparr> = ?a" using posted_id [of ?a] by (simp only: posted)
  ultimately show ?thesis
    using assms(1-3) process_base_active [of s p L "mm_handle_lumen_message L (bs_app L)" ep]
    by (simp add: bs_serving_def bs_acked_def Let_def)
qed

lemma serving_run:
  assumes "bs_serving ep s"
    and "\<forall>p \<in> set ps. hdr_type (pkt_header p) \<noteq> ACK \<and> hdr_type (pkt_header p) \<noteq> NAK"
    and "\<forall>p \<in> set ps. \<forall>m. packet_message L (system_now s) p = Some m \<longrightarrow> \<not> session_command m"
    and "t = foldl (\<lambda>s p. lp_process_complete_packet L (mm_handle_lumen_message L (bs_app L)) p ep s) s ps"
  shows "outbox t = outbox s @ ack_datagrams ep (generate_timestamp s) (lp_current_sequence s) ps
    \<and> bs_posted t = bs_posted s @ concat (map (packet_tasks L ep s)
        (first_time (\<lambda>q. rm_has_acked_sequence L q ep s) ps))
    \<and> bs_serving ep t
    \<and> (\<forall>q. rm_has_acked_sequence L q ep t \<longleftrightarrow>
         rm_has_acked_sequence L q ep s \<or> q \<in> (\<lambda>p. hdr_sequence (pkt_header p)) ` set ps)"
  using assms
proof (induction ps arbitrary: s)
  case Nil
  then show ?case by (simp add: ack_datagrams_def)
next
  case (Cons p ps)
  let ?q = "hdr_sequence (pkt_header p)" and ?a = "bs_acked L p ep s"
  let ?new = "if rm_has_acked_sequence L ?q ep s then [] else packet_tasks L ep s p"
  let ?s1 = "?a\<lparr>bs_posted := bs_posted s @ ?new\<rparr>"
  have step: "lp_process_complete_packet L (mm_handle_lumen_message L (bs_app L)) p ep s = ?s1"
    using Cons.prems by (intro process_serving) simp_all
  note acked = bs_acked_state [OF Cons.prems(1), where p = p and L = L]
  have same: "upper ?a = upper s" by simp
  have now: "system_now ?s1 = system_now s" using same_upper(6) [OF same] by simp
  have tasks: "packet_tasks L ep ?s1 = packet_tasks L ep s"
    using packet_tasks_upper [OF same, of L ep] by (simp add: fun_eq_iff)
  have known: "(\<lambda>q. rm_has_acked_sequence L q ep ?s1) = (\<lambda>q. rm_has_acked_sequence L q ep s)(?q := True)"
    using acked(5) by (auto simp: fun_eq_iff)
  have idem: "(\<lambda>q. rm_has_acked_sequence L q ep s)(?q := True) = (\<lambda>q. rm_has_acked_sequence L q ep s)"
    if "rm_has_acked_sequence L ?q ep s" using that by (auto simp: fun_eq_iff)
  have IH: "outbox t = outbox ?s1 @ ack_datagrams ep (generate_timestamp ?s1) (lp_current_sequence ?s1) ps
    \<and> bs_posted t = bs_posted ?s1 @ concat (map (packet_tasks L ep ?s1)
        (first_time (\<lambda>q. rm_has_acked_sequence L q ep ?s1) ps))
    \<and> bs_serving ep t
    \<and> (\<forall>q. rm_has_acked_sequence L q ep t \<longleftrightarrow>
         rm_has_acked_sequence L q ep ?s1 \<or> q \<in> (\<lambda>p. hdr_sequence (pkt_header p)) ` set ps)"
    using Cons.prems acked(4) by (intro Cons.IH) (simp_all add: step now)
  show ?case
    using IH acked(1-3,5) idem unfolding tasks known by (auto simp: ack_datagrams_Cons Let_def)
qed

lemma bs_receive_stream:
  assumes "bs_ready L ep b" and "items \<noteq> []" and "\<forall>item \<in> set items. wire_ok item"
    and "length (concat (map on_wire items)) \<le> SERVER_SOCK_BUF_SIZE"
    and "d = concat (map on_wire items)"
  shows "bs_receive L (Received d ep) b = srv_listens (store_rest L [] ep
    (foldl (\<lambda>s p. lp_process_complete_packet L (mm_handle_lumen_message L (bs_app L)) p ep s)
      (buffered L d ep (srv_receives ep b)) (intact items)))"
proof -
  obtain srv where srv: "server b = Some srv" "srv_running srv" "srv_callback srv"
    using assms(1) by (auto simp: bs_ready_def bs_up_def node_ok_def)
  have r: "lp_running (srv_receives ep b)"
    "lp_frame_buffers (srv_receives ep b) (get_endpoint_key L ep) \<in> {None, Some []}"
    using assms(1) by (simp_all add: bs_ready_def bs_up_def srv_receives_def)
  show ?thesis
    using handle_udp_data_stream [OF r(1) assms(2,3) r(2)] assms(4,5)
    by (simp add: bs_receive_def srv_handle_receive_running [OF srv])
qed

lemma socket_keeps_state [simp]:
  "bs_posted (srv_listens (store_rest L d ep b)) = bs_posted b"
  "lp_session_active (srv_listens (store_rest L d ep b)) = lp_session_active b"
  "rm_has_acked_sequence L q ep' (srv_listens (store_rest L d ep b)) = rm_has_acked_sequence L q ep' b"
  "bs_posted (buffered L d ep (srv_receives ep b)) = bs_posted b"
  "lp_current_sequence (srv_receives ep b) = lp_current_sequence b"
  by (simp_all add: srv_listens_def srv_receives_def store_rest_def buffered_def rm_has_acked_sequence_def)

lemma serving_received:
  assumes "bs_ready L ep b" and "valid_recipient ep" and "lp_session_active b"
  shows "bs_serving ep (buffered L d ep (srv_receives ep b))"
proof -
  have same: "upper (buffered L d ep (srv_receives ep b)) = upper b" by simp
  have "can_reach (buffered L d ep (srv_receives ep b)) ep"
    using assms by (simp add: bs_ready_def bs_up_reach)
  then show ?thesis
    using assms same_upper [OF same] bs_same_upper [OF same]
    by (auto simp: bs_serving_def bs_ready_def bs_up_def node_ok_def)
qed

text \<open>C3: a base station with an active session acknowledges every intact packet of a datagram, the
  duplicates included, once and in order, with ACK packets that carry its own consecutive sequence
  numbers, and sends nothing else; but what the router posts for a packet (the status callback and
  the application's handler, for a message of the connected rover) it posts only the first time the
  packet's sequence number is seen from that peer, in the order of the packets. Afterwards exactly
  the numbers of the datagram count as acknowledged in addition, and the session is still active.
  Damaged packets are neither acknowledged nor forwarded. The datagram is one of data packets (no
  ACK or NAK), fits into the receive buffer, and carries no \<open>SESSION_INIT\<close> or \<open>SESSION_CONFIRM\<close>,
  which would be answered and may end the session.\<close>

theorem base_acknowledges_all_delivers_once:
  assumes "bs_ready L ep b" and "valid_recipient ep" and "lp_session_active b"
    and "items \<noteq> []" and "\<forall>item \<in> set items. wire_ok item"
    and "length (concat (map on_wire items)) \<le> SERVER_SOCK_BUF_SIZE"
    and "\<forall>p \<in> set (intact items). hdr_type (pkt_header p) \<noteq> ACK \<and> hdr_type (pkt_header p) \<noteq> NAK"
    and "\<forall>p \<in> set (intact items). \<forall>m. packet_message L (system_now b) p = Some m \<longrightarrow> \<not> session_command m"
    and "b' = bs_receive L (Received (concat (map on_wire items)) ep) b"
  shows "outbox b' = outbox b @ ack_datagrams ep (generate_timestamp b) (lp_current_sequence b) (intact items)
    \<and> bs_posted b' = bs_posted b @ concat (map (packet_tasks L ep b)
        (first_time (\<lambda>q. rm_has_acked_sequence L q ep b) (intact items)))
    \<and> (\<forall>q. rm_has_acked_sequence L q ep b' \<longleftrightarrow>
         rm_has_acked_sequence L q ep b \<or> q \<in> (\<lambda>p. hdr_sequence (pkt_header p)) ` set (intact items))
    \<and> lp_session_active b'"
proof -
  let ?d = "concat (map on_wire items)"
  let ?r = "buffered L ?d ep (srv_receives ep b)"
  define t where "t = foldl (\<lambda>s p. lp_process_complete_packet L (mm_handle_lumen_message L (bs_app L)) p ep s)
      ?r (intact items)"
  have b': "b' = srv_listens (store_rest L [] ep t)"
    using bs_receive_stream [OF assms(1,4,5,6) refl] assms(9) by (simp add: t_def)
  have same: "upper ?r = upper b" by simp
  have now: "system_now ?r = system_now b" using same_upper(6) [OF same] .
  have r: "generate_timestamp ?r = generate_timestamp b" "packet_tasks L ep ?r = packet_tasks L ep b"
    using generate_timestamp_cong [OF now] packet_tasks_upper [OF same, of L ep] by (simp_all add: fun_eq_iff)
  have msgs: "\<forall>p \<in> set (intact items). \<forall>m. packet_message L (system_now ?r) p = Some m \<longrightarrow> \<not> session_command m"
    using assms(8) by (simp only: now)
  show ?thesis
    using serving_run [OF serving_received [OF assms(1-3)] assms(7) msgs t_def]
    by (simp add: b' r) (simp add: bs_serving_def)
qed

theorem base_acknowledges_all_delivers_once_witness:
  "let p = message_packet (string_to_binary ''hello'') DATA LOW session_base
   in bs_posted (bs_receive link_lib (Received (concat (map on_wire [(p, None), (sample_packet, Some (10, 0x42)), (p, None)]))
        rover_ep) session_base) = [BaseAppMessage hello rover_ep]"
proof -
  define p where "p = message_packet (string_to_binary ''hello'') DATA LOW session_base"
  let ?items = "[(p, None), (sample_packet, Some (10, 0x42)), (p, None)]"
  have p: "packet_ok p" "hdr_type (pkt_header p) = DATA" "total_size p = 17"
    by (simp_all add: p_def message_packet_ok total_size_def LUMEN_HEADER_SIZE_def string_to_binary_def)
  have m: "packet_message link_lib now p = Some hello" for now
    using carried_message [OF link_carried(1), of p now] by (simp add: p_def)
  have "length (concat (map on_wire ?items)) \<le> SERVER_SOCK_BUF_SIZE"
    using p by (simp add: on_wire_def SERVER_SOCK_BUF_SIZE_def)
  moreover have "\<forall>item \<in> set ?items. wire_ok item" using p sample_damage by (simp add: wire_ok_def)
  moreover have "intact ?items = [p, p]" by (simp add: intact_def)
  moreover have "packet_tasks link_lib rover_ep session_base p = [BaseAppMessage hello rover_ep]"
    by (simp add: packet_tasks_def m tasks_of_def bs_allow_message_def session_nodes status_update_def hello_def)
  ultimately show ?thesis
    using base_acknowledges_all_delivers_once [OF session_nodes(6) link_nodes(3) session_nodes(8), of ?items] p m
    by (simp add: session_nodes hello_def Let_def flip: p_def)
qed

subsection \<open>Packets kept for retransmission\<close>

text \<open>A base station that keeps a packet under a number.\<close>

definition keeps_packet :: "u8 \<Rightarrow> sent_packet_info \<Rightarrow> 'a lumen_protocol_scheme \<Rightarrow> bool" where
  "keeps_packet q info s \<longleftrightarrow> rm_role s = BASE_STATION \<and> map_of (rm_sent_packets s) q = Some info"

lemma keeps_cong:
  "rm_role t = rm_role s \<Longrightarrow> rm_sent_packets t = rm_sent_packets s \<Longrightarrow> keeps_packet q info t = keeps_packet q info s"
  by (simp add: keeps_packet_def)

lemma keeps_lower [simp]:
  "keeps_packet q info (lp_send_packet p ep s) = keeps_packet q info s"
  "keeps_packet q info (rm_record_received_sequence L n ep s) = keeps_packet q info s"
  "keeps_packet q info (rm_record_acked_sequence L n ep s) = keeps_packet q info s"
  "keeps_packet q info (rm_record_nak_sent n s) = keeps_packet q info s"
  "keeps_packet q info (s\<lparr>lp_current_sequence := n\<rparr>) = keeps_packet q info s"
  "keeps_packet q info (s\<lparr>lp_check_counter := c\<rparr>) = keeps_packet q info s"
  "keeps_packet q info (buffered L d ep s) = keeps_packet q info s"
  "keeps_packet q info (store_rest L d ep s) = keeps_packet q info s"
  by (rule keeps_cong; simp)+

lemma keeps_control [simp]:
  "keeps_packet q info (lp_send_ack L n ep s) = keeps_packet q info s"
  "keeps_packet q info (lp_send_nak n s) = keeps_packet q info s"
  "keeps_packet q info (rm_process_nak lp_send_packet n s) = keeps_packet q info s"
  by (simp_all add: lp_send_ack_def lp_send_nak_def rm_process_nak_def Let_def split: sum.splits option.splits)

lemma keeps_gaps [simp]: "keeps_packet q info (lp_check_sequence_gaps L ep s) = keeps_packet q info s"
proof -
  have "keeps_packet q info (nak_loop qs n s) = keeps_packet q info s" for qs n
    by (induction qs n s rule: nak_loop.induct) (simp_all add: Let_def)
  then show ?thesis by (simp add: lp_check_sequence_gaps_def)
qed

text \<open>Storing a packet does not replace one that is there, and an ACK means nothing to a base station.\<close>

lemma keeps_add: "keeps_packet q info s \<Longrightarrow> keeps_packet q info (rm_add_send_packet n p ep s)"
  by (cases "n = q") (auto simp: keeps_packet_def rm_add_send_packet_def sm.emplace_present sm.find_emplace)

lemma keeps_ack: "keeps_packet q info s \<Longrightarrow> keeps_packet q info (rm_process_ack n s)"
  by (simp add: keeps_packet_def rm_process_ack_def)

lemma keeps_send:
  assumes "keeps_packet q info s"
  shows "keeps_packet q info (state_of (lp_send_message payload type priority ep s))"
    "keeps_packet q info (mm_send_message L m ep s)" "keeps_packet q info (mm_send_raw_message L m ep s)"
proof -
  show send: "keeps_packet q info (state_of (lp_send_message payload type priority ep s))"
    for payload type priority
    using assms by (simp add: lp_send_message_def Let_def keeps_add split: ProtocolMode.splits sum.splits)
  show "keeps_packet q info (mm_send_message L m ep s)"
    using assms send by (simp add: mm_send_message_def split: sum.splits)
  show "keeps_packet q info (mm_send_raw_message L m ep s)"
    using assms by (simp add: mm_send_raw_message_def keeps_packet_def Let_def split: sum.splits option.splits)
qed

lemma keeps_fields [simp]:
  "keeps_packet q info (s\<lparr>bs_session_state := x0\<rparr>) = keeps_packet q info s"
  "keeps_packet q info (s\<lparr>bs_connected_rover_id := x1\<rparr>) = keeps_packet q info s"
  "keeps_packet q info (s\<lparr>bs_rover_endpoint := x2\<rparr>) = keeps_packet q info s"
  "keeps_packet q info (s\<lparr>bs_posted := x3\<rparr>) = keeps_packet q info s"
  "keeps_packet q info (s\<lparr>server := x4\<rparr>) = keeps_packet q info s"
  "keeps_packet q info (lp_set_session_active b s) = keeps_packet q info s"
  by (rule keeps_cong; simp add: lp_set_session_active_def)+

lemma keeps_command: "keeps_packet q info s \<Longrightarrow> keeps_packet q info (bs_send_command L c p s)"
  by (simp add: bs_send_command_def Let_def keeps_send)

lemma keeps_route: "keeps_packet q info s \<Longrightarrow> keeps_packet q info (bs_route_message L m ep s)"
  by (auto simp: bs_route_message_def bs_handle_internal_command_def bs_handle_internal_status_def
      bs_handle_internal_telemetry_def bs_handle_session_init_eq bs_handle_session_confirm_def Let_def
      split: message.splits intro!: keeps_command)

lemma keeps_message:
  "keeps_packet q info s \<Longrightarrow> keeps_packet q info (mm_handle_lumen_message L (bs_app L) payload h ep s)"
  by (simp add: mm_handle_lumen_message_def Let_def bs_app_def keeps_route split: sum.splits)

lemma keeps_process:
  assumes "keeps_packet q info s"
  shows "keeps_packet q info (lp_process_complete_packet L (mm_handle_lumen_message L (bs_app L)) p ep s)"
  using assms by (auto simp: lp_process_complete_packet_def Let_def intro!: keeps_message keeps_ack)

lemma keeps_datagram:
  assumes "keeps_packet q info s"
  shows "keeps_packet q info (lp_handle_udp_data L (mm_handle_lumen_message L (bs_app L)) data ep s)"
proof (cases "lp_running s \<and> data \<noteq> [] \<and> data ! 0 = LUMEN_STX")
  case True
  have "keeps_packet q info (foldl (\<lambda>s p. lp_process_complete_packet L (mm_handle_lumen_message L (bs_app L)) p ep s)
      (buffered L data ep s) ps)" for ps
    using assms by (intro foldl_preserves [where P = "keeps_packet q info"]) (simp_all add: keeps_process)
  then show ?thesis using True by (simp add: handle_udp_data_lumen [OF _ _ _ refl])
next
  case False
  then show ?thesis
    using assms by (auto simp: lp_handle_udp_data_def lp_wrap_raw_data_def Let_def keeps_message split: sum.splits)
qed

lemma keeps_receive: "keeps_packet q info s \<Longrightarrow> keeps_packet q info (bs_receive L r s)"
  by (simp add: bs_receive_def srv_handle_receive_def Let_def keeps_datagram split: option.splits receive_result.splits)

lemma keeps_timers:
  assumes "keeps_packet q info s"
  shows "keeps_packet q info (rm_handle_retransmission_timer lp_send_packet no_timeout s)"
    "keeps_packet q info (rm_handle_cleanup_timer s)"
  using assms
  by (auto simp: keeps_packet_def rm_handle_retransmission_timer_def rm_handle_cleanup_timer_def
      rm_cleanup_old_entries_def Let_def)

lemma keeps_start:
  assumes "keeps_packet q info s" and "rm_running s"
  shows "keeps_packet q info (bs_start s)"
  using assms
  by (simp add: keeps_packet_def bs_start_def mm_start_def lp_start_def rm_start_def mm_set_message_callback_def
      lp_set_message_callback_def lp_set_session_active_def Let_def)

text \<open>Events of a base station that is not stopped.\<close>

definition base_stays :: "lib \<Rightarrow> base_station \<Rightarrow> base_station \<Rightarrow> bool" where
  "base_stays L = (\<lambda>s t. base_step L s t \<and> rm_running t)\<^sup>*\<^sup>*"

lemma keeps_stop:
  assumes "keeps_packet q info s" and "rm_running (bs_stop s)"
  shows "keeps_packet q info (bs_stop s)"
  using assms by (simp add: keeps_packet_def bs_stop_def Let_def mm_stop_def lp_stop_def rm_stop_def
      lp_set_session_active_def)

lemma keeps_step:
  "base_step L s t \<Longrightarrow> rm_running s \<Longrightarrow> keeps_packet q info s \<Longrightarrow> rm_running t \<Longrightarrow> keeps_packet q info t"
  by (induction rule: base_step.induct)
    (simp_all add: keeps_receive keeps_timers keeps_start keeps_stop keeps_command keeps_send bs_send_message_def
      bs_send_raw_message_def bs_set_status_callback_def bs_set_application_message_handler_def,
     simp_all add: keeps_packet_def)

lemma keeps_forever:
  assumes "base_stays L s t" and "rm_running s" and "keeps_packet q info s"
  shows "keeps_packet q info t \<and> rm_running t"
  using assms(1) unfolding base_stays_def
  by (induction rule: rtranclp_induct) (use assms(2,3) in \<open>auto intro: keeps_step\<close>)

text \<open>A message sent by a ready base station.\<close>

lemma bs_send_message_state:
  assumes "bs_up b" and "valid_recipient ep" and "serialise L m = Inr json"
    and "p = message_packet (string_to_binary json) (get_lumen_type m) (get_lumen_priority m) b"
    and "b' = bs_send_message L m ep b"
  shows "outbox b' = outbox b @ [(packet_to_bytes p, ep)]" "lp_current_sequence b' = lp_current_sequence b + 1"
    "bs_up b'" "srv_hears b' = srv_hears b" "lp_frame_buffers b' = lp_frame_buffers b" "upper b' = upper b"
    "map_of (rm_sent_packets b) (lp_current_sequence b) = None \<Longrightarrow>
       map_of (rm_sent_packets b') (lp_current_sequence b)
       = Some \<lparr>sp_packet = p, sp_sent_time = steady_now b, sp_retry_count = 0, sp_recipient = ep\<rparr>"
proof -
  have b': "b' = mm_send_message L m ep b"
    using assms(2,5) by (simp add: bs_send_message_def valid_recipient_def)
  have up: "mm_running b" "lp_running b" "rm_running b" "node_ok b" "can_reach b ep" "\<not> is_unspecified ep"
    using assms(1,2) bs_up_reach [OF assms(1,2)] by (simp_all add: bs_up_def valid_recipient_def)
  show "outbox b' = outbox b @ [(packet_to_bytes p, ep)]" "lp_current_sequence b' = lp_current_sequence b + 1"
    using up assms(3,4) by (simp_all add: b' mm_send_message_out mm_send_message_seq)
  show "bs_up b'" using assms(1) by (simp add: b' bs_up_iff)
  show "srv_hears b' = srv_hears b" using up by (simp add: b' srv_hears_mm_send)
  show "lp_frame_buffers b' = lp_frame_buffers b" "upper b' = upper b" by (simp_all add: b')
  show "map_of (rm_sent_packets b') (lp_current_sequence b)
       = Some \<lparr>sp_packet = p, sp_sent_time = steady_now b, sp_retry_count = 0, sp_recipient = ep\<rparr>"
    if "map_of (rm_sent_packets b) (lp_current_sequence b) = None"
    using up assms(3,4) that
    by (simp add: b' mm_send_message_def lp_send_message_to rm_add_send_packet_def sm.find_emplace)
qed

lemma bs_ready_send:
  assumes "bs_ready L ep b" and "valid_recipient ep" and "serialise L m = Inr json"
  shows "bs_ready L ep (bs_send_message L m ep b)"
proof -
  have up: "bs_up b" using assms(1) by (simp add: bs_ready_def)
  note sent = bs_send_message_state [OF up assms(2,3) refl refl]
  show ?thesis
    using assms(1) sent(3-5) same_upper(5) [OF sent(6)] bs_same_upper(2) [OF sent(6)]
    by (simp add: bs_ready_def srv_hears_def)
qed

lemma bs_receive_nak:
  assumes "bs_ready L ep b" and "keeps_packet q info b" and "rm_retransmit_callback b"
    and "valid_recipient (sp_recipient info)"
    and "b' = bs_receive L (Received (packet_to_bytes (control_packet NAK q seq ts)) ep) b"
  shows "outbox b' = outbox b @ [(packet_to_bytes (sp_packet info), sp_recipient info)]"
proof -
  let ?p = "control_packet NAK q seq ts"
  let ?d = "packet_to_bytes ?p"
  let ?r = "rm_record_received_sequence L seq ep (buffered L ?d ep (srv_receives ep b))"
  have up: "bs_up b" using assms(1) by (simp add: bs_ready_def)
  have mode: "lp_mode (buffered L ?d ep (srv_receives ep b)) = MODE_BASE_STATION"
    using up by (simp add: bs_up_def srv_receives_def)
  have items: "\<forall>item \<in> set [(?p, None)]. wire_ok item" "concat (map on_wire [(?p, None)]) = ?d" "intact [(?p, None)] = [?p]"
    by (simp_all add: wire_ok_def on_wire_def intact_def)
  have fits: "length ?d \<le> SERVER_SOCK_BUF_SIZE"
    by (simp add: SERVER_SOCK_BUF_SIZE_def total_size_def LUMEN_HEADER_SIZE_def)
  have "b' = srv_listens (store_rest L [] ep
      (lp_process_complete_packet L (mm_handle_lumen_message L (bs_app L)) ?p ep (buffered L ?d ep (srv_receives ep b))))"
    using bs_receive_stream [OF assms(1) _ items(1) _ items(2) [symmetric]] fits
    by (simp only: items(2,3) assms(5) foldl.simps simp_thms list.distinct)
  then have b': "b' = srv_listens (store_rest L [] ep (rm_process_nak lp_send_packet q ?r))"
    using process_nak_packet [of ?p q "buffered L ?d ep (srv_receives ep b)" L "mm_handle_lumen_message L (bs_app L)" ep] mode
    by (simp only: control_packet_fields simp_thms)
  have "keeps_packet q info ?r" using assms(2) by (simp add: srv_receives_def)
  moreover have "rm_running ?r" "rm_retransmit_callback ?r"
    using up assms(3) by (simp_all add: bs_up_def srv_receives_def)
  moreover have "can_reach ?r (sp_recipient info)" "outbox ?r = outbox b"
    using bs_up_reach [OF up assms(4)] by simp_all
  ultimately show ?thesis
    by (simp add: b' rm_process_nak_def keeps_packet_def lp_send_packet_reach)
qed

text \<open>C37: a base station that is not stopped never forgets a packet it sent, whatever happens to it
  (packets, ACKs and NAKs received, timers, the cleanup, messages sent, being started again), and
  storing a packet does not replace an older one under the same 8-bit number: so when the numbering
  has wrapped around and the number of an earlier message is used for a new one, a NAK for the new
  message makes the base station send the earlier message, to the earlier recipient, instead.\<close>

theorem wrapped_nak_sends_stale_packet:
  assumes "bs_up r" and "valid_recipient ep0" and "serialise L m0 = Inr json0"
    and "map_of (rm_sent_packets r) (lp_current_sequence r) = None"
    and "p0 = message_packet (string_to_binary json0) (get_lumen_type m0) (get_lumen_priority m0) r"
    and "base_stays L (bs_send_message L m0 ep0 r) s"
    and "bs_ready L ep s" and "rm_retransmit_callback s" and "valid_recipient ep"
    and "lp_current_sequence s = lp_current_sequence r" and "serialise L m = Inr json"
    and "p = message_packet (string_to_binary json) (get_lumen_type m) (get_lumen_priority m) s"
    and "s1 = bs_send_message L m ep s"
    and "s2 = bs_receive L (Received (packet_to_bytes (control_packet NAK (lp_current_sequence s) seq ts)) ep) s1"
  shows "outbox s1 = outbox s @ [(packet_to_bytes p, ep)]
    \<and> outbox s2 = outbox s1 @ [(packet_to_bytes p0, ep0)]"
proof -
  let ?q = "lp_current_sequence r"
  let ?info = "\<lparr>sp_packet = p0, sp_sent_time = steady_now r, sp_retry_count = 0, sp_recipient = ep0\<rparr>"
  note first = bs_send_message_state [OF assms(1,2,3,5) refl]
  have "keeps_packet ?q ?info (bs_send_message L m0 ep0 r)" "rm_running (bs_send_message L m0 ep0 r)"
    using first(3) first(7) [OF assms(4)] by (auto simp: keeps_packet_def bs_up_def node_ok_def)
  then have kept: "keeps_packet ?q ?info s" using keeps_forever [OF assms(6)] by blast
  have up: "bs_up s" using assms(7) by (simp add: bs_ready_def)
  note second = bs_send_message_state [OF up assms(9,11,12,13)]
  have "keeps_packet ?q ?info s1"
    using keeps_send(2) [OF kept] kept assms(13) by (simp add: bs_send_message_def)
  moreover have "rm_retransmit_callback s1"
  proof -
    have "rm_retransmit_callback (upper t) = rm_retransmit_callback t" for t :: base_station
      by (simp add: upper_def)
    then show ?thesis using second(6) assms(8) by metis
  qed
  moreover have "bs_ready L ep s1" using bs_ready_send [OF assms(7,9,11)] assms(13) by simp
  ultimately have "outbox s2 = outbox s1 @ [(packet_to_bytes p0, ep0)]"
    using bs_receive_nak [of L ep s1 ?q ?info s2 seq ts] assms(2,10,14) by simp
  then show ?thesis using second(1) by simp
qed

text \<open>Sending the same message over and over.\<close>

lemma sends_repeated:
  assumes "bs_ready L ep b" and "valid_recipient ep" and "serialise L m = Inr json"
    and "t = (bs_send_message L m ep ^^ n) b"
  shows "bs_ready L ep t \<and> lp_current_sequence t = lp_current_sequence b + word_of_nat n \<and> upper t = upper b
    \<and> base_stays L b t"
  using assms(4)
proof (induction n arbitrary: t)
  case 0
  then show ?case using assms(1) by (simp add: base_stays_def)
next
  case (Suc n)
  let ?u = "(bs_send_message L m ep ^^ n) b"
  have u: "bs_ready L ep ?u" "lp_current_sequence ?u = lp_current_sequence b + word_of_nat n" "upper ?u = upper b"
    "base_stays L b ?u" using Suc.IH [OF refl] by simp_all
  have t: "t = bs_send_message L m ep ?u" using Suc.prems by simp
  have up: "bs_up ?u" using u(1) by (simp add: bs_ready_def)
  note sent = bs_send_message_state [OF up assms(2,3) refl t]
  have "base_stays L b t"
    using u(4) base_step.send_message [of L ?u m ep] sent(3) unfolding base_stays_def t bs_up_def
    by (auto intro: rtranclp.rtrancl_into_rtrancl)
  then show ?case
    using bs_ready_send [OF u(1) assms(2,3)] sent(2,6) u(2,3) by (simp add: t)
qed

theorem wrapped_nak_sends_stale_packet_witness:
  "let s = (bs_send_message link_lib hello rover_ep ^^ 256) sample_base;
       s1 = bs_send_message link_lib (CommandMessage ''SESSION_ACCEPT'' ''base'' ''base'' 0) rover_ep s
   in last (outbox (bs_receive link_lib (Received (packet_to_bytes (control_packet NAK (lp_current_sequence s) 0 0)) rover_ep) s1))
      = (packet_to_bytes (message_packet (string_to_binary ''hello'') (get_lumen_type hello) (get_lumen_priority hello)
           sample_base), rover_ep)"
proof -
  let ?send = "bs_send_message link_lib hello rover_ep"
  define s where "s = (?send ^^ 256) sample_base"
  note json = carried_serialise [OF link_carried(1)] and json' = carried_serialise [OF link_carried(4)]
  have none: "map_of (rm_sent_packets sample_base) (lp_current_sequence sample_base) = None"
    by (simp add: sample_base_defs)
  have up: "bs_up sample_base" and wrap: "(word_of_nat 256 :: u8) = 0" by simp_all
  have all: "bs_ready link_lib rover_ep s" "lp_current_sequence s = lp_current_sequence sample_base" "upper s = upper sample_base"
    using sends_repeated [OF link_nodes(2,3) json s_def] wrap by (simp_all only: add_0_right)
  have "(256 :: nat) = Suc 255" by simp
  then have "s = (?send ^^ Suc 255) sample_base" by (simp only: s_def)
  then have "s = (?send ^^ 255) (?send sample_base)" by (simp only: funpow_Suc_right o_apply)
  from sends_repeated [OF bs_ready_send [OF link_nodes(2,3) json] link_nodes(3) json this]
  have stays: "base_stays link_lib (?send sample_base) s" by simp
  have callback: "rm_retransmit_callback s"
  proof -
    have "rm_retransmit_callback (upper t) = rm_retransmit_callback t" for t :: base_station by (simp add: upper_def)
    moreover have "rm_retransmit_callback sample_base" by (simp add: sample_base_defs)
    ultimately show ?thesis using all(3) by metis
  qed
  note stale = wrapped_nak_sends_stale_packet [OF up link_nodes(3) json none refl stays all(1) callback link_nodes(3) all(2)
      json' refl refl refl, THEN conjunct2, of 0 0]
  show ?thesis by (simp only: Let_def s_def [symmetric] stale last_snoc)
qed

end
