(* ===== verification/Base_Main.thy ===== *)
theory Base_Main
  imports Base_Station
begin

text \<open>
  The base station program (\<open>src/base/test_base_main.cpp\<close>): the set-up in \<open>main\<close>, the signal
  handler, and the console thread that turns typed lines into tasks of the \<open>io_context\<close>. The tasks
  the console and the signal handler post are the list \<open>bm_posted\<close>, in order; what the program
  prints is left out. The lemmas show that the console is a line-by-line translation into calls of
  the station, that it stops at the first \<open>quit\<close>, and that running the tasks performs the calls.
\<close>

datatype console_task =
    QuitStation
  | StopContext
  | SetLowPower bool
  | SetTarget real real

record base_main =
  bm_station :: base_station
  bm_shutdown_requested :: bool
  bm_posted :: "console_task list"
  bm_io_stopped :: bool

definition STATION_ID :: string where "STATION_ID = ''grp18-base''"

subsection \<open>Set-up and signals\<close>

definition base_main_start :: "base_station \<Rightarrow> base_main" where
  "base_main_start memory =
     \<lparr>bm_station = bs_start (bs_set_application_message_handler (BaseStation STATION_ID memory)),
      bm_shutdown_requested = False, bm_posted = [], bm_io_stopped = False\<rparr>"

definition base_main_signal :: "base_main \<Rightarrow> base_main" where
  "base_main_signal s = s\<lparr>bm_shutdown_requested := True, bm_posted := bm_posted s @ [StopContext]\<rparr>"

subsection \<open>The console\<close>

text \<open>The white space that separates the words \<open>iss >> token\<close> reads.\<close>

definition is_space :: "char \<Rightarrow> bool" where
  "is_space c \<longleftrightarrow> c = CHR '' '' \<or> of_char c \<in> {9 .. 13 :: nat}"

text \<open>The words of a line, with the characters of the current word in the first argument.\<close>

fun read_tokens :: "string \<Rightarrow> string \<Rightarrow> string list" where
  "read_tokens word [] = (if word = [] then [] else [word])"
| "read_tokens word (c # cs) =
     (if is_space c then (if word = [] then read_tokens [] cs else word # read_tokens [] cs)
      else read_tokens (word @ [c]) cs)"

text \<open>The body of the loop after the line was split into at least one word.\<close>

definition console_command :: "lib \<Rightarrow> string list \<Rightarrow> base_main \<Rightarrow> base_main" where
  "console_command L tokens s =
     (let command = tokens ! 0
      in if command = ''quit'' then
           s\<lparr>bm_shutdown_requested := True, bm_posted := bm_posted s @ [QuitStation]\<rparr>
         else if command = ''low_power'' \<and> length tokens = 2 then
           (let enable = (tokens ! 1 = ''on'')
            in s\<lparr>bm_posted := bm_posted s @ [SetLowPower enable]\<rparr>)
         else if command = ''set_target'' \<and> length tokens = 3 then
           (case stod L (tokens ! 1) of
              None \<Rightarrow> s
            | Some lat \<Rightarrow>
                (case stod L (tokens ! 2) of
                   None \<Rightarrow> s
                 | Some lon \<Rightarrow> s\<lparr>bm_posted := bm_posted s @ [SetTarget lat lon]\<rparr>))
         else s)"

text \<open>
  The thread, on the lines it will read. With each line comes whether a signal arrives before the
  thread looks at the line; a signal after that is seen when the next line is looked at.
\<close>

fun command_input_thread :: "lib \<Rightarrow> (bool \<times> string) list \<Rightarrow> base_main \<Rightarrow> base_main" where
  "command_input_thread L [] s = s"
| "command_input_thread L ((signalled, line) # input) s =
     (let s0 = (if signalled then base_main_signal s else s)
      in if bm_shutdown_requested s0 then s0
         else
           let tokens = read_tokens [] line
           in if tokens = [] then command_input_thread L input s0
              else
                let s1 = console_command L tokens s0
                in if bm_shutdown_requested s1 then s1 else command_input_thread L input s1)"

text \<open>What a posted task does. Nothing runs once the \<open>io_context\<close> is stopped.\<close>

definition run_console_task :: "lib \<Rightarrow> console_task \<Rightarrow> base_main \<Rightarrow> base_main" where
  "run_console_task L task s =
     (if bm_io_stopped s then s
      else case task of
             QuitStation \<Rightarrow> s\<lparr>bm_station := bs_stop (bm_station s), bm_io_stopped := True\<rparr>
           | StopContext \<Rightarrow> s\<lparr>bm_io_stopped := True\<rparr>
           | SetLowPower enable \<Rightarrow> s\<lparr>bm_station := bs_set_low_power_mode L enable (bm_station s)\<rparr>
           | SetTarget lat lon \<Rightarrow> s\<lparr>bm_station := bs_set_rover_target L lat lon (bm_station s)\<rparr>)"

definition run_posted :: "lib \<Rightarrow> base_main \<Rightarrow> base_main" where
  "run_posted L s = foldl (\<lambda>s task. run_console_task L task s) (s\<lparr>bm_posted := []\<rparr>) (bm_posted s)"

subsection \<open>What a session at the console means\<close>

text \<open>The words of a text: maximal runs without white space.\<close>

lemma read_tokens_word:
  "\<forall>c \<in> set w. \<not> is_space c \<Longrightarrow> read_tokens word (w @ rest) = read_tokens (word @ w) rest"
  by (induction w arbitrary: word) auto

definition word_ok :: "string \<Rightarrow> bool" where
  "word_ok w \<longleftrightarrow> w \<noteq> [] \<and> (\<forall>c \<in> set w. \<not> is_space c)"

text \<open>Typing words with one space between them gives back the words.\<close>

fun typed :: "string list \<Rightarrow> string" where
  "typed [] = []"
| "typed [w] = w"
| "typed (w # ws) = w @ '' '' @ typed ws"

lemma read_tokens_typed: "\<forall>w \<in> set ws. word_ok w \<Longrightarrow> read_tokens [] (typed ws) = ws"
proof (induction ws rule: typed.induct)
  case (2 w)
  then show ?case using read_tokens_word [of w "[]" "[]"] by (simp add: word_ok_def)
next
  case (3 w v ws)
  then have "read_tokens [] (w @ '' '' @ typed (v # ws)) = read_tokens w ('' '' @ typed (v # ws))"
    using read_tokens_word [of w "[]"] by (simp add: word_ok_def)
  then show ?case using 3 by (simp add: word_ok_def is_space_def)
qed simp

text \<open>The task a command stands for.\<close>

fun task_of :: "lib \<Rightarrow> string list \<Rightarrow> console_task option" where
  "task_of L (c # args) =
     (if c = ''quit'' then Some QuitStation
      else case args of
        [x] \<Rightarrow> if c = ''low_power'' then Some (SetLowPower (x = ''on'')) else None
      | [x, y] \<Rightarrow> if c = ''set_target'' then (case (stod L x, stod L y) of
            (Some lat, Some lon) \<Rightarrow> Some (SetTarget lat lon) | _ \<Rightarrow> None) else None
      | _ \<Rightarrow> None)"
| "task_of L [] = None"

lemma console_command_task:
  assumes "tokens \<noteq> []"
  shows "console_command L tokens s = (case task_of L tokens of
      None \<Rightarrow> s
    | Some t \<Rightarrow> s\<lparr>bm_shutdown_requested := (bm_shutdown_requested s \<or> t = QuitStation), bm_posted := bm_posted s @ [t]\<rparr>)"
proof -
  obtain c args where t: "tokens = c # args" using assms by (cases tokens) auto
  consider "args = []" | x where "args = [x]" | x y where "args = [x, y]" | x y z zs where "args = x # y # z # zs"
    by (cases args rule: remdups_adj.cases) (auto, metis list.exhaust)
  then show ?thesis
    by cases (auto simp: t console_command_def Let_def split: option.splits)
qed

fun until_quit :: "console_task list \<Rightarrow> console_task list" where
  "until_quit [] = []"
| "until_quit (t # ts) = (if t = QuitStation then [t] else t # until_quit ts)"

definition tasks_of :: "lib \<Rightarrow> string list \<Rightarrow> console_task list" where
  "tasks_of L lines = until_quit (List.map_filter (\<lambda>line. task_of L (read_tokens [] line)) lines)"

lemma thread_line:
  assumes "\<not> bm_shutdown_requested s"
  shows "command_input_thread L ((False, line) # input) s = (case task_of L (read_tokens [] line) of
      None \<Rightarrow> command_input_thread L input s
    | Some t \<Rightarrow> (let s1 = s\<lparr>bm_shutdown_requested := (t = QuitStation), bm_posted := bm_posted s @ [t]\<rparr>
                in if t = QuitStation then s1 else command_input_thread L input s1))"
proof (cases "read_tokens [] line = []")
  case False
  note c = console_command_task [OF False, of L s]
  show ?thesis
  proof (cases "task_of L (read_tokens [] line)")
    case None
    then have "console_command L (read_tokens [] line) s = s" using c by simp
    then show ?thesis using False None assms by (simp only: command_input_thread.simps Let_def) simp
  next
    case (Some t)
    then have "console_command L (read_tokens [] line) s
        = s\<lparr>bm_shutdown_requested := (t = QuitStation), bm_posted := bm_posted s @ [t]\<rparr>" using c assms by simp
    then show ?thesis using False Some assms by (simp only: command_input_thread.simps Let_def) simp
  qed
qed (use assms in simp)

lemma thread_posts:
  assumes "\<not> bm_shutdown_requested s" and "s1 = command_input_thread L (map (Pair False) lines) s"
  shows "bm_posted s1 = bm_posted s @ tasks_of L lines
    \<and> (bm_shutdown_requested s1 \<longleftrightarrow> QuitStation \<in> set (tasks_of L lines))
    \<and> bm_station s1 = bm_station s \<and> bm_io_stopped s1 = bm_io_stopped s"
  using assms
proof (induction lines arbitrary: s s1)
  case Nil
  then show ?case by (simp add: tasks_of_def map_filter_simps)
next
  case (Cons line lines)
  note step = thread_line [OF Cons.prems(1), of L line "map (Pair False) lines"]
  show ?case
  proof (cases "task_of L (read_tokens [] line)")
    case None
    then have "s1 = command_input_thread L (map (Pair False) lines) s" using step Cons.prems(2) by simp
    from Cons.IH [OF Cons.prems(1) this] show ?thesis using None by (simp add: tasks_of_def map_filter_simps)
  next
    case (Some t)
    let ?s = "s\<lparr>bm_shutdown_requested := (t = QuitStation), bm_posted := bm_posted s @ [t]\<rparr>"
    have tasks: "tasks_of L (line # lines) = (if t = QuitStation then [t] else t # tasks_of L lines)"
      using Some by (simp add: tasks_of_def map_filter_simps)
    have s1: "s1 = (if t = QuitStation then ?s else command_input_thread L (map (Pair False) lines) ?s)"
      using step Some Cons.prems(2) by (simp only: Let_def list.map option.case)
    show ?thesis
      using Cons.IH [of ?s s1] s1 by (cases "t = QuitStation") (simp_all only: tasks if_True if_False, simp_all)
  qed
qed

text \<open>The call of the station a task makes.\<close>

fun call_of :: "lib \<Rightarrow> console_task \<Rightarrow> base_station \<Rightarrow> base_station" where
  "call_of L QuitStation b = bs_stop b"
| "call_of L StopContext b = b"
| "call_of L (SetLowPower enable) b = bs_set_low_power_mode L enable b"
| "call_of L (SetTarget lat lon) b = bs_set_rover_target L lat lon b"

lemma run_until_quit:
  assumes "\<not> bm_io_stopped s" and "StopContext \<notin> set ts"
    and "s1 = foldl (\<lambda>s task. run_console_task L task s) s (until_quit ts)"
  shows "bm_station s1 = foldl (\<lambda>b t. call_of L t b) (bm_station s) (until_quit ts)
    \<and> (bm_io_stopped s1 \<longleftrightarrow> QuitStation \<in> set (until_quit ts))"
  using assms
proof (induction ts arbitrary: s s1)
  case (Cons t ts)
  show ?case
  proof (cases "t = QuitStation")
    case False
    have "bm_station (run_console_task L t s) = call_of L t (bm_station s)"
      "\<not> bm_io_stopped (run_console_task L t s)"
      using Cons.prems(1,2) False by (cases t; simp add: run_console_task_def)+
    then show ?thesis using Cons.IH [of "run_console_task L t s" s1] Cons.prems False by simp
  qed (use Cons.prems in \<open>simp add: run_console_task_def\<close>)
qed simp

lemma no_stop_context: "StopContext \<notin> set (List.map_filter (\<lambda>line. task_of L (read_tokens [] line)) lines)"
proof -
  have "task_of L tokens \<noteq> Some StopContext" for tokens
    by (cases tokens) (auto split: list.splits option.splits)
  then show ?thesis by (auto simp: List.map_filter_def)
qed

lemma thread_signal:
  "command_input_thread L (map (Pair False) lines @ (True, line) # input) s =
     (let t = command_input_thread L (map (Pair False) lines) s
      in if bm_shutdown_requested t then t else base_main_signal t)"
  if "\<not> bm_shutdown_requested s"
  using that
proof (induction lines arbitrary: s)
  case Nil
  then show ?case by (simp add: base_main_signal_def)
next
  case (Cons l lines)
  show ?case
  proof (cases "task_of L (read_tokens [] l)")
    case None
    then show ?thesis using Cons by (simp add: thread_line del: command_input_thread.simps)
  next
    case (Some t)
    then show ?thesis
      using Cons.prems Cons.IH [of "s\<lparr>bm_shutdown_requested := False, bm_posted := bm_posted s @ [t]\<rparr>"]
      by (simp add: thread_line Let_def del: command_input_thread.simps)
  qed
qed

text \<open>C31: the console of the base station program: of the typed lines, those that are a command with the
  right number of words and readable numbers are turned into calls of the station, in the order
  typed, up to and including the first \<open>quit\<close>; every other line does nothing. The event loop ends
  exactly if there was a \<open>quit\<close>. If a signal arrives before some line, that line and all later ones
  have no effect and the event loop ends after the calls of the lines before it.\<close>

theorem console_session:
  assumes "\<not> bm_shutdown_requested s" and "\<not> bm_io_stopped s" and "bm_posted s = []"
    and "s1 = run_posted L (command_input_thread L (map (Pair False) lines) s)"
    and "s2 = run_posted L (command_input_thread L (map (Pair False) lines @ (True, line) # input) s)"
  shows "bm_station s1 = foldl (\<lambda>b t. call_of L t b) (bm_station s) (tasks_of L lines)
    \<and> (bm_io_stopped s1 \<longleftrightarrow> QuitStation \<in> set (tasks_of L lines))
    \<and> bm_station s2 = bm_station s1 \<and> bm_io_stopped s2"
proof -
  define t where "t = command_input_thread L (map (Pair False) lines) s"
  have t: "bm_posted t = tasks_of L lines" "bm_shutdown_requested t \<longleftrightarrow> QuitStation \<in> set (tasks_of L lines)"
    "bm_station t = bm_station s" "\<not> bm_io_stopped t"
    using thread_posts [OF assms(1) t_def] assms(2,3) by simp_all
  have run: "bm_station (foldl (\<lambda>s task. run_console_task L task s) u (tasks_of L lines))
        = foldl (\<lambda>b t. call_of L t b) (bm_station s) (tasks_of L lines)
      \<and> (bm_io_stopped (foldl (\<lambda>s task. run_console_task L task s) u (tasks_of L lines))
        \<longleftrightarrow> QuitStation \<in> set (tasks_of L lines))"
    if "bm_station u = bm_station s" "\<not> bm_io_stopped u" for u
    using run_until_quit [OF that(2) no_stop_context refl, of L L lines] that(1) by (simp add: tasks_of_def)
  have s1: "s1 = foldl (\<lambda>s task. run_console_task L task s) (t\<lparr>bm_posted := []\<rparr>) (tasks_of L lines)"
    using assms(4) t(1) by (simp add: run_posted_def flip: t_def)
  have s2: "bm_station s2 = bm_station s1 \<and> bm_io_stopped s2"
  proof (cases "QuitStation \<in> set (tasks_of L lines)")
    case True
    then have "s2 = s1"
      using assms(4,5) thread_signal [OF assms(1), of L lines line input] t(2) by (simp flip: t_def)
    then show ?thesis using run [of "t\<lparr>bm_posted := []\<rparr>"] True t by (simp add: s1)
  next
    case False
    let ?u = "t\<lparr>bm_shutdown_requested := True, bm_posted := []\<rparr>"
    have "s2 = run_console_task L StopContext (foldl (\<lambda>s task. run_console_task L task s) ?u (tasks_of L lines))"
      using False assms(5) thread_signal [OF assms(1), of L lines line input] t
      by (simp add: base_main_signal_def run_posted_def flip: t_def)
    then show ?thesis
      using run [of "t\<lparr>bm_posted := []\<rparr>"] run [of ?u] False t by (simp add: s1 run_console_task_def)
  qed
  show ?thesis using run [of "t\<lparr>bm_posted := []\<rparr>"] t s2 by (simp add: s1)
qed

theorem console_session_witness:
  "bm_station (run_posted json_lib (command_input_thread json_lib
     (map (Pair False) [''low_power on'', ''low_power'', ''quit'', ''low_power off'']) (base_main_start blank_base)))
   = bs_stop (bs_set_low_power_mode json_lib True (bm_station (base_main_start blank_base)))"
proof -
  have "\<not> bm_shutdown_requested (base_main_start blank_base)" "\<not> bm_io_stopped (base_main_start blank_base)"
    "bm_posted (base_main_start blank_base) = []"
    by (simp_all add: base_main_start_def)
  from console_session [OF this refl refl, of json_lib "[''low_power on'', ''low_power'', ''quit'', ''low_power off'']"]
  show ?thesis by (simp add: tasks_of_def map_filter_simps is_space_def)
qed

end
