(* ===== verification/Rover_Main.thy ===== *)
theory Rover_Main
  imports Lumen_Link
begin

text \<open>
  The rover program (\<open>src/rover/test_rover_main.cpp\<close>): a \<open>Rover\<close> together with two more UDP
  listeners through which rovers of other groups find each other. A probe on the first listener is
  answered and its sender remembered; a timer asks every remembered address for its location;
  another timer scans the address range; a request on the second listener is answered with a
  location. What the program prints is left out. The step relation collects everything that can
  happen; the invariant keeps the rover's own invariant and the two timers running until the
  program is stopped.
\<close>

definition EXTRA_LISTENER_PORT :: u16 where "EXTRA_LISTENER_PORT = 60060"
definition COORD_REQUEST_TARGET_PORT :: u16 where "COORD_REQUEST_TARGET_PORT = 50050"
definition BASE_PORT :: nat where "BASE_PORT = 9000"
definition BASE_HOST :: string where "BASE_HOST = ''10.237.0.201''"
definition ROVER_ID :: string where "ROVER_ID = ''grp-18''"

record rover_main =
  main_rover :: rover
  extra_listener :: udp_server
  coords_listener :: udp_server
  received_endpoints :: "endpoint list"
  request_timer :: timer
  broadcast_timer :: timer
  main_io_stopped :: bool

text \<open>How a wait on a timer completes.\<close>

datatype wait_result = Fired | WaitAborted | WaitError

text \<open>
  The receive completion handler of a \<open>UdpServer\<close> that is a part of some state: \<open>get\<close> reads it and
  \<open>upd\<close> updates it.
\<close>

definition socket_receive ::
  "('s \<Rightarrow> udp_server) \<Rightarrow> ((udp_server \<Rightarrow> udp_server) \<Rightarrow> 's \<Rightarrow> 's) \<Rightarrow> (bytes \<Rightarrow> endpoint \<Rightarrow> 's \<Rightarrow> 's) \<Rightarrow>
   receive_result \<Rightarrow> 's \<Rightarrow> 's" where
  "socket_receive get upd receive_callback r s =
     (case r of
        Received data from \<Rightarrow>
          let s0 = upd (\<lambda>srv. srv\<lparr>srv_receiving := False, srv_sender := from\<rparr>) s
          in if srv_running (get s) then
               let s1 = (if srv_callback (get s) then receive_callback (take SERVER_SOCK_BUF_SIZE data) from s0 else s0)
               in upd srv_receive_data s1
             else s0
      | OperationAborted \<Rightarrow> upd (\<lambda>srv. srv\<lparr>srv_receiving := False\<rparr>) s
      | ReceiveError \<Rightarrow>
          upd (\<lambda>srv. let s0 = srv\<lparr>srv_receiving := False\<rparr> in if srv_running srv then srv_stop s0 else s0) s)"

text \<open>For the server of a base station it is the handler of the transport layer.\<close>

lemma socket_receive_server:
  "server s \<noteq> None \<Longrightarrow> socket_receive (\<lambda>s. the (server s)) (\<lambda>f s. s\<lparr>server := map_option f (server s)\<rparr>) cb r s
     = srv_handle_receive cb r s"
  by (auto simp: socket_receive_def srv_handle_receive_def Let_def split: receive_result.splits)

subsection \<open>The listeners\<close>

definition extra_listener_callback :: "lib \<Rightarrow> bytes \<Rightarrow> endpoint \<Rightarrow> rover_main \<Rightarrow> rover_main" where
  "extra_listener_callback L data sender s =
     (let found = (\<exists>ep \<in> set (received_endpoints s). ep = sender);
          s1 = (if \<not> found then s\<lparr>received_endpoints := received_endpoints s @ [sender]\<rparr> else s);
          response_msg = BasicMessage ''Acknowledged. We are group 18.'' ROVER_ID (system_now (main_rover s1))
      in s1\<lparr>main_rover := rv_send_raw_message L response_msg sender (main_rover s1)\<rparr>)"

definition coords_listener_callback :: "lib \<Rightarrow> bytes \<Rightarrow> endpoint \<Rightarrow> rover_main \<Rightarrow> rover_main" where
  "coords_listener_callback L data sender s =
     (let location = smap_assign ''longitude'' (- 6.2603) (smap_assign ''latitude'' 53.3498 []);
          location_msg = TelemetryMessage location ROVER_ID (system_now (main_rover s))
      in s\<lparr>main_rover := rv_send_raw_message L location_msg sender (main_rover s)\<rparr>)"

definition extra_listener_receive :: "lib \<Rightarrow> receive_result \<Rightarrow> rover_main \<Rightarrow> rover_main" where
  "extra_listener_receive L r s =
     socket_receive extra_listener extra_listener_update (extra_listener_callback L) r s"

definition coords_listener_receive :: "lib \<Rightarrow> receive_result \<Rightarrow> rover_main \<Rightarrow> rover_main" where
  "coords_listener_receive L r s =
     socket_receive coords_listener coords_listener_update (coords_listener_callback L) r s"

subsection \<open>The timers\<close>

text \<open>The request to one remembered endpoint: its address, at the port of the coordinate listener.\<close>

definition send_request :: "lib \<Rightarrow> endpoint \<Rightarrow> rover \<Rightarrow> rover" where
  "send_request L ep r =
     rv_send_raw_message L (CommandMessage ''SEND_DATA'' ''LOCATION'' ROVER_ID (system_now r))
       \<lparr>ep_address = ep_address ep, ep_port = COORD_REQUEST_TARGET_PORT\<rparr> r"

definition request_timer_handler :: "lib \<Rightarrow> wait_result \<Rightarrow> rover_main \<Rightarrow> rover_main" where
  "request_timer_handler L ec s =
     (if ec = WaitAborted then s
      else if ec = WaitError then s
      else
        let s1 = (if rv_is_low_power_mode (main_rover s) then s
                  else s\<lparr>main_rover := foldl (\<lambda>r ep. send_request L ep r) (main_rover s) (received_endpoints s)\<rparr>)
        in s1\<lparr>request_timer := arm_after (ms 17000) (main_rover s1) (request_timer s1)\<rparr>)"

definition broadcast_timer_handler :: "lib \<Rightarrow> wait_result \<Rightarrow> rover_main \<Rightarrow> rover_main" where
  "broadcast_timer_handler L ec s =
     (if ec = WaitAborted then s
      else if ec = WaitError then s
      else
        let s1 = (if rv_is_low_power_mode (main_rover s) then s
                  else s\<lparr>extra_listener := srv_scan_for_rovers L (system_now (main_rover s))
                           EXTRA_LISTENER_PORT ''ACK IF ALIVE'' ROVER_ID (extra_listener s)\<rparr>)
        in s1\<lparr>broadcast_timer := arm_after (ms 23000) (main_rover s1) (broadcast_timer s1)\<rparr>)"

subsection \<open>Set-up and shutdown\<close>

definition start_listeners :: "rover_main \<Rightarrow> rover_main" where
  "start_listeners s =
     s\<lparr>extra_listener := srv_start (extra_listener s), coords_listener := srv_start (coords_listener s)\<rparr>"

definition start_timers :: "rover_main \<Rightarrow> rover_main" where
  "start_timers s =
     (let s1 = s\<lparr>broadcast_timer := async_wait (expires_at (steady_now (main_rover s)) (broadcast_timer s))\<rparr>
      in s1\<lparr>request_timer := arm_after (ms 14000) (main_rover s1) (request_timer s1)\<rparr>)"

definition rover_main_start :: "lib \<Rightarrow> rover \<Rightarrow> exn + rover_main" where
  "rover_main_start L memory =
     (case Rover L BASE_HOST BASE_PORT ROVER_ID memory of
        Inl (e, r) \<Rightarrow> Inl e
      | Inr r0 \<Rightarrow>
          let r1 = rv_update_current_position 53.3498 (- 6.2603)
                     (rv_start L (rv_set_application_message_handler r0));
              s = \<lparr>main_rover = r1,
                   extra_listener = srv_set_receive_callback UdpServer,
                   coords_listener = srv_set_receive_callback UdpServer,
                   received_endpoints = [], request_timer = new_timer, broadcast_timer = new_timer,
                   main_io_stopped = False\<rparr>
          in Inr (start_timers (start_listeners s)))"

definition rover_main_signal :: "rover_main \<Rightarrow> rover_main" where
  "rover_main_signal s =
     s\<lparr>request_timer := cancel (request_timer s), broadcast_timer := cancel (broadcast_timer s),
       extra_listener := srv_stop (extra_listener s), coords_listener := srv_stop (coords_listener s),
       main_rover := rv_stop (main_rover s), main_io_stopped := True\<rparr>"

subsection \<open>What can happen\<close>

inductive main_step :: "lib \<Rightarrow> rover_main \<Rightarrow> rover_main \<Rightarrow> bool" for L where
  rover: "\<not> main_io_stopped s \<Longrightarrow> rover_step L (main_rover s) r \<Longrightarrow> main_step L s (s\<lparr>main_rover := r\<rparr>)"
| probed: "\<not> main_io_stopped s \<Longrightarrow> main_step L s (extra_listener_receive L r s)"
| asked: "\<not> main_io_stopped s \<Longrightarrow> main_step L s (coords_listener_receive L r s)"
| request: "\<not> main_io_stopped s \<Longrightarrow> tm_waiting (request_timer s) \<Longrightarrow>
    main_step L s (request_timer_handler L Fired (s\<lparr>request_timer := cancel (request_timer s)\<rparr>))"
| broadcast: "\<not> main_io_stopped s \<Longrightarrow> tm_waiting (broadcast_timer s) \<Longrightarrow>
    main_step L s (broadcast_timer_handler L Fired (s\<lparr>broadcast_timer := cancel (broadcast_timer s)\<rparr>))"
| signal: "\<not> main_io_stopped s \<Longrightarrow> main_step L s (rover_main_signal s)"

inductive main_run :: "lib \<Rightarrow> rover_main \<Rightarrow> bool" for L where
  started: "rover_main_start L memory = Inr s \<Longrightarrow> main_run L s"
| step: "main_run L s \<Longrightarrow> main_step L s t \<Longrightarrow> main_run L t"

definition main_ok :: "lib \<Rightarrow> rover_main \<Rightarrow> bool" where
  "main_ok L s \<longleftrightarrow> rover_run L (main_rover s) \<and> distinct (received_endpoints s) \<and>
     (\<not> main_io_stopped s \<longrightarrow> tm_waiting (request_timer s) \<and> tm_waiting (broadcast_timer s))"

lemma rover_run_raw: "rover_run L r \<Longrightarrow> rover_run L (rv_send_raw_message L m ep r)"
  by (erule rover_run.step) (rule rover_stepI, rule rover_event.send_raw_message)

lemma main_ok_callbacks:
  assumes "main_ok L s"
  shows "main_ok L (extra_listener_callback L d ep s)" "main_ok L (coords_listener_callback L d ep s)"
  using assms
  by (auto simp: main_ok_def extra_listener_callback_def coords_listener_callback_def Let_def rover_run_raw)

lemma main_ok_listeners [simp]:
  "main_ok L (extra_listener_update f s) = main_ok L s" "main_ok L (coords_listener_update f s) = main_ok L s"
  by (simp_all add: main_ok_def)

lemma main_ok_receive:
  assumes "main_ok L s"
  shows "main_ok L (extra_listener_receive L r s)" "main_ok L (coords_listener_receive L r s)"
  using assms
  by (auto simp: extra_listener_receive_def coords_listener_receive_def socket_receive_def Let_def
      main_ok_callbacks split: receive_result.splits)

lemma rover_run_requests: "rover_run L r \<Longrightarrow> rover_run L (foldl (\<lambda>r ep. send_request L ep r) r eps)"
  by (rule foldl_preserves [where P = "rover_run L"]) (auto simp: send_request_def rover_run_raw)

lemma main_ok_step: "main_step L s t \<Longrightarrow> main_ok L s \<Longrightarrow> main_ok L t"
proof (induction rule: main_step.induct)
  case (rover s r)
  then show ?case by (auto simp: main_ok_def intro: rover_run.step)
next
  case (signal s)
  then show ?case
    by (auto simp: main_ok_def rover_main_signal_def intro: rover_run.step [OF _ rover_stepI [OF rover_event.stop]])
qed (auto simp: main_ok_receive, auto simp: main_ok_def request_timer_handler_def
    broadcast_timer_handler_def Let_def rover_run_requests)

lemma main_ok_start: "rover_main_start L memory = Inr s \<Longrightarrow> main_ok L s"
proof -
  assume "rover_main_start L memory = Inr s"
  then obtain r where r: "Rover L BASE_HOST BASE_PORT ROVER_ID memory = Inr r"
    and s: "main_rover s = rv_update_current_position 53.3498 (- 6.2603)
              (rv_start L (rv_set_application_message_handler r))"
      "received_endpoints s = []" "tm_waiting (request_timer s)" "tm_waiting (broadcast_timer s)"
    by (auto simp: rover_main_start_def start_timers_def start_listeners_def Let_def arm_after_def
        split: sum.splits)
  have "rover_run L (rv_start L (rv_set_application_message_handler r))"
    using rover_run.created [OF r]
    by (rule rover_run.step [OF rover_run.step]) (rule rover_stepI, rule rover_event.intros)+
  then have "rover_run L (main_rover s)"
    unfolding s(1) by (rule rover_run.step) (rule rover_stepI, rule rover_event.update_position)
  then show ?thesis using s by (simp add: main_ok_def)
qed

lemma main_run_ok: "main_run L s \<Longrightarrow> main_ok L s"
  by (induction rule: main_run.induct) (auto intro: main_ok_start main_ok_step)

subsection \<open>Finding and asking neighbours\<close>

lemma raw_send_out:
  assumes up: "rv_up base r" and low: "\<not> rv_low_power_mode r" and ep: "valid_recipient ep"
    and json: "serialise L m = Inr json" and t: "t = rv_send_raw_message L m ep r"
  shows "outbox t = outbox r @ [(string_to_binary json, ep)]" "rv_up base t" "upper t = upper r"
proof -
  have eq: "t = mm_send_raw_message L m ep r"
    using low ep by (simp add: t rv_send_raw_message_def valid_recipient_def rv_is_low_power_mode_def Let_def)
  obtain c where c: "client r = Some c" "server r = None" "cl_get_base_endpoint c = Inr base"
    using up by (auto simp: rv_up_def can_reach_def node_ok_def client_base_endpoint_def split: option.splits)
  have base: "cl_base c = base" "\<not> is_unspecified base"
    using c(3) by (auto simp: cl_get_base_endpoint_def split: if_splits)
  let ?c = "c\<lparr>cl_out := cl_out c @ [(string_to_binary json, ep)]\<rparr>"
  have t: "t = r\<lparr>client := Some ?c\<rparr>"
    using up json ep c base
    by (auto simp: eq mm_send_raw_message_def rv_up_def valid_recipient_def cl_send_data_def cl_send_data_to_def
        Let_def)
  show "outbox t = outbox r @ [(string_to_binary json, ep)]"
    using up c by (simp add: t outbox_def rv_up_def)
  show "upper t = upper r" by (simp add: eq)
  show "rv_up base t"
    using up c base by (auto simp: t rv_up_def can_reach_def node_ok_def client_base_endpoint_def
        cl_get_base_endpoint_def)
qed

lemmas rover_same = same_upper rv_same_upper

lemma requests_out:
  assumes "rv_up base r" and "\<not> rv_low_power_mode r" and "\<forall>ep \<in> set eps. \<not> is_unspecified ep"
    and "serialise L (CommandMessage ''SEND_DATA'' ''LOCATION'' ROVER_ID (system_now r)) = Inr json"
    and "t = foldl (\<lambda>r ep. send_request L ep r) r eps"
  shows "outbox t = outbox r @ map (\<lambda>ep. (string_to_binary json,
            \<lparr>ep_address = ep_address ep, ep_port = COORD_REQUEST_TARGET_PORT\<rparr>)) eps \<and> upper t = upper r"
  using assms
proof (induction eps arbitrary: r)
  case (Cons ep eps)
  let ?r = "send_request L ep r"
  have "valid_recipient \<lparr>ep_address = ep_address ep, ep_port = COORD_REQUEST_TARGET_PORT\<rparr>"
    using Cons.prems(3) by (simp add: valid_recipient_def is_unspecified_def COORD_REQUEST_TARGET_PORT_def)
  note out = raw_send_out [OF Cons.prems(1,2) this Cons.prems(4), of ?r]
  have u: "outbox ?r = outbox r @ [(string_to_binary json, \<lparr>ep_address = ep_address ep, ep_port = COORD_REQUEST_TARGET_PORT\<rparr>)]"
    "rv_up base ?r" "upper ?r = upper r"
    using out by (simp_all add: send_request_def)
  show ?case
    using Cons.IH [of ?r] Cons.prems u rover_same [OF u(3)] by simp
qed simp

lemma probe_received:
  assumes "srv_running (extra_listener s)" and "srv_callback (extra_listener s)"
    and "s1 = extra_listener_receive L (Received data sender) s"
  shows "received_endpoints s1 = (if sender \<in> set (received_endpoints s) then received_endpoints s
           else received_endpoints s @ [sender])"
    "main_rover s1 = rv_send_raw_message L (BasicMessage ''Acknowledged. We are group 18.'' ROVER_ID
       (system_now (main_rover s))) sender (main_rover s)"
    "srv_running (extra_listener s1)" "srv_out (extra_listener s1) = srv_out (extra_listener s)"
  using assms
  by (auto simp: extra_listener_receive_def socket_receive_def extra_listener_callback_def Let_def
      srv_receive_data_def)

text \<open>C30: how rovers of different groups find each other: a datagram on the rover program's extra listener
  makes it remember the sender, once, and answer it with one message; the next time the request
  timer fires it asks every remembered sender, in the order of discovery and at the port for
  coordinates, for its location, once each, and arms the timer again for 17 seconds; the broadcast
  timer makes the listener probe every address of the range once and is armed again for 23 seconds.
  In low-power mode the sender of the datagram is remembered but not answered, and the timers only
  arm themselves again.\<close>

theorem neighbours_found_and_asked:
  assumes "rv_up base (main_rover s)" and "srv_running (extra_listener s)" and "srv_callback (extra_listener s)"
    and "valid_recipient sender" and "\<forall>ep \<in> set (received_endpoints s). \<not> is_unspecified ep"
    and "serialise L (BasicMessage ''Acknowledged. We are group 18.'' ROVER_ID (system_now (main_rover s))) = Inr ack"
    and "serialise L (CommandMessage ''SEND_DATA'' ''LOCATION'' ROVER_ID (system_now (main_rover s))) = Inr ask"
    and "serialise L (CommandMessage ''ROVER_DISCOVER'' ''ACK IF ALIVE'' ROVER_ID (system_now (main_rover s))) = Inr probe"
    and "s1 = extra_listener_receive L (Received data sender) s"
    and "s2 = request_timer_handler L Fired s1"
    and "s3 = broadcast_timer_handler L Fired s2"
  shows "received_endpoints s1 = (if sender \<in> set (received_endpoints s) then received_endpoints s
           else received_endpoints s @ [sender])
    \<and> (if rv_low_power_mode (main_rover s)
       then outbox (main_rover s2) = outbox (main_rover s) \<and> srv_out (extra_listener s3) = srv_out (extra_listener s)
       else outbox (main_rover s2) = outbox (main_rover s) @ (string_to_binary ack, sender)
              # map (\<lambda>ep. (string_to_binary ask, \<lparr>ep_address = ep_address ep, ep_port = COORD_REQUEST_TARGET_PORT\<rparr>))
                  (received_endpoints s1)
         \<and> srv_out (extra_listener s3) = srv_out (extra_listener s) @ map (Pair (string_to_binary probe))
              (filter valid_recipient (List.map_filter (scan_target L EXTRA_LISTENER_PORT) srv_scan_hosts)))
    \<and> request_timer s3 = \<lparr>tm_expiry = steady_now (main_rover s) + ms 17000, tm_waiting = True\<rparr>
    \<and> broadcast_timer s3 = \<lparr>tm_expiry = steady_now (main_rover s) + ms 23000, tm_waiting = True\<rparr>"
proof -
  let ?r = "rv_send_raw_message L (BasicMessage ''Acknowledged. We are group 18.'' ROVER_ID
              (system_now (main_rover s))) sender (main_rover s)"
  note s1 = probe_received [OF assms(2,3,9)]
  have known: "\<forall>ep \<in> set (received_endpoints s1). \<not> is_unspecified ep"
    using assms(4,5) s1(1) by (auto simp: valid_recipient_def)
  show ?thesis
  proof (cases "rv_low_power_mode (main_rover s)")
    case True
    then have r: "?r = main_rover s"
      by (simp add: rv_send_raw_message_def rv_is_low_power_mode_def Let_def)
    then show ?thesis
      using True s1 assms(10,11) unfolding r
      by (simp add: request_timer_handler_def broadcast_timer_handler_def Let_def rv_is_low_power_mode_def
          arm_after_def async_wait_def expires_at_def)
  next
    case False
    note ack = raw_send_out [OF assms(1) False assms(4,6) refl]
    note same = rover_same [OF ack(3)]
    define q where "q = foldl (\<lambda>r ep. send_request L ep r) ?r (received_endpoints s1)"
    have q: "outbox q = outbox ?r @ map (\<lambda>ep. (string_to_binary ask,
        \<lparr>ep_address = ep_address ep, ep_port = COORD_REQUEST_TARGET_PORT\<rparr>)) (received_endpoints s1)" "upper q = upper ?r"
      using requests_out [OF ack(2) _ known _ q_def, of ask] assms(7) False same by simp_all
    have s2: "main_rover s2 = q" "extra_listener s2 = extra_listener s1" "request_timer s2
        = \<lparr>tm_expiry = steady_now (main_rover s) + ms 17000, tm_waiting = True\<rparr>"
      using assms(10) s1(2) False same rover_same [OF q(2)]
      by (simp_all add: request_timer_handler_def Let_def rv_is_low_power_mode_def q_def arm_after_def
          async_wait_def expires_at_def)
    have "srv_out (extra_listener s3) = srv_out (extra_listener s1) @ map (Pair (string_to_binary probe))
              (filter valid_recipient (List.map_filter (scan_target L EXTRA_LISTENER_PORT) srv_scan_hosts))"
      using srv_scan_out [OF s1(3) assms(8), of EXTRA_LISTENER_PORT] assms(11) s2 False same rover_same [OF q(2)]
      by (simp add: broadcast_timer_handler_def Let_def rv_is_low_power_mode_def)
    moreover have "main_rover s3 = q" "request_timer s3 = request_timer s2"
      "broadcast_timer s3 = \<lparr>tm_expiry = steady_now (main_rover s) + ms 23000, tm_waiting = True\<rparr>"
      using assms(11) s2 same rover_same [OF q(2)]
      by (simp_all add: broadcast_timer_handler_def Let_def arm_after_def async_wait_def expires_at_def)
    ultimately show ?thesis using s1 s2 q ack(1) False by simp
  qed
qed

theorem neighbours_found_and_asked_witness:
  "let s = \<lparr>main_rover = idle_rover, extra_listener = srv_start (srv_set_receive_callback UdpServer),
             coords_listener = UdpServer, received_endpoints = [], request_timer = new_timer,
             broadcast_timer = new_timer, main_io_stopped = False\<rparr>
   in received_endpoints (extra_listener_receive rover_lib (Received [] sample_ep) s) = [sample_ep]"
proof -
  have ep: "valid_recipient sample_ep" by (simp add: valid_recipient_def sample_ep_def is_unspecified_def)
  let ?s = "\<lparr>main_rover = idle_rover, extra_listener = srv_start (srv_set_receive_callback UdpServer),
             coords_listener = UdpServer, received_endpoints = [], request_timer = new_timer,
             broadcast_timer = new_timer, main_io_stopped = False\<rparr>"
  have "rv_up sample_ep (main_rover ?s)" "srv_running (extra_listener ?s)" "srv_callback (extra_listener ?s)"
    "\<forall>ep \<in> set (received_endpoints ?s). \<not> is_unspecified ep"
    by (simp_all add: srv_start_def srv_set_receive_callback_def UdpServer_def srv_receive_data_def)
  from neighbours_found_and_asked [OF this(1-3) ep this(4) serialise_rover_lib serialise_rover_lib serialise_rover_lib
      refl refl refl, of "[]"]
  have "received_endpoints (extra_listener_receive rover_lib (Received [] sample_ep) ?s)
    = (if sample_ep \<in> set (received_endpoints ?s) then received_endpoints ?s else received_endpoints ?s @ [sample_ep])"
    by (rule conjunct1)
  then show ?thesis by (simp add: Let_def)
qed

end
