(* ===== verification/Spec2Isabelle.thy ===== *)
theory Spec2Isabelle
  imports Session_Spec Base_Reliability Base_Main Rover_Main
begin

text \<open>
  A verification of the LUMEN protocol stack, the network stack of a lunar rover and its base
  station: a layered, message oriented protocol over UDP with framing, checksums, asymmetric
  reliability, sessions, store-and-forward, and two programs on top.

  \<^bold>\<open>The parts and how they interact.\<close> A node is a tower of objects that call down by method and up
  by callback, all on the one thread of an \<open>io_context\<close>: \<open>UdpServer\<close> or \<open>UdpClient\<close> (sockets);
  \<open>LumenProtocol\<close> with its \<open>ReliabilityManager\<close> (packets, acknowledgements, NAKs, retransmission);
  \<open>MessageManager\<close> (messages as JSON text); \<open>BaseStation\<close> or \<open>Rover\<close> (sessions, routing, timers);
  and the program (console, extra listeners). Sending goes down the tower to an outgoing datagram;
  a received datagram goes up through the callbacks to the router of the station and from there to
  handlers posted for the application.

  \<^bold>\<open>How code becomes definitions.\<close> Each class is a record that extends the record of the class it
  sits on (\<open>net\<close>, \<open>reliability_manager\<close>, \<open>lumen_protocol\<close>, \<open>message_manager\<close>, then \<open>base_station\<close> or
  \<open>rover\<close>), so an operation of any layer works on the whole node and a call down the tower is a
  function application. Each method is one definition, with the prefix of its class (\<open>srv_\<close>, \<open>cl_\<close>,
  \<open>rm_\<close>, \<open>lp_\<close>, \<open>mm_\<close>, \<open>bs_\<close>, \<open>rv_\<close>) and the name it has in the source. A callback is an argument,
  with a flag in the state for "one is set". An exception is a value of the type \<open>result\<close>, which
  keeps the state at the throw. A handler posted to the \<open>io_context\<close> is an element of a list; a
  timer is a record with an expiry and a flag for an outstanding wait; the clock readings of the
  running handler are fields of the node. \<open>uint8_t\<close>, \<open>uint16_t\<close> and \<open>uint32_t\<close> are words of that
  width, so sequence numbers, the gap-check counter and lengths wrap as in the source. A
  \<open>std::map\<close> whose order or size the code uses is an association list with increasing keys, one
  that is only looked up is a function to options.

  \<^bold>\<open>The theories.\<close>
  \<open>Lumen_Prelude\<close>: machine types, ordered maps (interface \<open>ordered_map\<close>), the interface \<open>byte_codec\<close>.
  \<open>Lumen_Header\<close> (\<open>lumen_header.cpp\<close>, wire constants of \<open>configs.hpp\<close>): header parser and printer,
  CRC-8; it is linear and detects every burst of up to eight bits.
  \<open>Lumen_Packet\<close> (\<open>lumen_packet.cpp\<close>): the packet codec; parsing and printing are inverse and every
  damaged byte outside the length field is rejected.
  \<open>Lumen_External\<close>: endpoints, timers, JSON values, and the record \<open>lib\<close> of external functions.
  \<open>Messages\<close> (\<open>message.cpp\<close>, the four message classes, \<open>timepoint_utils.cpp\<close>): what is printed is
  read back, and which texts are accepted and rejected.
  \<open>Udp_Transport\<close> (\<open>udp_server.cpp\<close>, \<open>udp_client.cpp\<close>): sockets, with the interface
  \<open>datagram_sender\<close> that the layers above rely on.
  \<open>Reliability_Manager\<close> (\<open>reliability_manager.cpp\<close>): tracking, exponential backoff, bounded retries,
  gaps, NAK debounce, the interface \<open>ack_ledger\<close>, cleanup.
  \<open>Lumen_Protocol\<close> (\<open>lumen_protocol.cpp\<close>): all operations, and the framing loop as a refinement of
  the state-free specification \<open>deframe\<close>.
  \<open>Lumen_Reliable\<close>: what the layer guarantees whatever its callback does (which packets of a datagram
  are processed, gap reports, repair by NAK).
  \<open>Lumen_Invariant\<close>: its invariant and the contracts of its callbacks (\<open>protocol_client\<close>,
  \<open>timeout_client\<close>, \<open>upper_invariant\<close>).
  \<open>Message_Manager\<close> (\<open>message_manager.cpp\<close>), with the contract \<open>application\<close>.
  \<open>Base_Station\<close> (\<open>base_station.cpp\<close>): the session state machine, a step relation of everything that
  can happen to a base station, and its invariant by rule induction.
  \<open>Rover\<close>, \<open>Rover_Session\<close>, \<open>Rover_Behaviour\<close>, \<open>Rover_Events\<close>, \<open>Rover_Motion\<close> (\<open>rover.cpp\<close>): operations;
  the relation of everything that can happen to a rover, each event labelled with its cause (start,
  stop, datagram, packet timeout, retransmission, anything else), and its invariant with the
  liveness of the timers; handshake, store-and-forward, authority of the base station; what runs of
  events of given causes do and send (probing, the end of an unanswered handshake, low-power mode);
  and that a moving rover reaches its target in a bounded number of steps.
  \<open>Session_Spec\<close>: two small automata for what the sides promise about sessions, and that every event
  of the detailed nodes is a path of them; a rover's event only makes transitions of its own cause.
  \<open>Lumen_Link\<close>: what each end does with one packet of the other, from the socket to the router.
  \<open>Base_Reliability\<close>: what a datagram of several packets makes the whole base station acknowledge and
  hand on (every packet acknowledged, every message delivered once), and that it never forgets a
  packet it sent, with what that means for NAKs once the sequence numbers wrap.
  \<open>Base_Main\<close> (\<open>test_base_main.cpp\<close>) and \<open>Rover_Main\<close> (\<open>test_rover_main.cpp\<close>): the two programs.
  This theory composes both ends: a message crosses the whole stack and its acknowledgement ends its
  retransmission, the four-way handshake over the wire, a target set at the base station reaches
  the rover, and what happens to messages longer than the receive buffer.

  \<^bold>\<open>Termination.\<close> Every definition is total. The framing loop shrinks its buffer in every round, which
  is its measure; the retransmission, NAK and scan loops run over finite lists. No fuel is used.

  \<^bold>\<open>What is assumed.\<close> The fields of \<open>lib\<close> stand for code that is not in the repository: address and
  number texts, JSON parsing and printing, calendar formatting, name resolution. Theorems that rely
  on them say so: \<open>carried\<close> (the JSON text of a message is parsed back and fits into a datagram),
  \<open>coordinate_text\<close> (printed coordinates are read back), \<open>addr_text_ok\<close> (address texts identify
  addresses); each has an instance in the examples. The network may lose, repeat, reorder and
  damage datagrams; a theorem about a particular exchange names the datagrams that arrive.

  \<^bold>\<open>What is not modelled.\<close> Mutexes and thread interleavings inside a handler: handlers run to
  completion on one thread, and the console thread only posts tasks. Log output. The socket below
  \<open>async_send_to\<close>: a send is the datagram appended to a list, its completion handler only logs, and
  the lifetime of its buffer is not tracked. Destructors, which only call \<open>stop\<close>. Rounding: a
  \<open>double\<close> is an exact real number. A wait that has expired but whose handler has not run yet when
  the timer is cancelled: here the wait is dropped, with Asio the handler still runs (and looks at
  the session state first). Exceptions of the JSON parser other than a parse error; negative port
  numbers given to \<open>register_base\<close>. The relative order of tasks in the two lists of a program (the
  station's and the console's).
\<close>

subsection \<open>A message from the rover's application to the base station's\<close>

text \<open>C1: a message crosses the whole stack: what the application of a rover in session sends becomes one
  datagram to the base station and is kept for retransmission; that datagram makes the base station
  hand exactly this message, every field included, to its application and answer with one datagram
  to the rover; and that answer makes the rover forget the kept packet and nothing else, so it is
  not sent again.\<close>

theorem message_delivered_and_acknowledged:
  assumes "rv_ready L bep s" and "rv_session_state s = R_ACTIVE" and "\<not> rv_low_power_mode s"
    and "map_of (rm_sent_packets s) (lp_current_sequence s) = None"
    and "bs_ready L rep b" and "valid_recipient rep"
    and "bs_session_state b = B_ACTIVE" and "lp_session_active b"
    and "bs_connected_rover_id b = msg_sender m" and "bs_rover_endpoint b = rep"
    and "bs_application_message_handler b"
    and "\<not> rm_has_acked_sequence L (lp_current_sequence s) rep b"
    and "carried L (system_now b) m json"
    and "\<forall>c p i t. m = CommandMessage c p i t \<longrightarrow> c \<noteq> ''SESSION_INIT'' \<and> c \<noteq> ''SESSION_CONFIRM''"
    and "s1 = rv_send_message L m bep s"
    and "b1 = bs_receive L (Received (fst (last (outbox s1))) rep) b"
    and "s2 = rv_receive L (Received (fst (last (outbox b1))) bep) s1"
  shows "(\<exists>d. outbox s1 = outbox s @ [(d, bep)])
    \<and> map_of (rm_sent_packets s1) (lp_current_sequence s) \<noteq> None
    \<and> bs_posted b1 = bs_posted b @ status_update b m @ [BaseAppMessage m rep]
    \<and> (\<exists>a. outbox b1 = outbox b @ [(a, rep)])
    \<and> rm_has_acked_sequence L (lp_current_sequence s) rep b1
    \<and> map_of (rm_sent_packets s2) = map_of (rm_sent_packets s) \<and> outbox s2 = outbox s1"
proof -
  have up: "rv_up bep s" using assms(1) by (simp add: rv_ready_def)
  have json: "serialise L m = Inr json" using assms(13) by (rule carried_serialise)
  have s1: "s1 = mm_send_message L m bep s" using active_send [OF up assms(2,3)] assms(15) by simp
  let ?p = "message_packet (string_to_binary json) (get_lumen_type m) (get_lumen_priority m) s"
  have o1: "outbox s1 = outbox s @ [(packet_to_bytes ?p, bep)]"
    using up json rv_up_specified [OF up] by (simp add: s1 mm_send_message_out rv_up_def)
  have p: "packet_ok ?p" "pkt_payload ?p = string_to_binary json"
    "hdr_type (pkt_header ?p) \<noteq> ACK" "hdr_type (pkt_header ?p) \<noteq> NAK"
    "\<not> rm_has_acked_sequence L (hdr_sequence (pkt_header ?p)) rep b"
    using carried_packet_ok [OF assms(13)] assms(12) by simp_all
  let ?g = "bs_got L ?p rep b"
  have route: "bs_route_message L m rep ?g = ?g\<lparr>bs_posted := bs_posted b @ status_update b m @ [BaseAppMessage m rep]\<rparr>"
    using bs_route_posts [of ?g m rep L] assms(7,9-11,14) by (simp add: bs_got_same status_update_def)
  have b1: "b1 = srv_listens (store_rest L [] rep (bs_route_message L m rep ?g))"
    using bs_receive_message [OF assms(5,13) p] assms(16) o1 by simp
  have ob: "outbox b1 = outbox b @ [(packet_to_bytes (control_packet ACK (lp_current_sequence s)
      (lp_current_sequence b) (generate_timestamp b)), rep)]"
    using bs_got_out(1) [OF assms(5,6), of ?p] assms(8) by (simp add: b1 route)
  have posted: "bs_posted b1 = bs_posted b @ status_update b m @ [BaseAppMessage m rep]"
    by (simp add: b1 route srv_listens_def store_rest_def)
  have acked: "rm_has_acked_sequence L (lp_current_sequence s) rep b1"
    using bs_got_acked [OF assms(5,8), of ?p]
    by (auto simp: b1 route rm_has_acked_sequence_def srv_listens_def store_rest_def split: if_splits)
  have ready1: "rv_ready L bep s1" using assms(1) by (simp add: s1 rv_ready_mm_send)
  note ack = rv_receive_ack [OF ready1, of s2 "lp_current_sequence s" "lp_current_sequence b" "generate_timestamp b"]
  have "map_of (rm_sent_packets s2) = (map_of (rm_sent_packets s1))(lp_current_sequence s := None)"
    "outbox s2 = outbox s1"
    using ack assms(17) ob by simp_all
  moreover have "map_of (rm_sent_packets s1) = (map_of (rm_sent_packets s))(lp_current_sequence s \<mapsto>
       \<lparr>sp_packet = ?p, sp_sent_time = steady_now s, sp_retry_count = 0, sp_recipient = bep\<rparr>)"
    using mm_send_tracked [OF up json assms(4)] by (simp add: s1)
  moreover have "(map_of (rm_sent_packets s))(lp_current_sequence s := None) = map_of (rm_sent_packets s)"
    using assms(4) by (simp add: fun_upd_idem)
  ultimately show ?thesis using o1 ob posted acked by simp
qed

theorem message_delivered_and_acknowledged_witness:
  "bs_posted (bs_receive link_lib (Received (fst (last (outbox
     (rv_send_message link_lib hello sample_ep session_rover)))) rover_ep) session_base)
   = [BaseAppMessage hello rover_ep]"
proof -
  have "map_of (rm_sent_packets session_rover) (lp_current_sequence session_rover) = None"
    "bs_connected_rover_id session_base = msg_sender hello"
    "\<forall>c p i t. hello = CommandMessage c p i t \<longrightarrow> c \<noteq> ''SESSION_INIT'' \<and> c \<noteq> ''SESSION_CONFIRM''"
    by (simp_all add: session_nodes hello_def)
  from message_delivered_and_acknowledged [OF session_nodes(1-3) this(1) session_nodes(6) link_nodes(3)
      session_nodes(7,8) this(2) session_nodes(10,11,12) link_carried(1) this(3) refl refl refl]
  have "bs_posted (bs_receive link_lib (Received (fst (last (outbox
      (rv_send_message link_lib hello sample_ep session_rover)))) rover_ep) session_base)
    = bs_posted session_base @ status_update session_base hello @ [BaseAppMessage hello rover_ep]" by blast
  then show ?thesis by (simp add: session_nodes status_update_def)
qed

text \<open>C35: a message that is too long for the peer's receive buffer is lost, and what follows it with it: a
  message whose text has more than 1012 bytes is sent and kept for retransmission like any other,
  but the base station reads only the first 1024 bytes of the datagram, waits for the rest of the
  packet, and neither hands anything to the application nor acknowledges anything; and a later
  packet that arrives whole is then taken for a part of the missing rest, not delivered and not
  acknowledged either, as long as it is shorter than what is missing.\<close>

theorem long_message_swallows_successors:
  assumes "rv_ready L bep s" and "rv_session_state s = R_ACTIVE" and "\<not> rv_low_power_mode s"
    and "map_of (rm_sent_packets s) (lp_current_sequence s) = None"
    and "serialise L m = Inr json" and "1012 < length json" and "length json < 2 ^ 16"
    and "bs_ready L rep b" and "packet_ok q" and "1012 + total_size q < length json" and "total_size q \<le> 1024"
    and "s1 = rv_send_message L m bep s"
    and "b1 = bs_receive L (Received (fst (last (outbox s1))) rep) b"
    and "b2 = bs_receive L (Received (packet_to_bytes q) rep) b1"
  shows "map_of (rm_sent_packets s1) (lp_current_sequence s) \<noteq> None
    \<and> bs_posted b1 = bs_posted b \<and> outbox b1 = outbox b
    \<and> lp_frame_buffers b1 (get_endpoint_key L rep) = Some (take 1024 (fst (last (outbox s1))))
    \<and> bs_posted b2 = bs_posted b \<and> outbox b2 = outbox b \<and> rm_acked_sequences b2 = rm_acked_sequences b"
proof -
  have up: "rv_up bep s" using assms(1) by (simp add: rv_ready_def)
  have s1: "s1 = mm_send_message L m bep s" using active_send [OF up assms(2,3)] assms(12) by simp
  define p where "p = message_packet (string_to_binary json) (get_lumen_type m) (get_lumen_priority m) s"
  let ?first = "take 1024 (packet_to_bytes p)"
  have o1: "outbox s1 = outbox s @ [(packet_to_bytes p, bep)]"
    using up assms(5) rv_up_specified [OF up] by (simp add: s1 mm_send_message_out rv_up_def p_def)
  have p: "packet_ok p" "total_size p = length json + 12"
    using assms(7) message_packet_ok [of "string_to_binary json"]
    by (simp_all add: p_def string_to_binary_def total_size_def LUMEN_HEADER_SIZE_def)
  have wait: "deframe (?first @ rest) = ([], ?first @ rest)" if "1024 + length rest < total_size p" for rest
    using that p by (intro deframe_incomplete) (simp_all add: LUMEN_HEADER_SIZE_def)
  have b: "bs_up b" "srv_hears b" "(case lp_frame_buffers b (get_endpoint_key L rep) of Some x \<Rightarrow> x | None \<Rightarrow> []) = []"
    using assms(8) by (auto simp: bs_ready_def srv_hears_def)
  note one = bs_receive_incomplete [OF b(1,2) packet_bytes_start b(3), of p b1]
  have i: "lp_frame_buffers b1 (get_endpoint_key L rep) = Some ?first" "outbox b1 = outbox b" "upper b1 = upper b"
    "bs_up b1" "srv_hears b1" "rm_acked_sequences b1 = rm_acked_sequences b"
    using one assms(6,13) p wait [of "[]"] o1 by (simp_all add: SERVER_SOCK_BUF_SIZE_def MAX_FRAME_BUFFER_SIZE_def)
  have fits: "take SERVER_SOCK_BUF_SIZE (packet_to_bytes q) = packet_to_bytes q"
    using assms(11) by (simp add: SERVER_SOCK_BUF_SIZE_def)
  have "length ?first + SERVER_SOCK_BUF_SIZE \<le> MAX_FRAME_BUFFER_SIZE"
    by (simp add: SERVER_SOCK_BUF_SIZE_def MAX_FRAME_BUFFER_SIZE_def)
  then have "outbox b2 = outbox b1" "upper b2 = upper b1" "rm_acked_sequences b2 = rm_acked_sequences b1"
    using bs_receive_incomplete [OF i(4,5) packet_bytes_start _ _ _ assms(14), of ?first] i(1)
      wait [of "packet_to_bytes q"] p assms(10) fits by simp_all
  moreover have "map_of (rm_sent_packets s1) (lp_current_sequence s) \<noteq> None"
    using mm_send_tracked [OF up assms(5,4)] by (simp add: s1)
  ultimately show ?thesis
    using i o1 by (simp add: bs_same_upper [OF i(3)] bs_same_upper(9) [of b2 b1])
qed

definition long_lib :: lib where
  "long_lib = sample_lib (\<lambda>_. None) (\<lambda>_. Some (replicate 1100 CHR ''x''))"

theorem long_message_swallows_successors_witness:
  "bs_posted (bs_receive long_lib (Received (packet_to_bytes sample_packet) rover_ep)
     (bs_receive long_lib (Received (fst (last (outbox (rv_send_message long_lib hello sample_ep session_rover))))
        rover_ep) session_base)) = []"
proof -
  have ready: "rv_ready long_lib sample_ep session_rover" "bs_ready long_lib rover_ep session_base"
    using session_nodes(1,6)
    by (simp_all add: rv_ready_def bs_ready_def get_endpoint_key_def long_lib_def link_lib_def sample_lib_def)
  have "serialise long_lib hello = Inr (replicate 1100 CHR ''x'')"
    by (simp add: long_lib_def sample_lib_def serialise_def)
  from long_message_swallows_successors [OF ready(1) session_nodes(2,3) _ this _ _ ready(2) _ _ _ refl refl refl,
      of sample_packet]
  show ?thesis using sample_damage(1) by (simp add: session_nodes)
qed

subsection \<open>Opening a session\<close>

text \<open>C2: the four-way handshake between a rover and a free base station over the wire: \<open>SESSION_INIT\<close>,
  \<open>SESSION_ACCEPT\<close>, \<open>SESSION_CONFIRM\<close> and \<open>SESSION_ESTABLISHED\<close>, each the last datagram the other
  side sent, leave both sides active, with the base station connected to this rover at the endpoint
  its datagrams came from and acknowledging its packets, and with nothing left in the rover's queue.
  The rover's periodic gap check, which would send more datagrams, is not due meanwhile.\<close>

theorem handshake_opens_session:
  assumes "rv_ready L bep s" and "rv_session_state s = R_INACTIVE \<or> rv_session_state s = R_DISCONNECTED"
    and "\<not> rv_low_power_mode s" and "\<forall>p \<in> set (rv_stored_packets s). stored_ok p"
    and "(lp_check_counter s + 1) mod 5 \<noteq> 0 \<and> (lp_check_counter s + 1 + 1) mod 5 \<noteq> 0"
    and "bs_station_id b \<noteq> rv_rover_id s"
    and "bs_ready L rep b" and "valid_recipient rep" and "bs_session_state b = B_INACTIVE"
    and "bs_connected_rover_id b = []" and "\<not> lp_session_active b"
    and "\<not> rm_has_acked_sequence L (lp_current_sequence s) rep b"
    and "\<not> rm_has_acked_sequence L (lp_current_sequence s + 1) rep b"
    and "carried L (system_now b) (CommandMessage ''SESSION_INIT'' (rv_rover_id s) (rv_rover_id s) (system_now s)) j1"
    and "carried L (system_now s) (CommandMessage ''SESSION_ACCEPT'' (bs_station_id b) (bs_station_id b) (system_now b)) j2"
    and "carried L (system_now b) (CommandMessage ''SESSION_CONFIRM'' (rv_rover_id s) (rv_rover_id s) (system_now s)) j3"
    and "carried L (system_now s) (CommandMessage ''SESSION_ESTABLISHED'' (bs_station_id b) (bs_station_id b) (system_now b)) j4"
    and "serialise L (status_report s) = Inr js" and "serialise L (position_report s) = Inr jp"
    and "s1 = rv_initiate_handshake L s"
    and "b1 = bs_receive L (Received (fst (last (outbox s1))) rep) b"
    and "s2 = rv_receive L (Received (fst (last (outbox b1))) bep) s1"
    and "b2 = bs_receive L (Received (fst (last (outbox s2))) rep) b1"
    and "s3 = rv_receive L (Received (fst (last (outbox b2))) bep) s2"
  shows "rv_session_state s1 = R_HANDSHAKE_INIT \<and> bs_session_state b1 = B_HANDSHAKE_ACCEPT
    \<and> rv_session_state s2 = R_HANDSHAKE_ACCEPT
    \<and> bs_session_state b2 = B_ACTIVE \<and> lp_session_active b2
    \<and> bs_connected_rover_id b2 = rv_rover_id s \<and> bs_rover_endpoint b2 = rep
    \<and> rv_session_state s3 = R_ACTIVE \<and> rv_stored_packets s3 = []"
proof -
  have up: "rv_up bep s" using assms(1) by (simp add: rv_ready_def)
  note init = rv_initiate_handshake_out [OF up assms(2) carried_serialise [OF assms(14)] assms(20)]
  have ready1: "rv_ready L bep s1"
    using assms(1) by (simp add: assms(20) rv_ready_live session_handlers_live)
  have same1: "system_now s1 = system_now s" "lp_check_counter s1 = lp_check_counter s"
    "rv_stored_packets s1 = rv_stored_packets s" "rv_low_power_mode s1 = rv_low_power_mode s"
    "status_report s1 = status_report s" "position_report s1 = position_report s"
    by (simp_all add: assms(20) session_handlers_live) (simp_all add: rv_initiate_handshake_def Let_def
        status_report_def position_report_def)
  have b1: "b1 = bs_receive L (Received (fst (command_datagram j1 bep s)) rep) b"
    using assms(21) init(6) by simp
  note at_base = bs_receive_init [OF assms(7-11,14,12) carried_serialise [OF assms(15)] b1]
  have s2: "s2 = rv_receive L (Received (fst (command_datagram j2 rep b)) bep) s1"
    using assms(22) at_base(8) by simp
  note quiet = assms(5) [THEN conjunct1] and quiet2 = assms(5) [THEN conjunct2]
  note at_rover = rv_receive_accept [OF ready1 init(2) _ _ _ _ s2, of "bs_station_id b" "bs_station_id b"
      "system_now b" j3]
  have r: "rv_ready L bep s2" "rv_session_state s2 = R_HANDSHAKE_ACCEPT" "rv_rover_id s2 = rv_rover_id s"
    "outbox s2 = outbox s1 @ [command_datagram j3 bep s1]" "rv_stored_packets s2 = rv_stored_packets s"
    "rv_low_power_mode s2 = rv_low_power_mode s" "status_report s2 = status_report s"
    "position_report s2 = position_report s" "system_now s2 = system_now s"
    "lp_check_counter s2 = lp_check_counter s + 1"
    using at_rover assms(6,15) init(3) same1 quiet carried_serialise [OF assms(16)] by simp_all
  have b2: "b2 = bs_receive L (Received (fst (command_datagram j3 bep s1)) rep) b1"
    using assms(23) r(4) by simp
  have j3: "carried L (system_now b1) (CommandMessage ''SESSION_CONFIRM'' (rv_rover_id s) (rv_rover_id s) (system_now s)) j3"
    "\<not> rm_has_acked_sequence L (lp_current_sequence s1) rep b1"
    "serialise L (CommandMessage ''SESSION_ESTABLISHED'' (bs_station_id b1) (bs_station_id b1) (system_now b1)) = Inr j4"
    using assms(13,16) carried_serialise [OF assms(17)] at_base(6,7,9) init(9) by simp_all
  note opened = bs_receive_confirm [OF at_base(1) assms(8) at_base(2-5) j3 b2]
  have s3: "s3 = rv_receive L (Received (fst (command_datagram j4 rep b1)) bep) s2"
    using assms(24) opened(5) by simp
  have "rv_session_state s3 = R_ACTIVE \<and> rv_stored_packets s3 = []"
    using rv_receive_established [OF r(1) _ _ _ _ _ _ _ _ s3, of "bs_station_id b" "bs_station_id b" "system_now b" js jp]
      r assms(3,4,6,17-19) quiet2 by simp
  then show ?thesis using init(2) at_base(2) r(2) opened(1-4) by simp
qed

theorem handshake_opens_session_witness:
  "let s1 = rv_initiate_handshake link_lib idle_rover;
       b1 = bs_receive link_lib (Received (fst (last (outbox s1))) rover_ep) sample_base;
       s2 = rv_receive link_lib (Received (fst (last (outbox b1))) sample_ep) s1;
       b2 = bs_receive link_lib (Received (fst (last (outbox s2))) rover_ep) b1;
       s3 = rv_receive link_lib (Received (fst (last (outbox b2))) sample_ep) s2
   in bs_session_state b2 = B_ACTIVE \<and> rv_session_state s3 = R_ACTIVE"
proof -
  have r: "rv_session_state idle_rover = R_INACTIVE \<or> rv_session_state idle_rover = R_DISCONNECTED"
    "\<not> rv_low_power_mode idle_rover" "\<forall>p \<in> set (rv_stored_packets idle_rover). stored_ok p"
    "(lp_check_counter idle_rover + 1) mod 5 \<noteq> 0 \<and> (lp_check_counter idle_rover + 1 + 1) mod 5 \<noteq> 0"
    "bs_station_id sample_base \<noteq> rv_rover_id idle_rover"
    using session_nodes(20) by (simp_all add: session_rover_def)
  have "rm_acked_sequences sample_base = Map.empty" by (simp add: sample_base_defs)
  then have now: "system_now idle_rover = 0" "system_now sample_base = 0"
    "\<not> rm_has_acked_sequence link_lib q rover_ep sample_base" for q
    using session_nodes(16,17)
    by (simp_all add: session_rover_def session_base_def lp_set_session_active_def rm_has_acked_sequence_def)
  have json: "\<exists>j. serialise link_lib m = Inr j" for m
    by (simp add: serialise_def link_lib_def sample_lib_def link_dump_def)
  obtain js jp where rep: "serialise link_lib (status_report idle_rover) = Inr js"
    "serialise link_lib (position_report idle_rover) = Inr jp" using json by meson
  show ?thesis
    using handshake_opens_session [OF link_nodes(1) r link_nodes(2,3) _ _ _ now(3) now(3) _ _ _ _ rep refl refl refl refl refl,
        of "''SESSION_INIT''" "''SESSION_ACCEPT''" "''SESSION_CONFIRM''" "''SESSION_ESTABLISHED''"] link_carried now
    by (simp add: Let_def)
qed

subsection \<open>A command from the base station\<close>

text \<open>C12: a target set at the base station becomes the rover's target: \<open>set_rover_target\<close> sends one
  datagram to the connected rover; when it arrives, the rover's target is the pair of numbers the
  printed coordinates are read as, its movement timer is armed to fire after 10 ms, and its position
  is unchanged; if the target is within a metre, the rover has no target. The printing of the
  coordinates and its reading back are those of the C++ library, and the rover's periodic gap check
  is not due.\<close>

theorem target_command_reaches_rover:
  assumes "rv_ready L bep s" and "bs_up b" and "bs_session_state b = B_ACTIVE"
    and "valid_recipient (bs_rover_endpoint b)" and "bs_station_id b \<noteq> rv_rover_id s"
    and "(lp_check_counter s + 1) mod 5 \<noteq> 0"
    and "coordinate_text L x x'" and "coordinate_text L y y'"
    and "m = CommandMessage ''SET_TARGET_COORD'' (fixed6 L x @ '','' @ fixed6 L y) (bs_station_id b) (system_now b)"
    and "carried L (system_now s) m json" and "json_dump_indented L (to_json L m) = Some text"
    and "b1 = bs_set_rover_target L x y b"
    and "s1 = rv_receive L (Received (fst (last (outbox b1))) bep) s"
  shows "(\<exists>d. outbox b1 = outbox b @ [(d, bs_rover_endpoint b)])
    \<and> rv_current_coordinate s1 = rv_current_coordinate s
    \<and> (if calculate_distance (fst (rv_current_coordinate s)) (snd (rv_current_coordinate s)) x' y'
           > TARGET_REACHED_THRESHOLD_METERS
       then rv_target_coordinate s1 = Some (x', y')
         \<and> rv_movement_timer s1 = \<lparr>tm_expiry = steady_now s + ms 10, tm_waiting = True\<rparr>
       else rv_target_coordinate s1 = None)"
proof -
  define g where "g = rv_got L (message_packet (string_to_binary json) CMD HIGH b) bep s"
  have out: "outbox b1 = outbox b @ [command_datagram json (bs_rover_endpoint b) b]"
    using bs_send_command_out(1) [OF assms(2,4) disjI1 [OF assms(3)]] carried_serialise [OF assms(10)] assms(9,12)
    by (simp add: bs_set_rover_target_def)
  have up: "rv_up bep g" using assms(1) by (simp add: g_def rv_ready_def)
  have other: "bs_station_id b \<noteq> rv_rover_id g" using assms(5) by (simp add: g_def rv_got_same)
  have "s1 = cl_listens (store_rest L [] bep (rv_set_target x' y' g))"
    using rv_receive_command [OF assms(1,10,6), of "bs_rover_endpoint b" b] assms(13) out
      rv_route_target [OF up other assms(7,8,9) carried_printed [OF assms(10,11)]]
    by (simp flip: g_def)
  then have "upper s1 = upper (rv_set_target x' y' g)" by simp
  note same = rv_same_upper [OF this] and got = rv_got_same [of L _ bep s]
  show ?thesis
    using out by (simp add: same) (simp add: g_def got rv_set_target_def Let_def arm_after_def
        async_wait_def expires_at_def cancel_def command_datagram_def)
qed

theorem target_command_reaches_rover_witness:
  "rv_target_coordinate (rv_receive link_lib (Received (fst (last (outbox
     (bs_set_rover_target link_lib 5 5 session_base)))) sample_ep) session_rover) = Some (5, 5)"
proof -
  have c: "coordinate_text link_lib 5 5"
    by (simp add: coordinate_text_def link_lib_def)
  have b: "bs_up session_base" "valid_recipient (bs_rover_endpoint session_base)"
    "bs_station_id session_base \<noteq> rv_rover_id session_rover" "(lp_check_counter session_rover + 1) mod 5 \<noteq> 0"
    using session_nodes(6) link_nodes(3) by (simp_all add: bs_ready_def session_nodes)
  have j: "carried link_lib (system_now session_rover) (CommandMessage ''SET_TARGET_COORD''
      (fixed6 link_lib 5 @ '','' @ fixed6 link_lib 5) (bs_station_id session_base) (system_now session_base))
      ''SET_TARGET_COORD''"
    using link_carried(6) by (simp add: session_nodes link_lib_def)
  obtain str where t: "json_dump_indented link_lib (to_json link_lib (CommandMessage ''SET_TARGET_COORD''
      (fixed6 link_lib 5 @ '','' @ fixed6 link_lib 5) (bs_station_id session_base) (system_now session_base)))
      = Some str"
    by (simp add: link_lib_def sample_lib_def link_dump_def)
  have "sqrt 50 > (1::real)" by (simp add: real_less_rsqrt)
  then show ?thesis
    using target_command_reaches_rover [OF session_nodes(1) b(1) session_nodes(7) b(2-4) c c refl j t refl refl]
    by (simp add: session_nodes calculate_distance_def TARGET_REACHED_THRESHOLD_METERS_def)
qed

end
